(* ===== verification/Prelude.thy ===== *)
theory Prelude
  imports Main "HOL-Library.Word" "HOL-Library.Char_ord"
begin

text \<open>
  Shared vocabulary of the development: Go's fixed-width integers, \<open>time.Time\<close> and
  \<open>time.Duration\<close>, Go strings as byte lists, and the small state-and-error monad in which the
  effectful code (repositories, worker, handlers) is written. The theorem collections
  \<open>io_simps\<close> (running a computation) and \<open>io_inv_rules\<close> (an invariant goes through a
  computation) carry the proofs of the component theories.
\<close>

named_theorems io_simps \<open>equations that run a computation of the io monad\<close>
named_theorems io_ok \<open>what it means that a computation succeeds\<close>
named_theorems io_inv_rules \<open>introduction rules for invariants of io computations\<close>

section \<open>Integers\<close>

text \<open>
  Go's \<open>int\<close>, \<open>int64\<close> and \<open>time.Duration\<close> are 64-bit two's complement on the targets of
  this program, \<open>int32\<close> is what the sqlc parameters use. Values are kept as HOL integers and
  the wrap-around of an operation is written with \<open>wrap64\<close> or \<open>wrap32\<close>.
\<close>

definition wrap64 :: "int \<Rightarrow> int" where
  "wrap64 x = (x + 2 ^ 63) mod 2 ^ 64 - 2 ^ 63"

definition wrap32 :: "int \<Rightarrow> int" where
  "wrap32 x = (x + 2 ^ 31) mod 2 ^ 32 - 2 ^ 31"

definition max_int64 :: int where "max_int64 = 2 ^ 63 - 1"
definition min_int64 :: int where "min_int64 = - (2 ^ 63)"

definition is_int64 :: "int \<Rightarrow> bool" where
  "is_int64 x \<longleftrightarrow> min_int64 \<le> x \<and> x \<le> max_int64"

lemma wrap64_id [simp]: "is_int64 x \<Longrightarrow> wrap64 x = x"
  by (simp add: is_int64_def min_int64_def max_int64_def wrap64_def)

lemma wrap64_small: "- (2 ^ 63) \<le> x \<Longrightarrow> x < 2 ^ 63 \<Longrightarrow> wrap64 x = x"
  by (simp add: wrap64_def)

lemma wrap64_is_int64 [simp]: "is_int64 (wrap64 x)"
  by (simp add: is_int64_def min_int64_def max_int64_def wrap64_def)

lemma wrap32_small: "- (2 ^ 31) \<le> x \<Longrightarrow> x < 2 ^ 31 \<Longrightarrow> wrap32 x = x"
  by (simp add: wrap32_def)

lemma wrap32_is_wrap: "sint (word_of_int x :: 32 word) = wrap32 x"
  by (simp add: wrap32_def signed_take_bit_eq_take_bit_shift take_bit_eq_mod
      sint_uint uint_word_of_int mod_add_left_eq)

lemma wrap64_is_wrap: "sint (word_of_int x :: 64 word) = wrap64 x"
  by (simp add: wrap64_def signed_take_bit_eq_take_bit_shift take_bit_eq_mod
      sint_uint uint_word_of_int mod_add_left_eq)

text \<open>Go's integer division and remainder truncate towards zero.\<close>

definition quot_go :: "int \<Rightarrow> int \<Rightarrow> int" where
  "quot_go a b = sgn a * sgn b * (\<bar>a\<bar> div \<bar>b\<bar>)"

definition rem_go :: "int \<Rightarrow> int \<Rightarrow> int" where
  "rem_go a b = a - b * quot_go a b"

lemma quot_go_nonneg: "0 \<le> a \<Longrightarrow> 0 < b \<Longrightarrow> quot_go a b = a div b"
  by (cases "a = 0") (simp_all add: quot_go_def)

lemma rem_go_nonneg: "0 \<le> a \<Longrightarrow> 0 < b \<Longrightarrow> rem_go a b = a mod b"
  by (simp add: rem_go_def quot_go_nonneg minus_mult_div_eq_mod)

section \<open>Time\<close>

text \<open>
  An instant is its distance in nanoseconds from Go's zero \<open>time.Time\<close>, so \<open>time.Time{}\<close>
  is 0; a duration is an \<open>int64\<close> number of nanoseconds. \<open>Time.Sub\<close> saturates.
\<close>

type_synonym time = int
type_synonym duration = int

definition zero_time :: time where "zero_time = 0"
definition second :: duration where "second = 1000000000"
definition millisecond :: duration where "millisecond = 1000000"
definition minute :: duration where "minute = 60 * second"
definition hour :: duration where "hour = 60 * minute"

definition time_sub :: "time \<Rightarrow> time \<Rightarrow> duration" where
  "time_sub t u = max min_int64 (min max_int64 (t - u))"

lemma time_sub_ge: "is_int64 d \<Longrightarrow> d \<le> time_sub t u \<longleftrightarrow> (d = min_int64 \<or> d \<le> t - u)"
  by (auto simp: time_sub_def is_int64_def)

lemma time_sub_ge_pos: "is_int64 d \<Longrightarrow> 0 < d \<Longrightarrow> d \<le> time_sub t u \<longleftrightarrow> d \<le> t - u"
  by (auto simp: time_sub_def is_int64_def min_int64_def)

lemma time_sub_same [simp]: "time_sub t t = 0"
  by (simp add: time_sub_def min_int64_def max_int64_def)

section \<open>Strings\<close>

text \<open>
  A Go string is a sequence of bytes: \<open>string\<close>, with \<open>length\<close> the byte count that Go's
  \<open>len\<close> returns. \<open>strings.TrimSpace\<close> removes Unicode white space; \<open>white_space\<close> lists
  the UTF-8 encodings of the runes for which \<open>unicode.IsSpace\<close> holds.
\<close>

definition white_space :: "string list" where
  "white_space =
     [[CHR 0x09], [CHR 0x0A], [CHR 0x0B], [CHR 0x0C], [CHR 0x0D], [CHR 0x20],
      [CHR 0xC2, CHR 0x85], [CHR 0xC2, CHR 0xA0],
      [CHR 0xE1, CHR 0x9A, CHR 0x80],
      [CHR 0xE2, CHR 0x80, CHR 0x80], [CHR 0xE2, CHR 0x80, CHR 0x81],
      [CHR 0xE2, CHR 0x80, CHR 0x82], [CHR 0xE2, CHR 0x80, CHR 0x83],
      [CHR 0xE2, CHR 0x80, CHR 0x84], [CHR 0xE2, CHR 0x80, CHR 0x85],
      [CHR 0xE2, CHR 0x80, CHR 0x86], [CHR 0xE2, CHR 0x80, CHR 0x87],
      [CHR 0xE2, CHR 0x80, CHR 0x88], [CHR 0xE2, CHR 0x80, CHR 0x89],
      [CHR 0xE2, CHR 0x80, CHR 0x8A],
      [CHR 0xE2, CHR 0x80, CHR 0xA8], [CHR 0xE2, CHR 0x80, CHR 0xA9],
      [CHR 0xE2, CHR 0x80, CHR 0xAF], [CHR 0xE2, CHR 0x81, CHR 0x9F],
      [CHR 0xE3, CHR 0x80, CHR 0x80]]"

fun strip_prefix :: "'a list \<Rightarrow> 'a list \<Rightarrow> 'a list option" where
  "strip_prefix [] s = Some s"
| "strip_prefix (p # ps) [] = None"
| "strip_prefix (p # ps) (c # s) = (if p = c then strip_prefix ps s else None)"

fun strip_any :: "'a list list \<Rightarrow> 'a list \<Rightarrow> 'a list option" where
  "strip_any [] s = None"
| "strip_any (e # es) s =
     (case strip_prefix e s of Some s' \<Rightarrow> Some s' | None \<Rightarrow> strip_any es s)"

lemma strip_prefix_Some: "strip_prefix p s = Some s' \<longleftrightarrow> s = p @ s'"
  by (induction p s rule: strip_prefix.induct) auto

lemma strip_any_Some: "strip_any es s = Some s' \<Longrightarrow> \<exists>e \<in> set es. s = e @ s'"
  by (induction es) (auto split: option.splits simp: strip_prefix_Some)

text \<open>The fuel is the length of the input: every round removes at least one byte.\<close>

fun trim_fuel :: "nat \<Rightarrow> 'a list list \<Rightarrow> 'a list \<Rightarrow> 'a list" where
  "trim_fuel 0 es s = s"
| "trim_fuel (Suc n) es s =
     (case strip_any es s of None \<Rightarrow> s | Some s' \<Rightarrow> trim_fuel n es s')"

definition trim_left :: "string \<Rightarrow> string" where
  "trim_left s = trim_fuel (length s) white_space s"

definition trim_right :: "string \<Rightarrow> string" where
  "trim_right s = rev (trim_fuel (length s) (map rev white_space) (rev s))"

definition trim_space :: "string \<Rightarrow> string" where
  "trim_space s = trim_right (trim_left s)"

lemma trim_fuel_split: "\<exists>ws. set ws \<subseteq> set es \<and> s = concat ws @ trim_fuel n es s"
proof (induction n es s rule: trim_fuel.induct)
  case (1 es s)
  have "set [] \<subseteq> set es \<and> s = concat [] @ trim_fuel 0 es s" by simp
  then show ?case by blast
next
  case (2 n es s)
  show ?case
  proof (cases "strip_any es s")
    case None
    then have "set [] \<subseteq> set es \<and> s = concat [] @ trim_fuel (Suc n) es s" by simp
    then show ?thesis by blast
  next
    case (Some s')
    with "2.IH" obtain ws where ws: "set ws \<subseteq> set es" "s' = concat ws @ trim_fuel n es s'"
      by blast
    from Some obtain e where "e \<in> set es" "s = e @ s'" by (auto dest: strip_any_Some)
    with ws Some have "set (e # ws) \<subseteq> set es \<and> s = concat (e # ws) @ trim_fuel (Suc n) es s"
      by simp
    then show ?thesis by blast
  qed
qed

lemma trim_fuel_done:
  "\<lbrakk> [] \<notin> set es; length s \<le> n \<rbrakk> \<Longrightarrow> strip_any es (trim_fuel n es s) = None"
proof (induction n es s rule: trim_fuel.induct)
  case (1 es s)
  then have "s = []" by simp
  with 1 show ?case
    by (cases "strip_any es []") (auto dest!: strip_any_Some)
next
  case (2 n es s)
  show ?case
  proof (cases "strip_any es s")
    case (Some s')
    then obtain e where "e \<in> set es" "s = e @ s'" by (auto dest: strip_any_Some)
    with 2 have "length s' \<le> n" by (cases e) auto
    with 2 Some show ?thesis by simp
  qed simp
qed

text \<open>
  \<open>blank s\<close>: the string consists of white space only. Trimming splits a string into a blank
  part, the trimmed string and a blank part, and the trimmed string has no white space left at
  either end.
\<close>

definition blank :: "string \<Rightarrow> bool" where
  "blank s \<longleftrightarrow> (\<exists>ws. set ws \<subseteq> set white_space \<and> s = concat ws)"

definition trimmed :: "string \<Rightarrow> bool" where
  "trimmed s \<longleftrightarrow> strip_any white_space s = None \<and> strip_any (map rev white_space) (rev s) = None"

lemma blank_Nil [simp]: "blank []"
  by (auto simp: blank_def intro: exI [of _ "[]"])

lemma blank_append [intro]: "blank s \<Longrightarrow> blank t \<Longrightarrow> blank (s @ t)"
  by (metis blank_def concat_append le_sup_iff set_append)

lemma white_space_nonempty [simp]: "[] \<notin> set white_space"
  by (simp add: white_space_def)

lemma trim_left_split: "\<exists>u. blank u \<and> s = u @ trim_left s"
  using trim_fuel_split [of white_space s "length s"] by (auto simp: trim_left_def blank_def)

lemma trim_right_split: "\<exists>u. blank u \<and> s = trim_right s @ u"
proof -
  obtain ws where ws: "set ws \<subseteq> set (map rev white_space)"
    "rev s = concat ws @ trim_fuel (length s) (map rev white_space) (rev s)"
    using trim_fuel_split by blast
  then have "s = trim_right s @ concat (map rev (rev ws))"
    by (metis rev_append rev_concat rev_rev_ident trim_right_def rev_map)
  moreover have "set (map rev (rev ws)) \<subseteq> set white_space"
    using ws(1) by auto
  ultimately show ?thesis unfolding blank_def by blast
qed

lemma trim_space_split: "\<exists>u v. blank u \<and> blank v \<and> s = u @ trim_space s @ v"
  by (metis trim_left_split trim_right_split trim_space_def)

lemma trim_space_empty_blank: "trim_space s = [] \<Longrightarrow> blank s"
  by (metis append_Nil blank_append trim_space_split)

lemma trim_space_length: "length (trim_space s) \<le> length s"
proof -
  obtain u v where "s = u @ trim_space s @ v" using trim_space_split by blast
  then have "length s = length u + length (trim_space s) + length v"
    by (metis add.assoc length_append)
  then show ?thesis by simp
qed

lemma strip_any_mono: "strip_any es (s @ t) = None \<Longrightarrow> strip_any es s = None"
  by (induction es) (auto split: option.splits simp: strip_prefix_Some not_Some_eq [symmetric]
      simp del: not_Some_eq)

lemma trimmed_trim_space: "trimmed (trim_space s)"
proof -
  have l: "strip_any white_space (trim_left s) = None"
    unfolding trim_left_def by (rule trim_fuel_done) auto
  obtain u where "trim_left s = trim_space s @ u"
    using trim_right_split trim_space_def by metis
  with l have "strip_any white_space (trim_space s) = None"
    by (metis strip_any_mono)
  moreover have "strip_any (map rev white_space) (rev (trim_space s)) = None"
    unfolding trim_space_def trim_right_def rev_rev_ident
    by (rule trim_fuel_done) auto
  ultimately show ?thesis by (simp add: trimmed_def)
qed

text \<open>\<open>strings.Join\<close> and the tests on prefixes that the code uses.\<close>

fun join :: "string \<Rightarrow> string list \<Rightarrow> string" where
  "join sep [] = []"
| "join sep [x] = x"
| "join sep (x # y # xs) = x @ sep @ join sep (y # xs)"

definition has_prefix :: "string \<Rightarrow> string \<Rightarrow> bool" where
  "has_prefix s p \<longleftrightarrow> take (length p) s = p"

text \<open>
  \<open>strings.ToLower\<close>, as far as the code depends on it: the result is only compared with ASCII
  strings. The two non-ASCII runes with an ASCII lower case are U+0130 and U+212A; every other
  non-ASCII rune stays non-ASCII, and the model leaves its bytes as they are.
\<close>

definition lower_byte :: "char \<Rightarrow> char" where
  "lower_byte c = (if CHR ''A'' \<le> c \<and> c \<le> CHR ''Z'' then char_of (of_char c + 32 :: nat) else c)"

fun to_lower :: "string \<Rightarrow> string" where
  "to_lower [] = []"
| "to_lower (c # s) =
     (if c = CHR 0xC4 \<and> take 1 s = [CHR 0xB0] then CHR ''i'' # to_lower (drop 1 s)
      else if c = CHR 0xE2 \<and> take 2 s = [CHR 0x84, CHR 0xAA] then CHR ''k'' # to_lower (drop 2 s)
      else lower_byte c # to_lower s)"

text \<open>Decimal rendering of an integer, \<open>%d\<close>.\<close>

fun digits_nat :: "nat \<Rightarrow> string" where
  "digits_nat n = (if n < 10 then [char_of (48 + n)] else digits_nat (n div 10) @ [char_of (48 + n mod 10)])"

declare digits_nat.simps [simp del]

definition show_int :: "int \<Rightarrow> string" where
  "show_int i = (if i < 0 then CHR ''-'' # digits_nat (nat (- i)) else digits_nat (nat i))"

text \<open>
  \<open>strconv.Atoi\<close> and \<open>strconv.ParseInt(s, 10, 64)\<close>: an optional sign, at least one digit, and a
  value that fits 64 bits; \<open>None\<close> is the error.
\<close>

fun digits_value :: "int \<Rightarrow> string \<Rightarrow> int option" where
  "digits_value acc [] = Some acc"
| "digits_value acc (c # cs) =
     (if CHR ''0'' \<le> c \<and> c \<le> CHR ''9'' then digits_value (acc * 10 + (of_char c - 48)) cs else None)"

definition atoi :: "string \<Rightarrow> int option" where
  "atoi s =
     (let neg = (take 1 s = ''-'');
          ds = (if take 1 s = ''-'' \<or> take 1 s = ''+'' then drop 1 s else s)
      in if ds = [] then None
         else (case digits_value 0 ds of
                 None \<Rightarrow> None
               | Some n \<Rightarrow> (let v = (if neg then - n else n) in if is_int64 v then Some v else None)))"

lemma atoi_is_int64: "atoi s = Some n \<Longrightarrow> is_int64 n"
  by (auto simp: atoi_def Let_def split: if_splits option.splits)

section \<open>Batches\<close>

text \<open>
  The loop \<open>for start := 0; start < len(xs); start += n\<close> over the slices \<open>xs[start:min(start+n, len)]\<close>.
  Its callers make sure that \<open>n\<close> is positive; the loop would not end otherwise.
\<close>

function batches :: "nat \<Rightarrow> 'a list \<Rightarrow> 'a list list" where
  "batches n xs = (if xs = [] \<or> n = 0 then [] else take n xs # batches n (drop n xs))"
  by pat_completeness auto
termination by (relation "measure (\<lambda>(n, xs). length xs)") auto

declare batches.simps [simp del]

lemma concat_batches: "0 < n \<Longrightarrow> concat (batches n xs) = xs"
  by (induction n xs rule: batches.induct) (subst batches.simps, simp)

lemma batches_length: "b \<in> set (batches n xs) \<Longrightarrow> b \<noteq> [] \<and> length b \<le> n"
proof (induction n xs rule: batches.induct)
  case (1 n xs)
  then show ?case unfolding batches.simps [of n xs] by (auto split: if_splits)
qed

lemma length_batches: "0 < n \<Longrightarrow> length (batches n xs) = (length xs + n - 1) div n"
proof (induction n xs rule: batches.induct)
  case (1 n xs)
  show ?case
  proof (cases "xs = []")
    case False
    then have "(length xs + n - 1) div n = Suc ((length xs - 1) div n)"
      using le_div_geq [of n "length xs + n - 1"] 1(2) by (cases xs) simp_all
    moreover have "length (batches n (drop n xs)) = (length xs - 1) div n"
    proof (cases "n \<le> length xs")
      case True
      with 1(1) [of] False 1(2) show ?thesis by simp
    next
      case False
      then show ?thesis by (simp add: batches.simps)
    qed
    ultimately show ?thesis using False 1(2) by (subst batches.simps) simp
  qed (use 1(2) in \<open>simp add: batches.simps\<close>)
qed

section \<open>Computations with state and errors\<close>

text \<open>
  Code that reads and changes the world \<open>'w\<close> and may return an error: a Go function with
  result type \<open>(T, error)\<close>. The state after an error is the state the code left behind.
  \<open>andthen m f\<close> is the idiom \<open>x, err := m(); if err != nil { return err }; f(x)\<close>.
\<close>

type_synonym ('e, 'w, 'a) io = "'w \<Rightarrow> ('e + 'a) \<times> 'w"

definition ret :: "'a \<Rightarrow> ('e, 'w, 'a) io" where
  "ret a = (\<lambda>w. (Inr a, w))"

definition fail :: "'e \<Rightarrow> ('e, 'w, 'a) io" where
  "fail e = (\<lambda>w. (Inl e, w))"

definition andthen :: "('e, 'w, 'a) io \<Rightarrow> ('a \<Rightarrow> ('e, 'w, 'b) io) \<Rightarrow> ('e, 'w, 'b) io" where
  "andthen m f = (\<lambda>w. case m w of (Inl e, w') \<Rightarrow> (Inl e, w') | (Inr a, w') \<Rightarrow> f a w')"

text \<open>The same computation with its error wrapped: \<open>if err != nil { return fmt.Errorf(.., err) }\<close>.\<close>

definition map_err :: "('e \<Rightarrow> 'f) \<Rightarrow> ('e, 'w, 'a) io \<Rightarrow> ('f, 'w, 'a) io" where
  "map_err g m = (\<lambda>w. case m w of (Inl e, w') \<Rightarrow> (Inl (g e), w') | (Inr a, w') \<Rightarrow> (Inr a, w'))"

text \<open>A loop over a slice that stops at the first error, collecting one result per element.\<close>

fun for_collect :: "('a \<Rightarrow> ('e, 'w, 'b) io) \<Rightarrow> 'a list \<Rightarrow> ('e, 'w, 'b list) io" where
  "for_collect f [] = ret []"
| "for_collect f (x # xs) = andthen (f x) (\<lambda>y. andthen (for_collect f xs) (\<lambda>ys. ret (y # ys)))"

fun for_each :: "('a \<Rightarrow> ('e, 'w, unit) io) \<Rightarrow> 'a list \<Rightarrow> ('e, 'w, unit) io" where
  "for_each f [] = ret ()"
| "for_each f (x # xs) = andthen (f x) (\<lambda>_. for_each f xs)"

lemma ret_run [io_simps]: "ret a w = (Inr a, w)" by (simp add: ret_def)
lemma fail_run [io_simps]: "fail e w = (Inl e, w)" by (simp add: fail_def)
lemma andthen_Inl [io_simps]: "m w = (Inl e, w') \<Longrightarrow> andthen m f w = (Inl e, w')"
  by (simp add: andthen_def)
lemma andthen_Inr [io_simps]: "m w = (Inr a, w') \<Longrightarrow> andthen m f w = f a w'"
  by (simp add: andthen_def)
lemma map_err_run [io_simps]:
  "map_err g m w = (case m w of (Inl e, w') \<Rightarrow> (Inl (g e), w') | (Inr a, w') \<Rightarrow> (Inr a, w'))"
  by (simp add: map_err_def)

lemma andthen_ret_left [simp]: "andthen (ret a) f = f a"
  by (rule ext) (simp add: andthen_def ret_def)

lemma andthen_fail_left [simp]: "andthen (fail e) f = fail e"
  by (rule ext) (simp add: andthen_def fail_def)

lemma andthen_assoc: "andthen (andthen m f) g = andthen m (\<lambda>a. andthen (f a) g)"
  by (rule ext) (auto simp: andthen_def split: prod.splits sum.splits)

lemma andthen_InrE:
  assumes "andthen m f w = (Inr b, w'')"
  obtains a w' where "m w = (Inr a, w')" "f a w' = (Inr b, w'')"
  using assms by (auto simp: andthen_def split: prod.splits sum.splits)

lemma andthen_ok [io_ok]:
  "andthen m f w = (Inr b, w'') \<longleftrightarrow> (\<exists>a w'. m w = (Inr a, w') \<and> f a w' = (Inr b, w''))"
  by (auto simp: andthen_def split: prod.splits sum.splits)

lemma map_err_ok [io_ok]: "map_err g m w = (Inr a, w') \<longleftrightarrow> m w = (Inr a, w')"
  by (auto simp: map_err_def split: prod.splits sum.splits)

lemma ret_ok [io_ok]: "ret a w = (Inr b, w') \<longleftrightarrow> a = b \<and> w = w'"
  by (auto simp: ret_def)

lemma fail_ok [io_ok]: "fail e w = (Inr b, w') \<longleftrightarrow> False"
  by (simp add: fail_def)

lemma map_err_snd [simp]: "snd (map_err g m w) = snd (m w)"
  by (auto simp: map_err_def split: prod.splits sum.splits)

lemma andthen_cases:
  assumes "andthen m f w = (r, w'')"
  obtains e where "m w = (Inl e, w'')" "r = Inl e"
  | a w' where "m w = (Inr a, w')" "f a w' = (r, w'')"
  using assms by (auto simp: andthen_def split: prod.splits sum.splits)

lemma map_err_InrD: "map_err g m w = (Inr a, w') \<Longrightarrow> m w = (Inr a, w')"
  by (auto simp: map_err_def split: prod.splits sum.splits)

text \<open>
  \<open>keeps P m\<close>: whatever \<open>m\<close> returns, error or not, it leaves a state related by the
  reflexive and transitive relation \<open>P\<close> to the one it started in. Invariants and frame
  conditions of whole handlers are composed from those of their calls.
\<close>

definition keeps :: "('w \<Rightarrow> bool) \<Rightarrow> ('e, 'w, 'a) io \<Rightarrow> bool" where
  "keeps P m \<longleftrightarrow> (\<forall>w. P w \<longrightarrow> P (snd (m w)))"

lemma keepsD: "keeps P m \<Longrightarrow> P w \<Longrightarrow> m w = (r, w') \<Longrightarrow> P w'"
  by (metis keeps_def snd_conv)

lemma keeps_ret [io_inv_rules]: "keeps P (ret a)"
  by (simp add: keeps_def ret_def)

lemma keeps_fail [io_inv_rules]: "keeps P (fail e)"
  by (simp add: keeps_def fail_def)

lemma keeps_andthen [io_inv_rules]:
  "keeps P m \<Longrightarrow> (\<And>a. keeps P (f a)) \<Longrightarrow> keeps P (andthen m f)"
  by (auto simp: keeps_def andthen_def split: prod.splits sum.splits)

lemma keeps_map_err [io_inv_rules]: "keeps P m \<Longrightarrow> keeps P (map_err g m)"
  by (auto simp: keeps_def map_err_def split: prod.splits sum.splits)

lemma keeps_for_collect [io_inv_rules]: "(\<And>x. keeps P (f x)) \<Longrightarrow> keeps P (for_collect f xs)"
  by (induction xs) (auto intro!: io_inv_rules)

lemma keeps_for_each [io_inv_rules]: "(\<And>x. keeps P (f x)) \<Longrightarrow> keeps P (for_each f xs)"
  by (induction xs) (auto intro!: io_inv_rules)

lemma keeps_if [io_inv_rules]: "keeps P m \<Longrightarrow> keeps P n \<Longrightarrow> keeps P (if b then m else n)"
  by simp

end
