(* ===== verification/ApiErrors.thy ===== *)
theory ApiErrors
  imports Prelude
begin

text \<open>
  The error values of the program: \<open>internal/core/errors\<close> (the API errors, each a stable code,
  an HTTP status and a client-safe message) and the error chains that \<open>fmt.Errorf("..%w..")\<close>
  builds around them. \<open>api_code\<close>, \<open>api_http_status\<close> and \<open>api_message\<close> are what a client sees
  of an error; the lemmas show that only the sentinels' texts can reach it.
\<close>

section \<open>Errors\<close>

record api_error =
  ae_code :: string
  ae_http_status :: int
  ae_msg :: string

text \<open>
  \<open>Leaf m\<close> is an \<open>errors.New\<close> value (or any foreign error with text \<open>m\<close>), \<open>NoRows\<close> is
  \<open>pgx.ErrNoRows\<close>, \<open>Api\<close> an \<open>*APIError\<close>, and \<open>Wrap a e b\<close> is \<open>fmt.Errorf\<close> with one \<open>%w\<close>:
  the text \<open>a\<close>, the wrapped error, the text \<open>b\<close>.
\<close>

datatype go_error =
    Leaf string
  | NoRows
  | Api api_error
  | Wrap string go_error string

fun error_text :: "go_error \<Rightarrow> string" where
  "error_text (Leaf m) = m"
| "error_text NoRows = ''no rows in result set''"
| "error_text (Api a) = ae_msg a"
| "error_text (Wrap a e b) = a @ error_text e @ b"

definition wrapf :: "string \<Rightarrow> go_error \<Rightarrow> go_error" where
  "wrapf pre e = Wrap (pre @ '': '') e []"

text \<open>\<open>errors.As(err, *APIError)\<close> and \<open>errors.Is(err, target)\<close> walk the chain.\<close>

fun as_api :: "go_error \<Rightarrow> api_error option" where
  "as_api (Api a) = Some a"
| "as_api (Wrap _ e _) = as_api e"
| "as_api (Leaf _) = None"
| "as_api NoRows = None"

fun error_is :: "go_error \<Rightarrow> go_error \<Rightarrow> bool" where
  "error_is (Wrap a e b) t = (Wrap a e b = t \<or> error_is e t)"
| "error_is e t = (e = t)"

definition newAPIError :: "string \<Rightarrow> int \<Rightarrow> string \<Rightarrow> api_error" where
  "newAPIError code status msg = \<lparr>ae_code = code, ae_http_status = status, ae_msg = msg\<rparr>"

definition ErrInvalidRequest :: api_error where
  "ErrInvalidRequest = newAPIError ''invalid_request'' 400 ''Request tidak valid.''"
definition ErrUnsupportedContentType :: api_error where
  "ErrUnsupportedContentType =
     newAPIError ''unsupported_content_type'' 400 ''Tipe konten tidak diizinkan.''"
definition ErrInvalidFileKey :: api_error where
  "ErrInvalidFileKey = newAPIError ''invalid_file_key'' 400 ''File key tidak sesuai.''"
definition ErrExpiredUploadIntent :: api_error where
  "ErrExpiredUploadIntent =
     newAPIError ''expired_upload_intent'' 400 ''Upload intent sudah kedaluwarsa.''"
definition ErrUploadIntentConsumed :: api_error where
  "ErrUploadIntentConsumed =
     newAPIError ''upload_intent_consumed'' 400 ''Upload intent sudah dipakai.''"
definition ErrJobNotFailed :: api_error where
  "ErrJobNotFailed =
     newAPIError ''job_not_failed'' 400 ''Retry hanya bisa dilakukan untuk job yang gagal.''"
definition ErrQuestionRequired :: api_error where
  "ErrQuestionRequired = newAPIError ''question_required'' 400 ''Field question wajib diisi.''"
definition ErrNotFound :: api_error where
  "ErrNotFound = newAPIError ''not_found'' 404 ''Resource tidak ditemukan.''"
definition ErrUnauthorized :: api_error where
  "ErrUnauthorized = newAPIError ''unauthorized'' 401 ''API key tidak valid.''"
definition ErrForbidden :: api_error where
  "ErrForbidden =
     newAPIError ''forbidden'' 403 ''API key tidak memiliki akses ke resource ini.''"
definition ErrRateLimited :: api_error where
  "ErrRateLimited =
     newAPIError ''rate_limited'' 429 ''Terlalu banyak permintaan. Coba lagi nanti.''"
definition ErrInternal :: api_error where
  "ErrInternal = newAPIError ''internal_error'' 500 ''Terjadi kesalahan internal.''"

definition sentinels :: "api_error list" where
  "sentinels =
     [ErrInvalidRequest, ErrUnsupportedContentType, ErrInvalidFileKey, ErrExpiredUploadIntent,
      ErrUploadIntentConsumed, ErrJobNotFailed, ErrQuestionRequired, ErrNotFound,
      ErrUnauthorized, ErrForbidden, ErrRateLimited, ErrInternal]"

lemmas sentinel_defs = ErrInvalidRequest_def ErrUnsupportedContentType_def ErrInvalidFileKey_def
  ErrExpiredUploadIntent_def ErrUploadIntentConsumed_def ErrJobNotFailed_def
  ErrQuestionRequired_def ErrNotFound_def ErrUnauthorized_def ErrForbidden_def
  ErrRateLimited_def ErrInternal_def newAPIError_def

text \<open>\<open>nil\<close> is \<open>None\<close>: \<open>errors.As(nil, ..)\<close> finds nothing, so it maps to the internal error.\<close>

definition api_code :: "go_error option \<Rightarrow> string" where
  "api_code err = (case err of None \<Rightarrow> ae_code ErrInternal
     | Some e \<Rightarrow> (case as_api e of Some a \<Rightarrow> ae_code a | None \<Rightarrow> ae_code ErrInternal))"

definition api_http_status :: "go_error option \<Rightarrow> int" where
  "api_http_status err = (case err of None \<Rightarrow> ae_http_status ErrInternal
     | Some e \<Rightarrow> (case as_api e of Some a \<Rightarrow> ae_http_status a | None \<Rightarrow> ae_http_status ErrInternal))"

definition api_message :: "go_error option \<Rightarrow> string" where
  "api_message err = (case err of None \<Rightarrow> ae_msg ErrInternal
     | Some e \<Rightarrow> (case as_api e of Some a \<Rightarrow> ae_msg a | None \<Rightarrow> ae_msg ErrInternal))"

section \<open>What reaches a client\<close>

text \<open>
  Errors the program builds carry sentinels only: \<open>from_sentinels e\<close> says that every API error
  in the chain is one of the twelve.
\<close>

fun from_sentinels :: "go_error \<Rightarrow> bool" where
  "from_sentinels (Api a) = (a \<in> set sentinels)"
| "from_sentinels (Wrap _ e _) = from_sentinels e"
| "from_sentinels _ = True"

lemma from_sentinels_wrapf [simp]: "from_sentinels (wrapf p e) = from_sentinels e"
  by (simp add: wrapf_def)

lemma as_api_wrapf [simp]: "as_api (wrapf p e) = as_api e"
  by (simp add: wrapf_def)

lemma as_api_sentinel: "from_sentinels e \<Longrightarrow> as_api e = Some a \<Longrightarrow> a \<in> set sentinels"
  by (induction e) auto

lemma error_is_api: "error_is e (Api a) \<Longrightarrow> as_api e = Some a"
  by (induction e) auto

lemma ErrInternal_in: "ErrInternal \<in> set sentinels"
  by (simp add: sentinels_def)

lemma client_view_sentinel:
  assumes "\<And>e. err = Some e \<Longrightarrow> from_sentinels e"
  obtains a where "a \<in> set sentinels" "api_code err = ae_code a"
    "api_http_status err = ae_http_status a" "api_message err = ae_msg a"
proof -
  define a where "a = (case err of None \<Rightarrow> ErrInternal
    | Some e \<Rightarrow> (case as_api e of Some a \<Rightarrow> a | None \<Rightarrow> ErrInternal))"
  have "a \<in> set sentinels"
    using assms ErrInternal_in
    by (auto simp: a_def as_api_sentinel split: option.splits)
  moreover have "api_code err = ae_code a" "api_http_status err = ae_http_status a"
    "api_message err = ae_msg a"
    by (auto simp: a_def api_code_def api_http_status_def api_message_def split: option.splits)
  ultimately show thesis by (rule that)
qed

lemma sentinels_distinct_codes: "distinct (map ae_code sentinels)"
  by (simp add: sentinels_def sentinel_defs)

lemma sentinel_status: "a \<in> set sentinels \<Longrightarrow> 400 \<le> ae_http_status a \<and> ae_http_status a < 600"
  by (auto simp: sentinels_def sentinel_defs)

end
