(* ===== verification/Database.thy ===== *)
theory Database
  imports ApiErrors
begin

text \<open>
  The data: the tables of \<open>migrations/001_init.sql\<close>, with the domain types of \<open>internal/core/model\<close>
  as rows (the pgtype columns of the row structs are in \<open>Rows\<close>), and every SQL statement of
  \<open>internal/database/queries/*.sql.go\<close> as a function of the database. A statement checks the
  column types and the UNIQUE, CHECK and REFERENCES constraints of the tables it writes, and an
  error leaves the database as it was. Row level security is enabled but not forced in the
  migration and the pool's role owns the tables (the worker's cross-tenant claims rely on that),
  so the tenant conditions here are those the statements spell out.

  What Postgres and its extensions decide is the parameter \<open>pg\<close>.
\<close>

section \<open>Tables\<close>

text \<open>An embedding: the \<open>float32\<close> components as their bit patterns.\<close>

type_synonym vec = "32 word list"

record api_key =
  k_id :: string
  k_tenant :: string
  k_name :: string
  k_hash :: string
  k_scope :: string
  k_revoked :: "time option"
  k_last_used :: "time option"
  k_created :: time
  k_updated :: time

record upload_intent =
  i_id :: string
  i_tenant :: string
  i_file_key :: string
  i_content_type :: string
  i_status :: string
  i_expires :: time
  i_consumed :: "time option"
  i_created :: time

record job =
  j_id :: string
  j_tenant :: string
  j_intent :: "string option"
  j_file_key :: string
  j_title :: string
  j_kind :: string
  j_status :: string
  j_stage :: string
  j_error :: "string option"
  j_retry :: int
  j_started :: "time option"
  j_finished :: "time option"
  j_created :: time
  j_updated :: time

record segment =
  s_id :: string
  s_tenant :: string
  s_name :: string
  s_created :: time

text \<open>A row of \<open>job_segments\<close> or \<open>video_segments\<close>.\<close>

record link =
  l_owner :: string
  l_segment :: string
  l_tenant :: string

record video =
  v_id :: string
  v_tenant :: string
  v_job :: string
  v_title :: string
  v_kind :: string
  v_file_key :: string
  v_status :: string
  v_duration :: "int option"
  v_deleted :: "time option"
  v_created :: time
  v_updated :: time

record transcript =
  t_id :: string
  t_tenant :: string
  t_video :: string
  t_content :: string
  t_language :: "string option"
  t_model :: "string option"
  t_created :: time

record chunk =
  c_id :: string
  c_tenant :: string
  c_video :: string
  c_index :: int
  c_content :: string
  c_embedding :: vec
  c_created :: time

record summary =
  m_id :: string
  m_tenant :: string
  m_video :: string
  m_status :: string
  m_content :: "string option"
  m_language :: "string option"
  m_model :: "string option"
  m_error :: "string option"
  m_created :: time
  m_updated :: time

record audit_log =
  a_id :: string
  a_tenant :: string
  a_actor :: "string option"
  a_action :: string
  a_object :: "string option"
  a_metadata :: string
  a_created :: time

record db =
  d_tenants :: "string list"
  d_keys :: "api_key list"
  d_intents :: "upload_intent list"
  d_jobs :: "job list"
  d_segments :: "segment list"
  d_job_segments :: "link list"
  d_videos :: "video list"
  d_video_segments :: "link list"
  d_transcripts :: "transcript list"
  d_chunks :: "chunk list"
  d_summaries :: "summary list"
  d_audit :: "audit_log list"

definition job_kinds :: "string list" where
  "job_kinds = [''video'', ''audio'', ''pdf'']"
definition job_statuses :: "string list" where
  "job_statuses = [''pending'', ''processing'', ''completed'', ''failed'']"
definition video_statuses :: "string list" where
  "video_statuses = [''processing'', ''completed'', ''failed'']"
definition summary_statuses :: "string list" where
  "summary_statuses = [''pending'', ''completed'', ''failed'']"
definition intent_statuses :: "string list" where
  "intent_statuses = [''issued'', ''consumed'']"

section \<open>Postgres\<close>

datatype sql_error =
    BadUUID string
  | UniqueViolation string
  | ForeignKeyViolation string
  | CheckViolation string
  | OutOfRange string
  | BadVector

text \<open>
  \<open>pg_uuid s\<close> is the canonical text of the uuid that \<open>s\<close> denotes, \<open>None\<close> for a syntax error;
  \<open>pg_lower\<close> is SQL's \<open>lower\<close>; \<open>pg_names\<close> is \<open>ORDER BY name\<close> under the database's collation;
  \<open>pg_nearest e cs\<close> is \<open>ORDER BY embedding <=> e\<close>, possibly through the approximate HNSW index;
  \<open>pg_error\<close> is the text of the server's error.
\<close>

record pg =
  pg_uuid :: "string \<Rightarrow> string option"
  pg_lower :: "string \<Rightarrow> string"
  pg_names :: "string list \<Rightarrow> string list"
  pg_nearest :: "vec \<Rightarrow> (chunk \<times> video) list \<Rightarrow> (chunk \<times> video) list"
  pg_error :: "sql_error \<Rightarrow> string"

type_synonym 'a sql = "(go_error, db, 'a) io"

definition violation :: "pg \<Rightarrow> sql_error \<Rightarrow> 'a sql" where
  "violation P e = fail (Leaf (pg_error P e))"

definition uuid_arg :: "pg \<Rightarrow> string \<Rightarrow> (string \<Rightarrow> 'a sql) \<Rightarrow> 'a sql" where
  "uuid_arg P s f = (case pg_uuid P s of None \<Rightarrow> violation P (BadUUID s) | Some u \<Rightarrow> f u)"

text \<open>\<open>guarded P cs m\<close>: the first failed condition of \<open>cs\<close> is raised, otherwise \<open>m\<close> runs.\<close>

fun guarded :: "pg \<Rightarrow> (bool \<times> sql_error) list \<Rightarrow> 'a sql \<Rightarrow> 'a sql" where
  "guarded P [] m = m"
| "guarded P (c # cs) m = (if fst c then guarded P cs m else violation P (snd c))"

definition one_row :: "'a list \<Rightarrow> 'a sql" where
  "one_row rs = (case rs of [] \<Rightarrow> fail NoRows | r # _ \<Rightarrow> ret r)"

definition update_rows :: "('r \<Rightarrow> bool) \<Rightarrow> ('r \<Rightarrow> 'r) \<Rightarrow> 'r list \<Rightarrow> 'r list" where
  "update_rows hit f rs = map (\<lambda>r. if hit r then f r else r) rs"

text \<open>\<open>LIMIT n OFFSET k\<close> on a result; negative values are errors.\<close>

definition limit_offset :: "pg \<Rightarrow> int \<Rightarrow> int \<Rightarrow> 'a list \<Rightarrow> 'a list sql" where
  "limit_offset P n k rs =
     guarded P [(0 \<le> n, OutOfRange ''LIMIT''), (0 \<le> k, OutOfRange ''OFFSET'')]
       (ret (take (nat n) (drop (nat k) rs)))"

section \<open>Keys and audit\<close>

definition GetAPIKeyByHash :: "string \<Rightarrow> api_key sql" where
  "GetAPIKeyByHash hash d =
     one_row (filter (\<lambda>k. k_hash k = hash \<and> k_revoked k = None) (d_keys d)) d"

definition TouchAPIKeyLastUsed :: "pg \<Rightarrow> time \<Rightarrow> string \<Rightarrow> unit sql" where
  "TouchAPIKeyLastUsed P now id0 = uuid_arg P id0 (\<lambda>id1 d.
     (Inr (), d\<lparr>d_keys := update_rows (\<lambda>k. k_id k = id1)
        (\<lambda>k. k\<lparr>k_last_used := Some now, k_updated := now\<rparr>) (d_keys d)\<rparr>))"

definition InsertAuditLog :: "pg \<Rightarrow> audit_log \<Rightarrow> audit_log sql" where
  "InsertAuditLog P a = uuid_arg P (a_id a) (\<lambda>id1. uuid_arg P (a_tenant a) (\<lambda>t d.
     guarded P
       [(id1 \<notin> a_id ` set (d_audit d), UniqueViolation ''audit_logs_pkey''),
        (t \<in> set (d_tenants d), ForeignKeyViolation ''audit_logs_tenant_id_fkey''),
        (case a_actor a of None \<Rightarrow> True | Some k \<Rightarrow> k \<in> k_id ` set (d_keys d),
         ForeignKeyViolation ''audit_logs_actor_key_id_fkey'')]
       (\<lambda>d. let r = a\<lparr>a_id := id1, a_tenant := t\<rparr> in (Inr r, d\<lparr>d_audit := d_audit d @ [r]\<rparr>)) d))"

section \<open>Upload intents\<close>

definition CreateUploadIntent :: "pg \<Rightarrow> upload_intent \<Rightarrow> upload_intent sql" where
  "CreateUploadIntent P a = uuid_arg P (i_id a) (\<lambda>id1. uuid_arg P (i_tenant a) (\<lambda>t d.
     guarded P
       [(i_status a \<in> set intent_statuses, CheckViolation ''upload_intents_status_check''),
        (id1 \<notin> i_id ` set (d_intents d), UniqueViolation ''upload_intents_pkey''),
        (i_file_key a \<notin> i_file_key ` set (d_intents d), UniqueViolation ''upload_intents_file_key_key''),
        (t \<in> set (d_tenants d), ForeignKeyViolation ''upload_intents_tenant_id_fkey'')]
       (\<lambda>d. let r = a\<lparr>i_id := id1, i_tenant := t\<rparr> in (Inr r, d\<lparr>d_intents := d_intents d @ [r]\<rparr>)) d))"

definition GetUploadIntentByFileKeyForUpdate :: "pg \<Rightarrow> string \<Rightarrow> string \<Rightarrow> upload_intent sql" where
  "GetUploadIntentByFileKeyForUpdate P key t0 = uuid_arg P t0 (\<lambda>t d.
     one_row (filter (\<lambda>i. i_file_key i = key \<and> i_tenant i = t) (d_intents d)) d)"

definition MarkUploadIntentConsumed :: "pg \<Rightarrow> time \<Rightarrow> string \<Rightarrow> string \<Rightarrow> upload_intent sql" where
  "MarkUploadIntentConsumed P now key t0 = uuid_arg P t0 (\<lambda>t d.
     (let hit = (\<lambda>i. i_file_key i = key \<and> i_tenant i = t \<and> i_status i = ''issued'');
          f = (\<lambda>i. i\<lparr>i_status := ''consumed'', i_consumed := Some now\<rparr>)
      in one_row (map f (filter hit (d_intents d)))
           (d\<lparr>d_intents := update_rows hit f (d_intents d)\<rparr>)))"

section \<open>Jobs\<close>

definition CreateJob_q :: "pg \<Rightarrow> job \<Rightarrow> job sql" where
  "CreateJob_q P a = uuid_arg P (j_id a) (\<lambda>id1. uuid_arg P (j_tenant a) (\<lambda>t d.
     guarded P
       [(j_kind a \<in> set job_kinds, CheckViolation ''jobs_kind_check''),
        (j_status a \<in> set job_statuses, CheckViolation ''jobs_status_check''),
        (id1 \<notin> j_id ` set (d_jobs d), UniqueViolation ''jobs_pkey''),
        (j_intent a = None \<or> j_intent a \<notin> j_intent ` set (d_jobs d),
         UniqueViolation ''jobs_upload_intent_id_key''),
        (j_file_key a \<notin> j_file_key ` set (d_jobs d), UniqueViolation ''jobs_file_key_key''),
        (t \<in> set (d_tenants d), ForeignKeyViolation ''jobs_tenant_id_fkey''),
        (case j_intent a of None \<Rightarrow> True | Some i \<Rightarrow> i \<in> i_id ` set (d_intents d),
         ForeignKeyViolation ''jobs_upload_intent_id_fkey'')]
       (\<lambda>d. let r = a\<lparr>j_id := id1, j_tenant := t\<rparr> in (Inr r, d\<lparr>d_jobs := d_jobs d @ [r]\<rparr>)) d))"

definition jobs_of :: "string \<Rightarrow> string option \<Rightarrow> db \<Rightarrow> job list" where
  "jobs_of t status d =
     filter (\<lambda>j. j_tenant j = t \<and> (status = None \<or> Some (j_status j) = status)) (d_jobs d)"

definition ListJobs_q :: "pg \<Rightarrow> string \<Rightarrow> string option \<Rightarrow> int \<Rightarrow> int \<Rightarrow> job list sql" where
  "ListJobs_q P t0 status k n = uuid_arg P t0 (\<lambda>t d.
     limit_offset P n k (sort_key (\<lambda>j. - j_created j) (jobs_of t status d)) d)"

definition CountJobs_q :: "pg \<Rightarrow> string \<Rightarrow> string option \<Rightarrow> int sql" where
  "CountJobs_q P t0 status = uuid_arg P t0 (\<lambda>t d. (Inr (int (length (jobs_of t status d))), d))"

definition GetJobByID_q :: "pg \<Rightarrow> string \<Rightarrow> string \<Rightarrow> job sql" where
  "GetJobByID_q P id0 t0 = uuid_arg P id0 (\<lambda>id1. uuid_arg P t0 (\<lambda>t d.
     one_row (filter (\<lambda>j. j_id j = id1 \<and> j_tenant j = t) (d_jobs d)) d))"

definition GetJobByIDAllTenants_q :: "pg \<Rightarrow> string \<Rightarrow> job sql" where
  "GetJobByIDAllTenants_q P id0 = uuid_arg P id0 (\<lambda>id1 d.
     one_row (filter (\<lambda>j. j_id j = id1) (d_jobs d)) d)"

text \<open>The \<open>SET\<close> clause, with the trigger \<open>set_updated_at\<close>.\<close>

definition status_update :: "time \<Rightarrow> string \<Rightarrow> string \<Rightarrow> string option \<Rightarrow> job \<Rightarrow> job" where
  "status_update now status stage msg j =
     j\<lparr>j_status := status, j_stage := stage, j_error := msg,
       j_started := (case j_started j of Some s \<Rightarrow> Some s
                     | None \<Rightarrow> if status = ''processing'' then Some now else None),
       j_finished := (if status = ''completed'' \<or> status = ''failed'' then Some now else j_finished j),
       j_updated := now\<rparr>"

definition UpdateJobStatus_q :: "pg \<Rightarrow> time \<Rightarrow> string \<Rightarrow> string \<Rightarrow> string \<Rightarrow> string \<Rightarrow> string option
    \<Rightarrow> job sql" where
  "UpdateJobStatus_q P now id0 t0 status stage msg = uuid_arg P id0 (\<lambda>id1. uuid_arg P t0 (\<lambda>t d.
     (let hit = (\<lambda>j. j_id j = id1 \<and> j_tenant j = t); f = status_update now status stage msg
      in guarded P
           [(filter hit (d_jobs d) = [] \<or> status \<in> set job_statuses, CheckViolation ''jobs_status_check'')]
           (\<lambda>d. one_row (map f (filter hit (d_jobs d))) (d\<lparr>d_jobs := update_rows hit f (d_jobs d)\<rparr>)) d)))"

definition retry_update :: "time \<Rightarrow> job \<Rightarrow> job" where
  "retry_update now j =
     j\<lparr>j_status := ''pending'', j_stage := ''queued'', j_error := None, j_retry := j_retry j + 1,
       j_started := None, j_finished := None, j_updated := now\<rparr>"

definition RetryJob_q :: "pg \<Rightarrow> time \<Rightarrow> string \<Rightarrow> string \<Rightarrow> job sql" where
  "RetryJob_q P now id0 t0 = uuid_arg P id0 (\<lambda>id1. uuid_arg P t0 (\<lambda>t d.
     (let hit = (\<lambda>j. j_id j = id1 \<and> j_tenant j = t \<and> j_status j = ''failed''); f = retry_update now
      in guarded P
           [(\<forall>j \<in> set (filter hit (d_jobs d)). j_retry j < 2 ^ 31 - 1, OutOfRange ''retry_count'')]
           (\<lambda>d. one_row (map f (filter hit (d_jobs d))) (d\<lparr>d_jobs := update_rows hit f (d_jobs d)\<rparr>)) d)))"

text \<open>\<open>locked\<close>: the rows that other transactions hold, which \<open>SKIP LOCKED\<close> passes over.\<close>

definition claim_update :: "time \<Rightarrow> job \<Rightarrow> job" where
  "claim_update now j =
     j\<lparr>j_status := ''processing'', j_stage := ''downloading'',
       j_started := (case j_started j of Some s \<Rightarrow> Some s | None \<Rightarrow> Some now), j_updated := now\<rparr>"

definition ClaimNextPendingJob_q :: "time \<Rightarrow> (job \<Rightarrow> bool) \<Rightarrow> job sql" where
  "ClaimNextPendingJob_q now locked d =
     (case sort_key j_created (filter (\<lambda>j. j_status j = ''pending'' \<and> \<not> locked j) (d_jobs d)) of
        [] \<Rightarrow> (Inl NoRows, d)
      | n # _ \<Rightarrow>
         (let hit = (\<lambda>j. j_id j = j_id n); f = claim_update now
          in one_row (map f (filter hit (d_jobs d))) (d\<lparr>d_jobs := update_rows hit f (d_jobs d)\<rparr>)))"

definition ListJobsForRetention_q :: "time \<Rightarrow> job list sql" where
  "ListJobsForRetention_q older d =
     (Inr (sort_key (\<lambda>j. the (j_finished j))
       (filter (\<lambda>j. (j_status j = ''completed'' \<or> j_status j = ''failed'') \<and>
          (case j_finished j of None \<Rightarrow> False | Some f \<Rightarrow> f \<le> older)) (d_jobs d))), d)"

section \<open>Segments\<close>

definition same_name :: "pg \<Rightarrow> string \<Rightarrow> string \<Rightarrow> segment \<Rightarrow> bool" where
  "same_name P t name s \<longleftrightarrow> s_tenant s = t \<and> pg_lower P (s_name s) = pg_lower P name"

definition GetSegmentByName :: "pg \<Rightarrow> string \<Rightarrow> string \<Rightarrow> segment sql" where
  "GetSegmentByName P t0 name = uuid_arg P t0 (\<lambda>t d. one_row (filter (same_name P t name) (d_segments d)) d)"

definition CreateSegment :: "pg \<Rightarrow> segment \<Rightarrow> segment sql" where
  "CreateSegment P a = uuid_arg P (s_id a) (\<lambda>id1. uuid_arg P (s_tenant a) (\<lambda>t d.
     guarded P
       [(id1 \<notin> s_id ` set (d_segments d), UniqueViolation ''segments_pkey''),
        (filter (same_name P t (s_name a)) (d_segments d) = [],
         UniqueViolation ''segments_tenant_lower_name_idx''),
        (t \<in> set (d_tenants d), ForeignKeyViolation ''segments_tenant_id_fkey'')]
       (\<lambda>d. let r = a\<lparr>s_id := id1, s_tenant := t\<rparr> in (Inr r, d\<lparr>d_segments := d_segments d @ [r]\<rparr>)) d))"

text \<open>The \<open>SELECT\<close> after the \<open>WITH\<close> sees the snapshot before the insertion, and the row \<open>ins\<close>.\<close>

definition EnsureSegmentByName :: "pg \<Rightarrow> segment \<Rightarrow> segment sql" where
  "EnsureSegmentByName P a = uuid_arg P (s_id a) (\<lambda>id1. uuid_arg P (s_tenant a) (\<lambda>t d.
     (let r = a\<lparr>s_id := id1, s_tenant := t\<rparr>;
          old = filter (same_name P t (s_name a)) (d_segments d);
          conflict = (id1 \<in> s_id ` set (d_segments d) \<or> old \<noteq> [])
      in guarded P
           [(conflict \<or> t \<in> set (d_tenants d), ForeignKeyViolation ''segments_tenant_id_fkey'')]
           (\<lambda>d. if conflict then one_row old d
                else (Inr r, d\<lparr>d_segments := d_segments d @ [r]\<rparr>)) d)))"

text \<open>\<open>ON CONFLICT DO NOTHING\<close> on the key \<open>(owner, segment)\<close>.\<close>

definition attach :: "pg \<Rightarrow> (db \<Rightarrow> link list) \<Rightarrow> ((link list \<Rightarrow> link list) \<Rightarrow> db \<Rightarrow> db) \<Rightarrow> (db \<Rightarrow> string set)
    \<Rightarrow> string \<Rightarrow> string \<Rightarrow> string \<Rightarrow> string \<Rightarrow> unit sql" where
  "attach P tab upd owners fk o0 s0 t0 =
     uuid_arg P o0 (\<lambda>ow. uuid_arg P s0 (\<lambda>sg. uuid_arg P t0 (\<lambda>t d.
       (let conflict = (\<exists>l \<in> set (tab d). l_owner l = ow \<and> l_segment l = sg)
        in guarded P
             [(conflict \<or> ow \<in> owners d, ForeignKeyViolation fk),
              (conflict \<or> sg \<in> s_id ` set (d_segments d), ForeignKeyViolation fk),
              (conflict \<or> t \<in> set (d_tenants d), ForeignKeyViolation fk)]
             (\<lambda>d. (Inr (), if conflict then d
                   else upd (\<lambda>ls. ls @ [\<lparr>l_owner = ow, l_segment = sg, l_tenant = t\<rparr>]) d)) d))))"

definition AttachJobSegment :: "pg \<Rightarrow> string \<Rightarrow> string \<Rightarrow> string \<Rightarrow> unit sql" where
  "AttachJobSegment P job seg t =
     attach P d_job_segments d_job_segments_update (\<lambda>d. j_id ` set (d_jobs d)) ''job_segments'' job seg t"

definition AttachVideoSegment :: "pg \<Rightarrow> string \<Rightarrow> string \<Rightarrow> string \<Rightarrow> unit sql" where
  "AttachVideoSegment P vid seg t =
     attach P d_video_segments d_video_segments_update (\<lambda>d. v_id ` set (d_videos d)) ''video_segments'' vid seg t"

definition linked_names :: "db \<Rightarrow> link list \<Rightarrow> string list" where
  "linked_names d ls = concat (map (\<lambda>s. map (\<lambda>l. s_name s) (filter (\<lambda>l. l_segment l = s_id s) ls)) (d_segments d))"

definition ListSegmentNamesByJobID :: "pg \<Rightarrow> string \<Rightarrow> string \<Rightarrow> string list sql" where
  "ListSegmentNamesByJobID P job0 t0 = uuid_arg P job0 (\<lambda>job. uuid_arg P t0 (\<lambda>t d.
     (Inr (pg_names P (linked_names d
        (filter (\<lambda>l. l_owner l = job \<and> l_tenant l = t) (d_job_segments d)))), d)))"

definition ListSegmentNamesByVideoID :: "pg \<Rightarrow> string \<Rightarrow> string \<Rightarrow> string list sql" where
  "ListSegmentNamesByVideoID P vid0 t0 = uuid_arg P vid0 (\<lambda>vid. uuid_arg P t0 (\<lambda>t d.
     (Inr (pg_names P (linked_names d
        (filter (\<lambda>l. l_owner l = vid \<and> l_tenant l = t) (d_video_segments d)))), d)))"

section \<open>Videos\<close>

definition CreateVideo_q :: "pg \<Rightarrow> video \<Rightarrow> video sql" where
  "CreateVideo_q P a = uuid_arg P (v_id a) (\<lambda>id1. uuid_arg P (v_tenant a) (\<lambda>t. uuid_arg P (v_job a) (\<lambda>job d.
     guarded P
       [(v_kind a \<in> set job_kinds, CheckViolation ''videos_kind_check''),
        (v_status a \<in> set video_statuses, CheckViolation ''videos_status_check''),
        (case v_duration a of None \<Rightarrow> True | Some n \<Rightarrow> 0 < n, CheckViolation ''videos_duration_seconds_check''),
        (id1 \<notin> v_id ` set (d_videos d), UniqueViolation ''videos_pkey''),
        (job \<notin> v_job ` set (d_videos d), UniqueViolation ''videos_job_id_key''),
        (v_file_key a \<notin> v_file_key ` set (d_videos d), UniqueViolation ''videos_file_key_key''),
        (t \<in> set (d_tenants d), ForeignKeyViolation ''videos_tenant_id_fkey''),
        (job \<in> j_id ` set (d_jobs d), ForeignKeyViolation ''videos_job_id_fkey'')]
       (\<lambda>d. let r = a\<lparr>v_id := id1, v_tenant := t, v_job := job\<rparr>
            in (Inr r, d\<lparr>d_videos := d_videos d @ [r]\<rparr>)) d)))"

definition GetVideoByID_q :: "pg \<Rightarrow> string \<Rightarrow> string \<Rightarrow> video sql" where
  "GetVideoByID_q P id0 t0 = uuid_arg P id0 (\<lambda>id1. uuid_arg P t0 (\<lambda>t d.
     one_row (filter (\<lambda>v. v_id v = id1 \<and> v_tenant v = t \<and> v_deleted v = None) (d_videos d)) d))"

text \<open>The segment condition that \<open>ListVideos\<close>, \<open>CountVideos\<close> and \<open>SearchChunks\<close> share.\<close>

definition in_segment :: "pg \<Rightarrow> string \<Rightarrow> string option \<Rightarrow> db \<Rightarrow> video \<Rightarrow> bool" where
  "in_segment P t name d v =
     (case name of None \<Rightarrow> True
      | Some n \<Rightarrow> (\<exists>l \<in> set (d_video_segments d). \<exists>s \<in> set (d_segments d).
          s_id s = l_segment l \<and> l_owner l = v_id v \<and> same_name P t n s))"

definition videos_of :: "pg \<Rightarrow> string \<Rightarrow> string option \<Rightarrow> string option \<Rightarrow> db \<Rightarrow> video list" where
  "videos_of P t status name d =
     filter (\<lambda>v. v_tenant v = t \<and> v_deleted v = None \<and>
       (status = None \<or> Some (v_status v) = status) \<and> in_segment P t name d v) (d_videos d)"

definition ListVideos_q :: "pg \<Rightarrow> string \<Rightarrow> string option \<Rightarrow> string option \<Rightarrow> int \<Rightarrow> int \<Rightarrow> video list sql" where
  "ListVideos_q P t0 status name k n = uuid_arg P t0 (\<lambda>t d.
     limit_offset P n k (sort_key (\<lambda>v. - v_created v) (videos_of P t status name d)) d)"

definition CountVideos_q :: "pg \<Rightarrow> string \<Rightarrow> string option \<Rightarrow> string option \<Rightarrow> int sql" where
  "CountVideos_q P t0 status name = uuid_arg P t0 (\<lambda>t d. (Inr (int (length (videos_of P t status name d))), d))"

definition SoftDeleteVideo_q :: "pg \<Rightarrow> time \<Rightarrow> string \<Rightarrow> string \<Rightarrow> video sql" where
  "SoftDeleteVideo_q P now id0 t0 = uuid_arg P id0 (\<lambda>id1. uuid_arg P t0 (\<lambda>t d.
     (let hit = (\<lambda>v. v_id v = id1 \<and> v_tenant v = t \<and> v_deleted v = None);
          f = (\<lambda>v. v\<lparr>v_deleted := Some now, v_updated := now\<rparr>)
      in one_row (map f (filter hit (d_videos d))) (d\<lparr>d_videos := update_rows hit f (d_videos d)\<rparr>))))"

text \<open>Deleting a video deletes its rows in the tables that reference it with \<open>ON DELETE CASCADE\<close>.\<close>

definition DeleteVideoByJobID_q :: "pg \<Rightarrow> string \<Rightarrow> string \<Rightarrow> unit sql" where
  "DeleteVideoByJobID_q P job0 t0 = uuid_arg P job0 (\<lambda>job. uuid_arg P t0 (\<lambda>t d.
     (let hit = (\<lambda>v. v_job v = job \<and> v_tenant v = t); gone = v_id ` set (filter hit (d_videos d))
      in (Inr (), d\<lparr>d_videos := filter (\<lambda>v. \<not> hit v) (d_videos d),
            d_video_segments := filter (\<lambda>l. l_owner l \<notin> gone) (d_video_segments d),
            d_transcripts := filter (\<lambda>r. t_video r \<notin> gone) (d_transcripts d),
            d_chunks := filter (\<lambda>c. c_video c \<notin> gone) (d_chunks d),
            d_summaries := filter (\<lambda>m. m_video m \<notin> gone) (d_summaries d)\<rparr>))))"

definition FailVideoByJobID_q :: "pg \<Rightarrow> time \<Rightarrow> string \<Rightarrow> string \<Rightarrow> unit sql" where
  "FailVideoByJobID_q P now job0 t0 = uuid_arg P job0 (\<lambda>job. uuid_arg P t0 (\<lambda>t d.
     (Inr (), d\<lparr>d_videos := update_rows (\<lambda>v. v_job v = job \<and> v_tenant v = t)
        (\<lambda>v. v\<lparr>v_status := ''failed'', v_updated := now\<rparr>) (d_videos d)\<rparr>)))"

definition UpdateVideoStatus_q :: "pg \<Rightarrow> time \<Rightarrow> string \<Rightarrow> string \<Rightarrow> string \<Rightarrow> video sql" where
  "UpdateVideoStatus_q P now id0 t0 status = uuid_arg P id0 (\<lambda>id1. uuid_arg P t0 (\<lambda>t d.
     (let hit = (\<lambda>v. v_id v = id1 \<and> v_tenant v = t);
          f = (\<lambda>v. v\<lparr>v_status := status, v_updated := now\<rparr>)
      in guarded P
           [(filter hit (d_videos d) = [] \<or> status \<in> set video_statuses, CheckViolation ''videos_status_check'')]
           (\<lambda>d. one_row (map f (filter hit (d_videos d)))
                  (d\<lparr>d_videos := update_rows hit f (d_videos d)\<rparr>)) d)))"

section \<open>Transcripts, chunks, summaries\<close>

text \<open>
  \<open>INSERT .. ON CONFLICT (video_id) DO UPDATE\<close>: the proposed row is built first, so its
  columns must be valid also when the existing row is the one that is updated.
\<close>

definition UpsertTranscript :: "pg \<Rightarrow> transcript \<Rightarrow> transcript sql" where
  "UpsertTranscript P a = uuid_arg P (t_id a) (\<lambda>id1. uuid_arg P (t_tenant a) (\<lambda>t. uuid_arg P (t_video a) (\<lambda>vid d.
     (let hit = (\<lambda>r. t_video r = vid);
          f = (\<lambda>r. r\<lparr>t_content := t_content a, t_language := t_language a, t_model := t_model a\<rparr>);
          r = a\<lparr>t_id := id1, t_tenant := t, t_video := vid\<rparr>
      in if filter hit (d_transcripts d) \<noteq> []
         then one_row (map f (filter hit (d_transcripts d)))
                (d\<lparr>d_transcripts := update_rows hit f (d_transcripts d)\<rparr>)
         else guarded P
           [(id1 \<notin> t_id ` set (d_transcripts d), UniqueViolation ''transcripts_pkey''),
            (t \<in> set (d_tenants d), ForeignKeyViolation ''transcripts_tenant_id_fkey''),
            (vid \<in> v_id ` set (d_videos d), ForeignKeyViolation ''transcripts_video_id_fkey'')]
           (\<lambda>d. (Inr r, d\<lparr>d_transcripts := d_transcripts d @ [r]\<rparr>)) d))))"

definition UpsertSummary :: "pg \<Rightarrow> time \<Rightarrow> summary \<Rightarrow> summary sql" where
  "UpsertSummary P now a = uuid_arg P (m_id a) (\<lambda>id1. uuid_arg P (m_tenant a) (\<lambda>t. uuid_arg P (m_video a) (\<lambda>vid d.
     (let hit = (\<lambda>r. m_video r = vid);
          f = (\<lambda>r. r\<lparr>m_status := m_status a, m_content := m_content a, m_language := m_language a,
                 m_model := m_model a, m_error := m_error a, m_updated := now\<rparr>);
          r = a\<lparr>m_id := id1, m_tenant := t, m_video := vid\<rparr>
      in guarded P [(m_status a \<in> set summary_statuses, CheckViolation ''summaries_status_check'')]
         (if filter hit (d_summaries d) \<noteq> []
          then (\<lambda>d. one_row (map f (filter hit (d_summaries d)))
                 (d\<lparr>d_summaries := update_rows hit f (d_summaries d)\<rparr>))
          else guarded P
            [(id1 \<notin> m_id ` set (d_summaries d), UniqueViolation ''summaries_pkey''),
             (t \<in> set (d_tenants d), ForeignKeyViolation ''summaries_tenant_id_fkey''),
             (vid \<in> v_id ` set (d_videos d), ForeignKeyViolation ''summaries_video_id_fkey'')]
            (\<lambda>d. (Inr r, d\<lparr>d_summaries := d_summaries d @ [r]\<rparr>))) d))))"

definition GetSummaryByVideoID_q :: "pg \<Rightarrow> string \<Rightarrow> string \<Rightarrow> summary sql" where
  "GetSummaryByVideoID_q P vid0 t0 = uuid_arg P vid0 (\<lambda>vid. uuid_arg P t0 (\<lambda>t d.
     one_row (filter (\<lambda>m. m_video m = vid \<and> m_tenant m = t) (d_summaries d)) d))"

definition DeleteChunksByVideoID_q :: "pg \<Rightarrow> string \<Rightarrow> string \<Rightarrow> unit sql" where
  "DeleteChunksByVideoID_q P vid0 t0 = uuid_arg P vid0 (\<lambda>vid. uuid_arg P t0 (\<lambda>t d.
     (Inr (), d\<lparr>d_chunks := filter (\<lambda>c. \<not> (c_video c = vid \<and> c_tenant c = t)) (d_chunks d)\<rparr>)))"

definition vector_dims :: nat where "vector_dims = 1024"

definition InsertChunk_q :: "pg \<Rightarrow> chunk \<Rightarrow> chunk sql" where
  "InsertChunk_q P a = uuid_arg P (c_id a) (\<lambda>id1. uuid_arg P (c_tenant a) (\<lambda>t. uuid_arg P (c_video a) (\<lambda>vid d.
     guarded P
       [(length (c_embedding a) = vector_dims, BadVector),
        (id1 \<notin> c_id ` set (d_chunks d), UniqueViolation ''chunks_pkey''),
        (\<forall>c \<in> set (d_chunks d). \<not> (c_video c = vid \<and> c_index c = c_index a),
         UniqueViolation ''chunks_video_chunk_unique''),
        (t \<in> set (d_tenants d), ForeignKeyViolation ''chunks_tenant_id_fkey''),
        (vid \<in> v_id ` set (d_videos d), ForeignKeyViolation ''chunks_video_id_fkey'')]
       (\<lambda>d. let r = a\<lparr>c_id := id1, c_tenant := t, c_video := vid\<rparr>
            in (Inr r, d\<lparr>d_chunks := d_chunks d @ [r]\<rparr>)) d)))"

text \<open>The rows \<open>SearchChunks\<close> ranks: chunks of the tenant in completed, non-deleted videos.\<close>

definition search_rows :: "pg \<Rightarrow> string \<Rightarrow> string option \<Rightarrow> db \<Rightarrow> (chunk \<times> video) list" where
  "search_rows P t name d =
     concat (map (\<lambda>c. map (\<lambda>v. (c, v)) (filter (\<lambda>v. v_id v = c_video c \<and> c_tenant c = t \<and>
       v_status v = ''completed'' \<and> v_deleted v = None \<and> in_segment P t name d v) (d_videos d))) (d_chunks d))"

definition SearchChunks_q :: "pg \<Rightarrow> string \<Rightarrow> string option \<Rightarrow> vec \<Rightarrow> int \<Rightarrow> (chunk \<times> video) list sql" where
  "SearchChunks_q P t0 name emb n = uuid_arg P t0 (\<lambda>t d.
     guarded P
       [(emb \<noteq> [], BadVector),
        (search_rows P t name d = [] \<or> length emb = vector_dims, BadVector)]
       (limit_offset P n 0 (pg_nearest P emb (search_rows P t name d))) d)"

end
