(* ===== verification/Repo.thy ===== *)
theory Repo
  imports Database
begin

text \<open>
  \<open>internal/database/tx.go\<close> and \<open>internal/database/repo\<close>: tenant-scoped transactions and the
  repositories that implement \<open>internal/core/ports/repositories.go\<close>. The world is the database
  and a tick; everything the code cannot determine (failures of the connection, the clock, fresh
  uuids, the transactions of other sessions, rows they hold locked) is a function of the tick,
  the parameter \<open>environ\<close>. Transactions are serial: other sessions act between transactions.
\<close>

section \<open>The world\<close>

record world =
  w_db :: db
  w_tick :: nat

text \<open>
  \<open>e_fault n\<close>: the error of the database call made at tick \<open>n\<close> (connection, context, or a value
  the server rejects); \<open>e_lost n\<close>: a commit that reports an error took effect; \<open>e_other n\<close>: what
  other sessions commit before the transaction that begins at \<open>n\<close>; \<open>e_go_uuid\<close> is
  \<open>uuid.Parse\<close> of the Go library, giving the canonical text.
\<close>

record environ =
  e_pg :: pg
  e_fault :: "nat \<Rightarrow> go_error option"
  e_lost :: "nat \<Rightarrow> bool"
  e_other :: "nat \<Rightarrow> db \<Rightarrow> db"
  e_time :: "nat \<Rightarrow> time"
  e_uuid :: "nat \<Rightarrow> string"
  e_locked :: "nat \<Rightarrow> job \<Rightarrow> bool"
  e_go_uuid :: "string \<Rightarrow> string option"

type_synonym ('z, 'a) act = "(go_error, 'z world_scheme, 'a) io"

definition time_now :: "environ \<Rightarrow> ('z, time) act" where
  "time_now E w = (Inr (e_time E (w_tick w)), w\<lparr>w_tick := w_tick w + 1\<rparr>)"

definition newUUIDString :: "environ \<Rightarrow> ('z, string) act" where
  "newUUIDString E w = (Inr (e_uuid E (w_tick w)), w\<lparr>w_tick := w_tick w + 1\<rparr>)"

text \<open>An operation whose error the caller only logs or drops.\<close>

definition best_effort :: "('z, unit) act \<Rightarrow> ('z, unit) act" where
  "best_effort m w = (Inr (), snd (m w))"

text \<open>A statement inside a transaction, and one on the pool, its own transaction.\<close>

definition stmt :: "environ \<Rightarrow> 'a sql \<Rightarrow> ('z, 'a) act" where
  "stmt E q w =
     (case e_fault E (w_tick w) of
        Some e \<Rightarrow> (Inl e, w\<lparr>w_tick := w_tick w + 1\<rparr>)
      | None \<Rightarrow> (case q (w_db w) of (r, d) \<Rightarrow> (r, w\<lparr>w_db := d, w_tick := w_tick w + 1\<rparr>)))"

definition pool_stmt :: "environ \<Rightarrow> (time \<Rightarrow> 'a sql) \<Rightarrow> ('z, 'a) act" where
  "pool_stmt E q w =
     stmt E (q (e_time E (w_tick w))) (w\<lparr>w_db := e_other E (w_tick w) (w_db w)\<rparr>)"

text \<open>
  \<open>fn\<close> runs on the transaction's own view of the database and gets its \<open>now()\<close>. The deferred
  \<open>Rollback\<close> restores the database the transaction began with; after a commit it does nothing.
\<close>

definition WithTenantTx :: "environ \<Rightarrow> string \<Rightarrow> (time \<Rightarrow> ('z, 'a) act) \<Rightarrow> ('z, 'a) act" where
  "WithTenantTx E tenant fn w =
     (let n = w_tick w; d = e_other E n (w_db w); w1 = w\<lparr>w_db := d, w_tick := n + 1\<rparr>
      in case e_fault E n of
           Some e \<Rightarrow> (Inl (wrapf ''database: begin tx'' e), w1)
         | None \<Rightarrow>
            (case e_fault E (n + 1) of
               Some e \<Rightarrow> (Inl (wrapf ''database: set tenant'' e), w1\<lparr>w_tick := n + 2\<rparr>)
             | None \<Rightarrow>
                (case fn (e_time E n) (w1\<lparr>w_tick := n + 2\<rparr>) of
                   (Inl e, w2) \<Rightarrow> (Inl e, w2\<lparr>w_db := d\<rparr>)
                 | (Inr a, w2) \<Rightarrow>
                    (case e_fault E (w_tick w2) of
                       Some e \<Rightarrow> (Inl (wrapf ''database: commit tx'' e),
                          w2\<lparr>w_db := if e_lost E (w_tick w2) then w_db w2 else d,
                             w_tick := w_tick w2 + 1\<rparr>)
                     | None \<Rightarrow> (Inr a, w2\<lparr>w_tick := w_tick w2 + 1\<rparr>)))))"

section \<open>Conversions\<close>

text \<open>A timestamptz holds microseconds; the NULL values of pgtype are \<open>None\<close>.\<close>

definition fromTime :: "time \<Rightarrow> time" where "fromTime t = t - t mod 1000"
definition fromTimePtr :: "time option \<Rightarrow> time option" where "fromTimePtr = map_option fromTime"
definition fromStrPtr :: "string option \<Rightarrow> string option" where "fromStrPtr s = s"
definition toStrPtr :: "string option \<Rightarrow> string option" where "toStrPtr s = s"
definition toTimePtr :: "time option \<Rightarrow> time option" where "toTimePtr t = t"
definition toTime :: "time \<Rightarrow> time" where "toTime t = t"
definition fromIntPtr :: "int option \<Rightarrow> int option" where "fromIntPtr = map_option wrap32"
definition toIntPtr :: "int option \<Rightarrow> int option" where "toIntPtr i = i"

definition fromUUIDPtr :: "environ \<Rightarrow> string option \<Rightarrow> string option" where
  "fromUUIDPtr E s = (case s of None \<Rightarrow> None | Some u \<Rightarrow> e_go_uuid E u)"

definition uuidPtr :: "string option \<Rightarrow> string option" where "uuidPtr u = u"

definition optionalText :: "string \<Rightarrow> string option" where
  "optionalText s = (if s = [] then None else Some s)"

definition not_found :: "go_error \<Rightarrow> go_error" where
  "not_found e = (if error_is e NoRows then Api ErrNotFound else e)"

section \<open>API keys, audit log\<close>

definition GetByHash :: "environ \<Rightarrow> string \<Rightarrow> ('z, api_key) act" where
  "GetByHash E hash = map_err not_found (pool_stmt E (\<lambda>now. GetAPIKeyByHash hash))"

definition TouchLastUsed :: "environ \<Rightarrow> string \<Rightarrow> ('z, unit) act" where
  "TouchLastUsed E id0 = pool_stmt E (\<lambda>now. TouchAPIKeyLastUsed (e_pg E) now id0)"

text \<open>\<open>meta\<close> is the result of \<open>json.Marshal(log.Metadata)\<close>.\<close>

definition InsertAudit :: "environ \<Rightarrow> audit_log \<Rightarrow> (go_error + string) \<Rightarrow> ('z, unit) act" where
  "InsertAudit E a meta =
     (case meta of
        Inl e \<Rightarrow> fail e
      | Inr m \<Rightarrow> WithTenantTx E (a_tenant a) (\<lambda>now.
          andthen (stmt E (InsertAuditLog (e_pg E) (a\<lparr>a_actor := fromUUIDPtr E (a_actor a),
             a_object := fromUUIDPtr E (a_object a), a_metadata := m, a_created := fromTime (a_created a)\<rparr>)))
            (\<lambda>_. ret ())))"

section \<open>Upload intents\<close>

definition mapUploadIntent :: "upload_intent \<Rightarrow> upload_intent" where
  "mapUploadIntent i = i\<lparr>i_expires := toTime (i_expires i), i_consumed := toTimePtr (i_consumed i),
     i_created := toTime (i_created i)\<rparr>"

definition Intents_Create :: "environ \<Rightarrow> upload_intent \<Rightarrow> ('z, unit) act" where
  "Intents_Create E i = WithTenantTx E (i_tenant i) (\<lambda>now.
     andthen (stmt E (CreateUploadIntent (e_pg E) (i\<lparr>i_expires := fromTime (i_expires i),
        i_consumed := fromTimePtr (i_consumed i), i_created := fromTime (i_created i)\<rparr>))) (\<lambda>_. ret ()))"

definition Intents_GetByFileKeyForUpdate :: "environ \<Rightarrow> string \<Rightarrow> string \<Rightarrow> ('z, upload_intent) act" where
  "Intents_GetByFileKeyForUpdate E key t = map_err not_found (WithTenantTx E t (\<lambda>now.
     andthen (stmt E (GetUploadIntentByFileKeyForUpdate (e_pg E) key t)) (\<lambda>i. ret (mapUploadIntent i))))"

definition Intents_Consume :: "environ \<Rightarrow> string \<Rightarrow> string \<Rightarrow> ('z, unit) act" where
  "Intents_Consume E key t = WithTenantTx E t (\<lambda>now.
     map_err not_found (andthen (stmt E (MarkUploadIntentConsumed (e_pg E) now key t)) (\<lambda>_. ret ())))"

section \<open>Jobs\<close>

definition mapJob :: "job \<Rightarrow> job" where
  "mapJob j = j\<lparr>j_intent := uuidPtr (j_intent j), j_error := toStrPtr (j_error j),
     j_started := toTimePtr (j_started j), j_finished := toTimePtr (j_finished j),
     j_created := toTime (j_created j), j_updated := toTime (j_updated j)\<rparr>"

definition job_params :: "environ \<Rightarrow> job \<Rightarrow> job" where
  "job_params E j = j\<lparr>j_intent := fromUUIDPtr E (j_intent j), j_error := fromStrPtr (j_error j),
     j_retry := wrap32 (j_retry j), j_started := fromTimePtr (j_started j),
     j_finished := fromTimePtr (j_finished j), j_created := fromTime (j_created j),
     j_updated := fromTime (j_updated j)\<rparr>"

definition Jobs_Create :: "environ \<Rightarrow> job \<Rightarrow> string list \<Rightarrow> ('z, unit) act" where
  "Jobs_Create E j segs = WithTenantTx E (j_tenant j) (\<lambda>now.
     andthen (stmt E (CreateJob_q (e_pg E) (job_params E j)))
       (\<lambda>_. for_each (\<lambda>sid. stmt E (AttachJobSegment (e_pg E) (j_id j) sid (j_tenant j))) segs))"

definition Jobs_List :: "environ \<Rightarrow> string \<Rightarrow> string \<Rightarrow> int \<Rightarrow> int \<Rightarrow> ('z, job list) act" where
  "Jobs_List E t status page limit = WithTenantTx E t (\<lambda>now.
     andthen (stmt E (ListJobs_q (e_pg E) t (optionalText status)
         (wrap32 (wrap64 (wrap64 (page - 1) * limit))) (wrap32 limit)))
       (\<lambda>rows. ret (map mapJob rows)))"

definition Jobs_Count :: "environ \<Rightarrow> string \<Rightarrow> string \<Rightarrow> ('z, int) act" where
  "Jobs_Count E t status = WithTenantTx E t (\<lambda>now.
     stmt E (CountJobs_q (e_pg E) t (optionalText status)))"

definition Jobs_GetByID :: "environ \<Rightarrow> string \<Rightarrow> string \<Rightarrow> ('z, job) act" where
  "Jobs_GetByID E id0 t = map_err not_found (WithTenantTx E t (\<lambda>now.
     andthen (stmt E (GetJobByID_q (e_pg E) id0 t)) (\<lambda>row. ret (mapJob row))))"

definition Jobs_UpdateStatus :: "environ \<Rightarrow> string \<Rightarrow> string \<Rightarrow> string \<Rightarrow> string \<Rightarrow> string option
    \<Rightarrow> ('z, unit) act" where
  "Jobs_UpdateStatus E id0 t status stage msg = WithTenantTx E t (\<lambda>now.
     andthen (stmt E (UpdateJobStatus_q (e_pg E) now id0 t status stage (fromStrPtr msg))) (\<lambda>_. ret ()))"

definition Jobs_Retry :: "environ \<Rightarrow> string \<Rightarrow> string \<Rightarrow> ('z, unit) act" where
  "Jobs_Retry E id0 t = WithTenantTx E t (\<lambda>now.
     map_err not_found (andthen (stmt E (RetryJob_q (e_pg E) now id0 t)) (\<lambda>_. ret ())))"

definition Jobs_ClaimNextPending :: "environ \<Rightarrow> ('z, job option) act" where
  "Jobs_ClaimNextPending E w =
     (case pool_stmt E (\<lambda>now. ClaimNextPendingJob_q now (e_locked E (w_tick w))) w of
        (Inl e, w1) \<Rightarrow> (if error_is e NoRows then (Inr None, w1) else (Inl e, w1))
      | (Inr row, w1) \<Rightarrow> (Inr (Some (mapJob row)), w1))"

definition Jobs_GetByIDAllTenants :: "environ \<Rightarrow> string \<Rightarrow> ('z, job) act" where
  "Jobs_GetByIDAllTenants E id0 = map_err not_found
     (andthen (pool_stmt E (\<lambda>now. GetJobByIDAllTenants_q (e_pg E) id0)) (\<lambda>row. ret (mapJob row)))"

record retention_job =
  rj_id :: string
  rj_file_key :: string

definition Jobs_ListForRetention :: "environ \<Rightarrow> time \<Rightarrow> ('z, retention_job list) act" where
  "Jobs_ListForRetention E older =
     andthen (pool_stmt E (\<lambda>now. ListJobsForRetention_q (fromTime older)))
       (\<lambda>rows. ret (map (\<lambda>j. \<lparr>rj_id = j_id j, rj_file_key = j_file_key j\<rparr>) rows))"

section \<open>Segments\<close>

definition Segments_EnsureByName :: "environ \<Rightarrow> string \<Rightarrow> string \<Rightarrow> ('z, segment) act" where
  "Segments_EnsureByName E t name = map_err not_found (WithTenantTx E t (\<lambda>now.
     andthen (newUUIDString E) (\<lambda>u. andthen (time_now E) (\<lambda>ts.
       andthen (stmt E (EnsureSegmentByName (e_pg E)
           \<lparr>s_id = u, s_tenant = t, s_name = name, s_created = fromTime ts\<rparr>))
         (\<lambda>row. ret (row\<lparr>s_created := toTime (s_created row)\<rparr>))))))"

definition Segments_AttachJobSegments :: "environ \<Rightarrow> string \<Rightarrow> string \<Rightarrow> string list \<Rightarrow> ('z, unit) act" where
  "Segments_AttachJobSegments E job t segs = WithTenantTx E t (\<lambda>now.
     for_each (\<lambda>sid. stmt E (AttachJobSegment (e_pg E) job sid t)) segs)"

definition Segments_AttachVideoSegments :: "environ \<Rightarrow> string \<Rightarrow> string \<Rightarrow> string list \<Rightarrow> ('z, unit) act" where
  "Segments_AttachVideoSegments E vid t segs = WithTenantTx E t (\<lambda>now.
     for_each (\<lambda>sid. stmt E (AttachVideoSegment (e_pg E) vid sid t)) segs)"

definition Segments_ListNamesByJobID :: "environ \<Rightarrow> string \<Rightarrow> string \<Rightarrow> ('z, string list) act" where
  "Segments_ListNamesByJobID E job t = WithTenantTx E t (\<lambda>now.
     stmt E (ListSegmentNamesByJobID (e_pg E) job t))"

definition Segments_ListNamesByVideoID :: "environ \<Rightarrow> string \<Rightarrow> string \<Rightarrow> ('z, string list) act" where
  "Segments_ListNamesByVideoID E vid t = WithTenantTx E t (\<lambda>now.
     stmt E (ListSegmentNamesByVideoID (e_pg E) vid t))"

section \<open>Videos\<close>

text \<open>\<open>model.Video\<close>: the row and its segment names.\<close>

record material =
  mat_video :: video
  mat_segments :: "string list"

definition mapVideo :: "video \<Rightarrow> video" where
  "mapVideo v = v\<lparr>v_duration := toIntPtr (v_duration v), v_deleted := toTimePtr (v_deleted v),
     v_created := toTime (v_created v), v_updated := toTime (v_updated v)\<rparr>"

definition withSegments :: "environ \<Rightarrow> video \<Rightarrow> ('z, material) act" where
  "withSegments E row =
     andthen (stmt E (ListSegmentNamesByVideoID (e_pg E) (v_id row) (v_tenant row)))
       (\<lambda>names. ret \<lparr>mat_video = mapVideo row, mat_segments = names\<rparr>)"

definition Videos_Create :: "environ \<Rightarrow> video \<Rightarrow> ('z, unit) act" where
  "Videos_Create E v = WithTenantTx E (v_tenant v) (\<lambda>now.
     andthen (stmt E (CreateVideo_q (e_pg E) (v\<lparr>v_duration := fromIntPtr (v_duration v),
        v_deleted := fromTimePtr (v_deleted v), v_created := fromTime (v_created v),
        v_updated := fromTime (v_updated v)\<rparr>))) (\<lambda>_. ret ()))"

definition Videos_GetByID :: "environ \<Rightarrow> string \<Rightarrow> string \<Rightarrow> ('z, material) act" where
  "Videos_GetByID E id0 t = map_err not_found (WithTenantTx E t (\<lambda>now.
     andthen (stmt E (GetVideoByID_q (e_pg E) id0 t)) (\<lambda>row. withSegments E row)))"

definition Videos_List :: "environ \<Rightarrow> string \<Rightarrow> string \<Rightarrow> string \<Rightarrow> int \<Rightarrow> int \<Rightarrow> ('z, material list) act" where
  "Videos_List E t name status page limit = WithTenantTx E t (\<lambda>now.
     andthen (stmt E (ListVideos_q (e_pg E) t (optionalText status) (optionalText name)
         (wrap32 (wrap64 (wrap64 (page - 1) * limit))) (wrap32 limit)))
       (\<lambda>rows. for_collect (withSegments E) rows))"

definition Videos_Count :: "environ \<Rightarrow> string \<Rightarrow> string \<Rightarrow> string \<Rightarrow> ('z, int) act" where
  "Videos_Count E t name status = WithTenantTx E t (\<lambda>now.
     stmt E (CountVideos_q (e_pg E) t (optionalText status) (optionalText name)))"

definition Videos_SoftDelete :: "environ \<Rightarrow> string \<Rightarrow> string \<Rightarrow> ('z, time) act" where
  "Videos_SoftDelete E id0 t = WithTenantTx E t (\<lambda>now.
     andthen (map_err not_found (stmt E (SoftDeleteVideo_q (e_pg E) now id0 t)))
       (\<lambda>row. ret (case v_deleted row of Some d \<Rightarrow> d | None \<Rightarrow> zero_time)))"

definition Videos_UpdateStatus :: "environ \<Rightarrow> string \<Rightarrow> string \<Rightarrow> string \<Rightarrow> ('z, unit) act" where
  "Videos_UpdateStatus E id0 t status = WithTenantTx E t (\<lambda>now.
     andthen (stmt E (UpdateVideoStatus_q (e_pg E) now id0 t status)) (\<lambda>_. ret ()))"

definition Videos_DeleteByJobID :: "environ \<Rightarrow> string \<Rightarrow> string \<Rightarrow> ('z, unit) act" where
  "Videos_DeleteByJobID E job t = WithTenantTx E t (\<lambda>now. stmt E (DeleteVideoByJobID_q (e_pg E) job t))"

definition Videos_FailByJobID :: "environ \<Rightarrow> string \<Rightarrow> string \<Rightarrow> ('z, unit) act" where
  "Videos_FailByJobID E job t = WithTenantTx E t (\<lambda>now. stmt E (FailVideoByJobID_q (e_pg E) now job t))"

section \<open>Transcripts, chunks, summaries\<close>

definition Transcripts_Upsert :: "environ \<Rightarrow> transcript \<Rightarrow> ('z, unit) act" where
  "Transcripts_Upsert E r = WithTenantTx E (t_tenant r) (\<lambda>now.
     andthen (stmt E (UpsertTranscript (e_pg E) (r\<lparr>t_language := fromStrPtr (t_language r),
        t_model := fromStrPtr (t_model r), t_created := fromTime (t_created r)\<rparr>))) (\<lambda>_. ret ()))"

definition Chunks_DeleteByVideoID :: "environ \<Rightarrow> string \<Rightarrow> string \<Rightarrow> ('z, unit) act" where
  "Chunks_DeleteByVideoID E vid t = WithTenantTx E t (\<lambda>now. stmt E (DeleteChunksByVideoID_q (e_pg E) vid t))"

definition Chunks_Insert :: "environ \<Rightarrow> chunk list \<Rightarrow> ('z, unit) act" where
  "Chunks_Insert E cs =
     (case cs of
        [] \<Rightarrow> ret ()
      | c0 # _ \<Rightarrow> WithTenantTx E (c_tenant c0) (\<lambda>now.
          for_each (\<lambda>c. andthen (stmt E (InsertChunk_q (e_pg E)
              (c\<lparr>c_index := wrap32 (c_index c), c_created := fromTime (c_created c)\<rparr>))) (\<lambda>_. ret ())) cs))"

text \<open>\<open>model.ChunkSearchResult\<close>: the chunk without its embedding, and the video's title.\<close>

record search_result =
  sr_chunk :: chunk
  sr_title :: string

definition Chunks_Search :: "environ \<Rightarrow> string \<Rightarrow> vec \<Rightarrow> string \<Rightarrow> int \<Rightarrow> ('z, search_result list) act" where
  "Chunks_Search E t emb name limit = WithTenantTx E t (\<lambda>now.
     andthen (stmt E (SearchChunks_q (e_pg E) t (optionalText name) emb (wrap32 limit)))
       (\<lambda>rows. ret (map (\<lambda>(c, v). \<lparr>sr_chunk = c\<lparr>c_embedding := [], c_created := toTime (c_created c)\<rparr>,
          sr_title = v_title v\<rparr>) rows)))"

definition Summaries_Upsert :: "environ \<Rightarrow> summary \<Rightarrow> ('z, unit) act" where
  "Summaries_Upsert E m = WithTenantTx E (m_tenant m) (\<lambda>now.
     andthen (stmt E (UpsertSummary (e_pg E) now (m\<lparr>m_content := fromStrPtr (m_content m),
        m_language := fromStrPtr (m_language m), m_model := fromStrPtr (m_model m),
        m_error := fromStrPtr (m_error m), m_created := fromTime (m_created m),
        m_updated := fromTime (m_updated m)\<rparr>))) (\<lambda>_. ret ()))"

definition Summaries_GetByVideoID :: "environ \<Rightarrow> string \<Rightarrow> string \<Rightarrow> ('z, summary) act" where
  "Summaries_GetByVideoID E vid t = map_err not_found (WithTenantTx E t (\<lambda>now.
     andthen (stmt E (GetSummaryByVideoID_q (e_pg E) vid t))
       (\<lambda>row. ret (row\<lparr>m_content := toStrPtr (m_content row), m_language := toStrPtr (m_language row),
          m_model := toStrPtr (m_model row), m_error := toStrPtr (m_error row),
          m_created := toTime (m_created row), m_updated := toTime (m_updated row)\<rparr>))))"

end
