(* ===== verification/Rows.thy ===== *)
theory Rows
  imports Repo
begin

text \<open>
  The layer below \<open>Repo\<close>: the column types of pgtype, a value with a \<open>Valid\<close> flag, the row structs of
  \<open>database/queries/models.go\<close>, and the conversions of \<open>database/repo/convert.go\<close> and of
  \<open>handlers/job.go\<close> between them and the domain types of \<open>core/model\<close>. In the other theories a nullable
  column is an option and a stored row is the domain record; here both are shown to be the same.
\<close>

section \<open>Column types\<close>

text \<open>The column types of pgtype that the code uses; no column holds an infinite time.\<close>

record pg_text =
  tx_String :: string
  tx_Valid :: bool

record pg_time =
  ts_Time :: time
  ts_Valid :: bool

record pg_int4 =
  i4_Int32 :: int
  i4_Valid :: bool

record pg_bytes16 =
  uu_Bytes :: string
  uu_Valid :: bool

definition null_text :: pg_text where "null_text = \<lparr>tx_String = [], tx_Valid = False\<rparr>"
definition null_time :: pg_time where "null_time = \<lparr>ts_Time = zero_time, ts_Valid = False\<rparr>"
definition null_int4 :: pg_int4 where "null_int4 = \<lparr>i4_Int32 = 0, i4_Valid = False\<rparr>"
definition null_uuid :: pg_bytes16 where "null_uuid = \<lparr>uu_Bytes = replicate 16 (CHR 0x00), uu_Valid = False\<rparr>"

text \<open>\<open>uuid.Parse\<close> to bytes, and \<open>UUID.String\<close>.\<close>

record uuid_lib =
  ul_parse :: "string \<Rightarrow> string option"
  ul_string :: "string \<Rightarrow> string"

section \<open>Conversions of the repositories\<close>

definition col_toTime :: "pg_time \<Rightarrow> time" where "col_toTime ts = ts_Time ts"

definition col_toTimePtr :: "pg_time \<Rightarrow> time option" where
  "col_toTimePtr ts = (if \<not> ts_Valid ts then None else Some (ts_Time ts))"

definition col_toStrPtr :: "pg_text \<Rightarrow> string option" where
  "col_toStrPtr t = (if \<not> tx_Valid t then None else Some (tx_String t))"

definition col_toIntPtr :: "pg_int4 \<Rightarrow> int option" where
  "col_toIntPtr i = (if \<not> i4_Valid i then None else Some (i4_Int32 i))"

definition col_fromIntPtr :: "int option \<Rightarrow> pg_int4" where
  "col_fromIntPtr i = (case i of None \<Rightarrow> null_int4 | Some n \<Rightarrow> \<lparr>i4_Int32 = wrap32 n, i4_Valid = True\<rparr>)"

definition col_fromTime :: "time \<Rightarrow> pg_time" where "col_fromTime t = \<lparr>ts_Time = t, ts_Valid = True\<rparr>"

definition col_fromTimePtr :: "time option \<Rightarrow> pg_time" where
  "col_fromTimePtr t = (case t of None \<Rightarrow> null_time | Some x \<Rightarrow> \<lparr>ts_Time = x, ts_Valid = True\<rparr>)"

definition col_fromStr :: "string \<Rightarrow> pg_text" where "col_fromStr s = \<lparr>tx_String = s, tx_Valid = True\<rparr>"

definition col_fromStrPtr :: "string option \<Rightarrow> pg_text" where
  "col_fromStrPtr s = (case s of None \<Rightarrow> null_text | Some x \<Rightarrow> \<lparr>tx_String = x, tx_Valid = True\<rparr>)"

definition col_fromUUIDPtr :: "uuid_lib \<Rightarrow> string option \<Rightarrow> pg_bytes16" where
  "col_fromUUIDPtr U s =
     (case s of None \<Rightarrow> null_uuid
      | Some x \<Rightarrow> (case ul_parse U x of None \<Rightarrow> null_uuid | Some b \<Rightarrow> \<lparr>uu_Bytes = b, uu_Valid = True\<rparr>))"

definition uuidToString :: "uuid_lib \<Rightarrow> pg_bytes16 \<Rightarrow> string" where "uuidToString U u = ul_string U (uu_Bytes u)"

definition col_uuidPtr :: "uuid_lib \<Rightarrow> pg_bytes16 \<Rightarrow> string option" where
  "col_uuidPtr U u = (if \<not> uu_Valid u then None else Some (uuidToString U u))"

section \<open>Conversions of the job handler\<close>

definition toTimestamptz :: "time \<Rightarrow> pg_time" where "toTimestamptz t = \<lparr>ts_Time = t, ts_Valid = True\<rparr>"

definition toUUID :: "uuid_lib \<Rightarrow> string \<Rightarrow> pg_bytes16" where
  "toUUID U s = (case ul_parse U s of None \<Rightarrow> null_uuid | Some b \<Rightarrow> \<lparr>uu_Bytes = b, uu_Valid = True\<rparr>)"

definition textPtr :: "pg_text \<Rightarrow> string option" where
  "textPtr t = (if \<not> tx_Valid t then None else Some (tx_String t))"

definition timePtr :: "pg_time \<Rightarrow> time option" where
  "timePtr ts = (if \<not> ts_Valid ts then None else Some (ts_Time ts))"

section \<open>Rows\<close>

record row_ApiKey =
  ak_ID :: string
  ak_TenantID :: string
  ak_Name :: string
  ak_KeyHash :: string
  ak_Scope :: string
  ak_RevokedAt :: pg_time
  ak_LastUsedAt :: pg_time
  ak_CreatedAt :: pg_time
  ak_UpdatedAt :: pg_time

record row_UploadIntent =
  ui_ID :: string
  ui_TenantID :: string
  ui_FileKey :: string
  ui_ContentType :: string
  ui_Status :: string
  ui_ExpiresAt :: pg_time
  ui_ConsumedAt :: pg_time
  ui_CreatedAt :: pg_time

record row_Job =
  jb_ID :: string
  jb_TenantID :: string
  jb_UploadIntentID :: pg_bytes16
  jb_FileKey :: string
  jb_Title :: string
  jb_Kind :: string
  jb_Status :: string
  jb_Stage :: string
  jb_ErrorMessage :: pg_text
  jb_RetryCount :: int
  jb_StartedAt :: pg_time
  jb_FinishedAt :: pg_time
  jb_CreatedAt :: pg_time
  jb_UpdatedAt :: pg_time

record row_Segment =
  sg_ID :: string
  sg_TenantID :: string
  sg_Name :: string
  sg_CreatedAt :: pg_time

record row_Video =
  vd_ID :: string
  vd_TenantID :: string
  vd_JobID :: string
  vd_Title :: string
  vd_Kind :: string
  vd_FileKey :: string
  vd_Status :: string
  vd_DurationSeconds :: pg_int4
  vd_DeletedAt :: pg_time
  vd_CreatedAt :: pg_time
  vd_UpdatedAt :: pg_time

record row_Summary =
  sm_ID :: string
  sm_TenantID :: string
  sm_VideoID :: string
  sm_Status :: string
  sm_Content :: pg_text
  sm_Language :: pg_text
  sm_Model :: pg_text
  sm_ErrorMessage :: pg_text
  sm_CreatedAt :: pg_time
  sm_UpdatedAt :: pg_time

record row_Transcript =
  tr_ID :: string
  tr_TenantID :: string
  tr_VideoID :: string
  tr_Content :: string
  tr_Language :: pg_text
  tr_Model :: pg_text
  tr_CreatedAt :: pg_time

record row_Chunk =
  ck_ID :: string
  ck_TenantID :: string
  ck_VideoID :: string
  ck_ChunkIndex :: int
  ck_Content :: string
  ck_Embedding :: vec
  ck_CreatedAt :: pg_time

record row_AuditLog =
  al_ID :: string
  al_TenantID :: string
  al_ActorKeyID :: pg_bytes16
  al_Action :: string
  al_ObjectID :: pg_bytes16
  al_Metadata :: string
  al_CreatedAt :: pg_time

section \<open>From rows to the domain\<close>

definition row_mapJob :: "uuid_lib \<Rightarrow> row_Job \<Rightarrow> job" where
  "row_mapJob U r = \<lparr>j_id = jb_ID r, j_tenant = jb_TenantID r, j_intent = col_uuidPtr U (jb_UploadIntentID r),
     j_file_key = jb_FileKey r, j_title = jb_Title r, j_kind = jb_Kind r, j_status = jb_Status r, j_stage = jb_Stage r,
     j_error = col_toStrPtr (jb_ErrorMessage r), j_retry = jb_RetryCount r, j_started = col_toTimePtr (jb_StartedAt r),
     j_finished = col_toTimePtr (jb_FinishedAt r), j_created = col_toTime (jb_CreatedAt r), j_updated = col_toTime (jb_UpdatedAt r)\<rparr>"

definition row_mapUploadIntent :: "row_UploadIntent \<Rightarrow> upload_intent" where
  "row_mapUploadIntent r = \<lparr>i_id = ui_ID r, i_tenant = ui_TenantID r, i_file_key = ui_FileKey r,
     i_content_type = ui_ContentType r, i_status = ui_Status r, i_expires = col_toTime (ui_ExpiresAt r),
     i_consumed = col_toTimePtr (ui_ConsumedAt r), i_created = col_toTime (ui_CreatedAt r)\<rparr>"

definition row_mapVideo :: "row_Video \<Rightarrow> video" where
  "row_mapVideo r = \<lparr>v_id = vd_ID r, v_tenant = vd_TenantID r, v_job = vd_JobID r, v_title = vd_Title r, v_kind = vd_Kind r,
     v_file_key = vd_FileKey r, v_status = vd_Status r, v_duration = col_toIntPtr (vd_DurationSeconds r),
     v_deleted = col_toTimePtr (vd_DeletedAt r), v_created = col_toTime (vd_CreatedAt r), v_updated = col_toTime (vd_UpdatedAt r)\<rparr>"

text \<open>The literals of \<open>GetByHash\<close>, \<open>EnsureByName\<close> and \<open>GetByVideoID\<close>.\<close>

definition row_mapApiKey :: "row_ApiKey \<Rightarrow> api_key" where
  "row_mapApiKey r = \<lparr>k_id = ak_ID r, k_tenant = ak_TenantID r, k_name = ak_Name r, k_hash = ak_KeyHash r,
     k_scope = ak_Scope r, k_revoked = col_toTimePtr (ak_RevokedAt r), k_last_used = col_toTimePtr (ak_LastUsedAt r),
     k_created = col_toTime (ak_CreatedAt r), k_updated = col_toTime (ak_UpdatedAt r)\<rparr>"

definition row_mapSegment :: "row_Segment \<Rightarrow> segment" where
  "row_mapSegment r = \<lparr>s_id = sg_ID r, s_tenant = sg_TenantID r, s_name = sg_Name r, s_created = col_toTime (sg_CreatedAt r)\<rparr>"

definition row_mapSummary :: "row_Summary \<Rightarrow> summary" where
  "row_mapSummary r = \<lparr>m_id = sm_ID r, m_tenant = sm_TenantID r, m_video = sm_VideoID r, m_status = sm_Status r,
     m_content = col_toStrPtr (sm_Content r), m_language = col_toStrPtr (sm_Language r), m_model = col_toStrPtr (sm_Model r),
     m_error = col_toStrPtr (sm_ErrorMessage r), m_created = col_toTime (sm_CreatedAt r), m_updated = col_toTime (sm_UpdatedAt r)\<rparr>"

section \<open>From the domain to rows\<close>

text \<open>The parameters of the insertions of \<open>JobRepository.Create\<close> and of the job handler.\<close>

definition row_job_params :: "uuid_lib \<Rightarrow> job \<Rightarrow> row_Job" where
  "row_job_params U j = \<lparr>jb_ID = j_id j, jb_TenantID = j_tenant j, jb_UploadIntentID = col_fromUUIDPtr U (j_intent j),
     jb_FileKey = j_file_key j, jb_Title = j_title j, jb_Kind = j_kind j, jb_Status = j_status j, jb_Stage = j_stage j,
     jb_ErrorMessage = col_fromStrPtr (j_error j), jb_RetryCount = wrap32 (j_retry j),
     jb_StartedAt = col_fromTimePtr (j_started j), jb_FinishedAt = col_fromTimePtr (j_finished j),
     jb_CreatedAt = col_fromTime (j_created j), jb_UpdatedAt = col_fromTime (j_updated j)\<rparr>"

definition row_intent_params :: "upload_intent \<Rightarrow> row_UploadIntent" where
  "row_intent_params i = \<lparr>ui_ID = i_id i, ui_TenantID = i_tenant i, ui_FileKey = i_file_key i,
     ui_ContentType = i_content_type i, ui_Status = i_status i, ui_ExpiresAt = col_fromTime (i_expires i),
     ui_ConsumedAt = col_fromTimePtr (i_consumed i), ui_CreatedAt = col_fromTime (i_created i)\<rparr>"

definition row_video_params :: "video \<Rightarrow> row_Video" where
  "row_video_params v = \<lparr>vd_ID = v_id v, vd_TenantID = v_tenant v, vd_JobID = v_job v, vd_Title = v_title v, vd_Kind = v_kind v,
     vd_FileKey = v_file_key v, vd_Status = v_status v, vd_DurationSeconds = col_fromIntPtr (v_duration v),
     vd_DeletedAt = col_fromTimePtr (v_deleted v), vd_CreatedAt = col_fromTime (v_created v), vd_UpdatedAt = col_fromTime (v_updated v)\<rparr>"

definition row_summary_params :: "summary \<Rightarrow> row_Summary" where
  "row_summary_params m = \<lparr>sm_ID = m_id m, sm_TenantID = m_tenant m, sm_VideoID = m_video m, sm_Status = m_status m,
     sm_Content = col_fromStrPtr (m_content m), sm_Language = col_fromStrPtr (m_language m), sm_Model = col_fromStrPtr (m_model m),
     sm_ErrorMessage = col_fromStrPtr (m_error m), sm_CreatedAt = col_fromTime (m_created m), sm_UpdatedAt = col_fromTime (m_updated m)\<rparr>"

definition row_transcript_params :: "transcript \<Rightarrow> row_Transcript" where
  "row_transcript_params r = \<lparr>tr_ID = t_id r, tr_TenantID = t_tenant r, tr_VideoID = t_video r, tr_Content = t_content r,
     tr_Language = col_fromStrPtr (t_language r), tr_Model = col_fromStrPtr (t_model r), tr_CreatedAt = col_fromTime (t_created r)\<rparr>"

definition row_chunk_params :: "chunk \<Rightarrow> row_Chunk" where
  "row_chunk_params c = \<lparr>ck_ID = c_id c, ck_TenantID = c_tenant c, ck_VideoID = c_video c, ck_ChunkIndex = wrap32 (c_index c),
     ck_Content = c_content c, ck_Embedding = c_embedding c, ck_CreatedAt = col_fromTime (c_created c)\<rparr>"

definition row_audit_params :: "uuid_lib \<Rightarrow> string \<Rightarrow> audit_log \<Rightarrow> row_AuditLog" where
  "row_audit_params U metadata a = \<lparr>al_ID = a_id a, al_TenantID = a_tenant a, al_ActorKeyID = col_fromUUIDPtr U (a_actor a),
     al_Action = a_action a, al_ObjectID = col_fromUUIDPtr U (a_object a), al_Metadata = metadata,
     al_CreatedAt = col_fromTime (a_created a)\<rparr>"

definition handler_job_params :: "uuid_lib \<Rightarrow> string \<Rightarrow> string \<Rightarrow> string \<Rightarrow> string \<Rightarrow> string \<Rightarrow> string \<Rightarrow> time \<Rightarrow> row_Job" where
  "handler_job_params U u t intent key title kind now = \<lparr>jb_ID = u, jb_TenantID = t, jb_UploadIntentID = toUUID U intent,
     jb_FileKey = key, jb_Title = title, jb_Kind = kind, jb_Status = ''pending'', jb_Stage = ''queued'',
     jb_ErrorMessage = null_text, jb_RetryCount = 0, jb_StartedAt = null_time, jb_FinishedAt = null_time,
     jb_CreatedAt = toTimestamptz now, jb_UpdatedAt = toTimestamptz now\<rparr>"

text \<open>The fields of the handler's reply, but for the names of the segments.\<close>

definition handler_job_response :: "string \<Rightarrow> row_Job \<Rightarrow> job" where
  "handler_job_response intent r = \<lparr>j_id = jb_ID r, j_tenant = jb_TenantID r, j_intent = Some intent,
     j_file_key = jb_FileKey r, j_title = jb_Title r, j_kind = jb_Kind r, j_status = jb_Status r, j_stage = jb_Stage r,
     j_error = textPtr (jb_ErrorMessage r), j_retry = jb_RetryCount r, j_started = timePtr (jb_StartedAt r),
     j_finished = timePtr (jb_FinishedAt r), j_created = ts_Time (jb_CreatedAt r), j_updated = ts_Time (jb_UpdatedAt r)\<rparr>"

section \<open>The model of the other theories\<close>

text \<open>A timestamptz keeps microseconds.\<close>

definition stored_time :: "pg_time \<Rightarrow> pg_time" where
  "stored_time ts = ts\<lparr>ts_Time := ts_Time ts - ts_Time ts mod 1000\<rparr>"

definition stored_job :: "row_Job \<Rightarrow> row_Job" where
  "stored_job r = r\<lparr>jb_StartedAt := stored_time (jb_StartedAt r), jb_FinishedAt := stored_time (jb_FinishedAt r),
     jb_CreatedAt := stored_time (jb_CreatedAt r), jb_UpdatedAt := stored_time (jb_UpdatedAt r)\<rparr>"

definition stored_video :: "row_Video \<Rightarrow> row_Video" where
  "stored_video r = r\<lparr>vd_DeletedAt := stored_time (vd_DeletedAt r), vd_CreatedAt := stored_time (vd_CreatedAt r),
     vd_UpdatedAt := stored_time (vd_UpdatedAt r)\<rparr>"

definition stored_intent :: "row_UploadIntent \<Rightarrow> row_UploadIntent" where
  "stored_intent r = r\<lparr>ui_ExpiresAt := stored_time (ui_ExpiresAt r), ui_ConsumedAt := stored_time (ui_ConsumedAt r),
     ui_CreatedAt := stored_time (ui_CreatedAt r)\<rparr>"

definition stored_summary :: "row_Summary \<Rightarrow> row_Summary" where
  "stored_summary r = r\<lparr>sm_CreatedAt := stored_time (sm_CreatedAt r), sm_UpdatedAt := stored_time (sm_UpdatedAt r)\<rparr>"

text \<open>What the tables of \<open>Database\<close> hold for a row that the code never reads back as a struct.\<close>

definition abs_transcript :: "row_Transcript \<Rightarrow> transcript" where
  "abs_transcript r = \<lparr>t_id = tr_ID r, t_tenant = tr_TenantID r, t_video = tr_VideoID r, t_content = tr_Content r,
     t_language = col_toStrPtr (tr_Language r), t_model = col_toStrPtr (tr_Model r), t_created = ts_Time (stored_time (tr_CreatedAt r))\<rparr>"

definition abs_chunk :: "row_Chunk \<Rightarrow> chunk" where
  "abs_chunk r = \<lparr>c_id = ck_ID r, c_tenant = ck_TenantID r, c_video = ck_VideoID r, c_index = ck_ChunkIndex r,
     c_content = ck_Content r, c_embedding = ck_Embedding r, c_created = ts_Time (stored_time (ck_CreatedAt r))\<rparr>"

definition abs_audit :: "uuid_lib \<Rightarrow> row_AuditLog \<Rightarrow> audit_log" where
  "abs_audit U r = \<lparr>a_id = al_ID r, a_tenant = al_TenantID r, a_actor = col_uuidPtr U (al_ActorKeyID r), a_action = al_Action r,
     a_object = col_uuidPtr U (al_ObjectID r), a_metadata = al_Metadata r, a_created = ts_Time (stored_time (al_CreatedAt r))\<rparr>"

definition uuids_of :: "environ \<Rightarrow> uuid_lib \<Rightarrow> bool" where
  "uuids_of E U \<longleftrightarrow> (\<forall>s. e_go_uuid E s = map_option (ul_string U) (ul_parse U s))"

lemmas column_defs = null_text_def null_time_def null_int4_def null_uuid_def col_toTime_def col_toTimePtr_def col_toStrPtr_def
  col_toIntPtr_def col_fromIntPtr_def col_fromTime_def col_fromTimePtr_def col_fromStr_def col_fromStrPtr_def col_fromUUIDPtr_def
  uuidToString_def col_uuidPtr_def toTimestamptz_def toUUID_def textPtr_def timePtr_def stored_time_def

lemmas option_defs = fromTime_def fromTimePtr_def fromStrPtr_def toStrPtr_def toTimePtr_def toTime_def fromIntPtr_def toIntPtr_def
  fromUUIDPtr_def uuidPtr_def

text \<open>A value written and read back through its column is what the options of \<open>Repo\<close> say.\<close>

lemma columns_refine:
  "col_toStrPtr (col_fromStrPtr s) = toStrPtr (fromStrPtr s)"
  "col_toTimePtr (stored_time (col_fromTimePtr t)) = toTimePtr (fromTimePtr t)"
  "col_toTime (stored_time (col_fromTime x)) = toTime (fromTime x)"
  "col_toIntPtr (col_fromIntPtr i) = toIntPtr (fromIntPtr i)"
  "uuids_of E U \<Longrightarrow> col_uuidPtr U (col_fromUUIDPtr U u) = uuidPtr (fromUUIDPtr E u)"
  by (simp_all add: column_defs option_defs uuids_of_def split: option.split)

lemma handler_columns:
  "toTimestamptz = col_fromTime" "textPtr = col_toStrPtr" "timePtr = col_toTimePtr" "toUUID U s = col_fromUUIDPtr U (Some s)"
  by (simp_all add: column_defs fun_eq_iff)

text \<open>
  Inserting a job's parameters and mapping the stored row back is \<open>job_params\<close> of \<open>Repo\<close>, for the
  repository and for the handler; the handler's reply is the mapped row with the text of the intent.
\<close>

lemma job_rows_refine:
  assumes "uuids_of E U"
  shows "row_mapJob U (stored_job (row_job_params U j)) = mapJob (job_params E j)"
  using assms by (simp add: row_mapJob_def stored_job_def row_job_params_def mapJob_def job_params_def columns_refine)

lemma repository_rows_refine:
  "row_mapVideo (stored_video (row_video_params v)) = mapVideo (v\<lparr>v_duration := fromIntPtr (v_duration v),
     v_deleted := fromTimePtr (v_deleted v), v_created := fromTime (v_created v), v_updated := fromTime (v_updated v)\<rparr>)"
  "row_mapUploadIntent (stored_intent (row_intent_params i)) = mapUploadIntent (i\<lparr>i_expires := fromTime (i_expires i),
     i_consumed := fromTimePtr (i_consumed i), i_created := fromTime (i_created i)\<rparr>)"
  "row_mapSummary (stored_summary (row_summary_params m)) = m\<lparr>m_content := fromStrPtr (m_content m),
     m_language := fromStrPtr (m_language m), m_model := fromStrPtr (m_model m), m_error := fromStrPtr (m_error m),
     m_created := fromTime (m_created m), m_updated := fromTime (m_updated m)\<rparr>"
  "abs_transcript (row_transcript_params r) = r\<lparr>t_language := fromStrPtr (t_language r), t_model := fromStrPtr (t_model r),
     t_created := fromTime (t_created r)\<rparr>"
  "abs_chunk (row_chunk_params c) = c\<lparr>c_index := wrap32 (c_index c), c_created := fromTime (c_created c)\<rparr>"
  "uuids_of E U \<Longrightarrow> abs_audit U (row_audit_params U metadata a) = a\<lparr>a_actor := fromUUIDPtr E (a_actor a),
     a_object := fromUUIDPtr E (a_object a), a_metadata := metadata, a_created := fromTime (a_created a)\<rparr>"
  by (simp_all add: row_mapVideo_def stored_video_def row_video_params_def mapVideo_def row_mapUploadIntent_def stored_intent_def
      row_intent_params_def mapUploadIntent_def row_mapSummary_def stored_summary_def row_summary_params_def abs_transcript_def
      row_transcript_params_def abs_chunk_def row_chunk_params_def abs_audit_def row_audit_params_def columns_refine
      toStrPtr_def col_toTime_def [symmetric] toTime_def uuidPtr_def)

lemma handler_rows_refine:
  assumes "uuids_of E U"
  shows "row_mapJob U (stored_job (handler_job_params U u t intent key title kind now)) =
      \<lparr>j_id = u, j_tenant = t, j_intent = e_go_uuid E intent, j_file_key = key, j_title = title, j_kind = kind,
       j_status = ''pending'', j_stage = ''queued'', j_error = None, j_retry = 0, j_started = None, j_finished = None,
       j_created = fromTime now, j_updated = fromTime now\<rparr>"
    "handler_job_response intent r = (row_mapJob U r)\<lparr>j_intent := Some intent\<rparr>"
  using assms by (simp_all add: row_mapJob_def stored_job_def handler_job_params_def handler_job_response_def column_defs
      fromTime_def uuids_of_def split: option.split)

text \<open>A job with whole microseconds, an \<open>integer\<close> retry count and a canonical intent survives the round trip.\<close>

lemma job_row_roundtrip:
  assumes "uuids_of E U" "wrap32 (j_retry j) = j_retry j" "\<forall>u. j_intent j = Some u \<longrightarrow> e_go_uuid E u = Some u"
    "\<forall>t. t = j_created j \<or> t = j_updated j \<or> j_started j = Some t \<or> j_finished j = Some t \<longrightarrow> t mod 1000 = 0"
  shows "row_mapJob U (stored_job (row_job_params U j)) = j"
proof -
  have t: "fromTime x = x" if "x mod 1000 = 0" for x using that by (simp add: fromTime_def)
  have "map_option fromTime (j_started j) = j_started j"
    by (cases "j_started j") (use assms(4) t in auto)
  moreover have "map_option fromTime (j_finished j) = j_finished j"
    by (cases "j_finished j") (use assms(4) t in auto)
  moreover have "fromTime (j_created j) = j_created j" "fromTime (j_updated j) = j_updated j"
    using assms(4) by (simp_all add: t)
  moreover have "fromUUIDPtr E (j_intent j) = j_intent j"
    using assms(3) by (simp add: fromUUIDPtr_def split: option.split)
  ultimately show ?thesis
    unfolding job_rows_refine [OF assms(1)] using assms(2)
    by (simp add: mapJob_def job_params_def fromStrPtr_def toStrPtr_def toTimePtr_def toTime_def fromTimePtr_def uuidPtr_def)
qed

end
