(* ===== verification/Tenancy.thy ===== *)
theory Tenancy
  imports Repo
begin

text \<open>
  Who may change what. \<open>outside t d\<close> is the part of the database that does not belong to tenant
  \<open>t\<close>; every statement and repository operation that takes a tenant leaves it alone, whatever
  fails on the way. The last section takes successful transactions and statements apart.
\<close>

section \<open>Rows of other tenants\<close>

definition outside :: "string \<Rightarrow> db \<Rightarrow> db" where
  "outside t d = d\<lparr>
     d_keys := filter (\<lambda>r. k_tenant r \<noteq> t) (d_keys d),
     d_intents := filter (\<lambda>r. i_tenant r \<noteq> t) (d_intents d),
     d_jobs := filter (\<lambda>r. j_tenant r \<noteq> t) (d_jobs d),
     d_segments := filter (\<lambda>r. s_tenant r \<noteq> t) (d_segments d),
     d_job_segments := filter (\<lambda>r. l_tenant r \<noteq> t) (d_job_segments d),
     d_videos := filter (\<lambda>r. v_tenant r \<noteq> t) (d_videos d),
     d_video_segments := filter (\<lambda>r. l_tenant r \<noteq> t) (d_video_segments d),
     d_transcripts := filter (\<lambda>r. t_tenant r \<noteq> t) (d_transcripts d),
     d_chunks := filter (\<lambda>r. c_tenant r \<noteq> t) (d_chunks d),
     d_summaries := filter (\<lambda>r. m_tenant r \<noteq> t) (d_summaries d),
     d_audit := filter (\<lambda>r. a_tenant r \<noteq> t) (d_audit d)\<rparr>"

text \<open>The tenant a tenant argument denotes.\<close>

definition canon :: "pg \<Rightarrow> string \<Rightarrow> string" where
  "canon P s = (case pg_uuid P s of Some u \<Rightarrow> u | None \<Rightarrow> s)"

abbreviation only_tenant :: "string \<Rightarrow> 'a sql \<Rightarrow> bool" where
  "only_tenant t q \<equiv> \<forall>X. keeps (\<lambda>d. outside t d = X) q"

named_theorems frame \<open>statements that touch the rows of one tenant only\<close>

lemma only_tenant_violation: "only_tenant t (violation P e)"
  by (simp add: violation_def keeps_fail)

lemma only_tenant_uuid:
  "(\<And>u. pg_uuid P s = Some u \<Longrightarrow> only_tenant t (f u)) \<Longrightarrow> only_tenant t (uuid_arg P s f)"
  by (auto simp: uuid_arg_def only_tenant_violation split: option.split)

lemma only_tenant_guarded: "only_tenant t m \<Longrightarrow> only_tenant t (guarded P cs m)"
  by (induction P cs m rule: guarded.induct) (simp_all add: only_tenant_violation)

lemma only_tenant_one_row: "only_tenant t (one_row rs)"
  by (auto simp: one_row_def keeps_ret keeps_fail split: list.split)

lemma only_tenant_same:
  "(\<And>d. outside t (snd (q d)) = outside t d) \<Longrightarrow> only_tenant t q"
  by (simp add: keeps_def)

lemma one_row_db [simp]: "snd (one_row rs d) = d"
  by (simp add: one_row_def ret_def fail_def split: list.split)

lemma guarded_db:
  "outside t (snd (m d)) = outside t d \<Longrightarrow> outside t (snd (guarded P cs m d)) = outside t d"
  by (induction P cs m rule: guarded.induct) (simp_all add: violation_def fail_def)

lemma limit_offset_db [simp]: "snd (limit_offset P n k rs d) = d"
  by (simp add: limit_offset_def violation_def fail_def ret_def)

lemma filter_update_rows:
  "(\<And>r. hit r \<Longrightarrow> tn r = t) \<Longrightarrow> (\<And>r. tn (f r) = tn r) \<Longrightarrow>
   filter (\<lambda>r. tn r \<noteq> t) (update_rows hit f rs) = filter (\<lambda>r. tn r \<noteq> t) rs"
  by (induction rs) (auto simp: update_rows_def)

lemma outside_update:
  "(\<And>r. hit1 r \<Longrightarrow> i_tenant r = t) \<Longrightarrow> (\<And>r. i_tenant (f1 r) = i_tenant r) \<Longrightarrow>
     outside t (d\<lparr>d_intents := update_rows hit1 f1 (d_intents d)\<rparr>) = outside t d"
  "(\<And>r. hit2 r \<Longrightarrow> j_tenant r = t) \<Longrightarrow> (\<And>r. j_tenant (f2 r) = j_tenant r) \<Longrightarrow>
     outside t (d\<lparr>d_jobs := update_rows hit2 f2 (d_jobs d)\<rparr>) = outside t d"
  "(\<And>r. hit3 r \<Longrightarrow> v_tenant r = t) \<Longrightarrow> (\<And>r. v_tenant (f3 r) = v_tenant r) \<Longrightarrow>
     outside t (d\<lparr>d_videos := update_rows hit3 f3 (d_videos d)\<rparr>) = outside t d"
  using filter_update_rows [of hit1 i_tenant t f1] filter_update_rows [of hit2 j_tenant t f2]
    filter_update_rows [of hit3 v_tenant t f3]
  by (simp_all add: outside_def)

lemma canon_Some: "pg_uuid P s = Some u \<Longrightarrow> canon P s = u"
  by (simp add: canon_def)

text \<open>Statements that read.\<close>

definition read_only :: "'a sql \<Rightarrow> bool" where
  "read_only q \<longleftrightarrow> (\<forall>d. snd (q d) = d)"

lemma read_only_uuid: "(\<And>u. read_only (f u)) \<Longrightarrow> read_only (uuid_arg P s f)"
  by (simp add: read_only_def uuid_arg_def violation_def fail_def split: option.split)

lemma read_only_guarded: "read_only m \<Longrightarrow> read_only (guarded P cs m)"
  by (induction P cs m rule: guarded.induct) (simp_all add: read_only_def violation_def fail_def)

lemmas read_defs = GetAPIKeyByHash_def GetUploadIntentByFileKeyForUpdate_def ListJobs_q_def
  CountJobs_q_def GetJobByID_q_def GetJobByIDAllTenants_q_def ListJobsForRetention_q_def
  GetSegmentByName_def ListSegmentNamesByJobID_def ListSegmentNamesByVideoID_def GetVideoByID_q_def
  ListVideos_q_def CountVideos_q_def GetSummaryByVideoID_q_def

named_theorems reading \<open>statements that leave the database as it is\<close>

lemma read_only_queries [reading]:
  "read_only (GetAPIKeyByHash hash)"
  "read_only (GetUploadIntentByFileKeyForUpdate P key t)"
  "read_only (ListJobs_q P t status k n)"
  "read_only (CountJobs_q P t status)"
  "read_only (GetJobByID_q P i t)"
  "read_only (GetJobByIDAllTenants_q P i)"
  "read_only (ListJobsForRetention_q older)"
  "read_only (GetSegmentByName P t name)"
  "read_only (ListSegmentNamesByJobID P job t)"
  "read_only (ListSegmentNamesByVideoID P vid t)"
  "read_only (GetVideoByID_q P i t)"
  "read_only (ListVideos_q P t status name1 k n)"
  "read_only (CountVideos_q P t status name1)"
  "read_only (GetSummaryByVideoID_q P vid t)"
  unfolding read_defs
  by ((rule read_only_uuid)+, simp add: read_only_def | simp add: read_only_def)+

lemma read_only_search [reading]: "read_only (SearchChunks_q P t name1 emb n)"
proof -
  have "snd (SearchChunks_q P t name1 emb n d) = d" for d
    by (auto simp: SearchChunks_q_def uuid_arg_def violation_def fail_def split: option.split)
  then show ?thesis by (simp add: read_only_def)
qed

lemma only_tenant_read [frame]: "read_only q \<Longrightarrow> only_tenant t q"
  by (simp add: read_only_def keeps_def)

lemma frame_audit [frame]: "only_tenant (canon P (a_tenant a)) (InsertAuditLog P a)"
  unfolding InsertAuditLog_def
  by (rule only_tenant_uuid, rule only_tenant_uuid, rule only_tenant_same, rule guarded_db)
    (simp add: canon_def outside_def Let_def)

lemma frame_intent [frame]: "only_tenant (canon P (i_tenant i)) (CreateUploadIntent P i)"
  unfolding CreateUploadIntent_def
  by (rule only_tenant_uuid, rule only_tenant_uuid, rule only_tenant_same, rule guarded_db)
    (simp add: canon_def outside_def Let_def)

lemma frame_consume [frame]: "only_tenant (canon P t) (MarkUploadIntentConsumed P now key t)"
  unfolding MarkUploadIntentConsumed_def
  by (rule only_tenant_uuid, rule only_tenant_same)
    (simp only: Let_def one_row_db canon_Some, rule outside_update; simp)

lemma frame_job [frame]: "only_tenant (canon P (j_tenant j)) (CreateJob_q P j)"
  unfolding CreateJob_q_def
  by (rule only_tenant_uuid, rule only_tenant_uuid, rule only_tenant_same, rule guarded_db)
    (simp add: canon_def outside_def Let_def)

lemma frame_job_status [frame]: "only_tenant (canon P t) (UpdateJobStatus_q P now i t status stage msg)"
  unfolding UpdateJobStatus_q_def Let_def
  by (rule only_tenant_uuid, rule only_tenant_uuid, rule only_tenant_same, rule guarded_db)
    (simp only: one_row_db canon_Some, rule outside_update; simp add: status_update_def)

lemma frame_job_retry [frame]: "only_tenant (canon P t) (RetryJob_q P now i t)"
  unfolding RetryJob_q_def Let_def
  by (rule only_tenant_uuid, rule only_tenant_uuid, rule only_tenant_same, rule guarded_db)
    (simp only: one_row_db canon_Some, rule outside_update; simp add: retry_update_def)

lemma frame_segment [frame]:
  "only_tenant (canon P (s_tenant a)) (CreateSegment P a)"
  "only_tenant (canon P (s_tenant a)) (EnsureSegmentByName P a)"
  unfolding CreateSegment_def EnsureSegmentByName_def Let_def
  by (rule only_tenant_uuid, rule only_tenant_uuid, rule only_tenant_same, rule guarded_db,
      simp add: canon_def outside_def)+

lemma frame_attach [frame]:
  "only_tenant (canon P t) (AttachJobSegment P job seg t)"
  "only_tenant (canon P t) (AttachVideoSegment P vid seg t)"
  unfolding AttachJobSegment_def AttachVideoSegment_def attach_def Let_def
  by (rule only_tenant_uuid, rule only_tenant_uuid, rule only_tenant_uuid, rule only_tenant_same,
      rule guarded_db, simp add: canon_def outside_def)+

lemma frame_video [frame]: "only_tenant (canon P (v_tenant v)) (CreateVideo_q P v)"
  unfolding CreateVideo_q_def
  by (rule only_tenant_uuid, rule only_tenant_uuid, rule only_tenant_uuid, rule only_tenant_same,
      rule guarded_db) (simp add: canon_def outside_def Let_def)

lemma frame_video_delete [frame]: "only_tenant (canon P t) (SoftDeleteVideo_q P now i t)"
  unfolding SoftDeleteVideo_q_def Let_def
  by (rule only_tenant_uuid, rule only_tenant_uuid, rule only_tenant_same)
    (simp only: one_row_db canon_Some snd_conv, rule outside_update; simp)

lemma frame_video_fail [frame]: "only_tenant (canon P t) (FailVideoByJobID_q P now i t)"
  unfolding FailVideoByJobID_q_def Let_def
  by (rule only_tenant_uuid, rule only_tenant_uuid, rule only_tenant_same)
    (simp only: one_row_db canon_Some snd_conv, rule outside_update; simp)

lemma frame_video_status [frame]: "only_tenant (canon P t) (UpdateVideoStatus_q P now i t status)"
  unfolding UpdateVideoStatus_q_def Let_def
  by (rule only_tenant_uuid, rule only_tenant_uuid, rule only_tenant_same, rule guarded_db)
    (simp only: one_row_db canon_Some snd_conv, rule outside_update; simp)

lemma frame_chunk [frame]: "only_tenant (canon P (c_tenant c)) (InsertChunk_q P c)"
  unfolding InsertChunk_q_def
  by (rule only_tenant_uuid, rule only_tenant_uuid, rule only_tenant_uuid, rule only_tenant_same,
      rule guarded_db) (simp add: canon_def outside_def Let_def)

lemma filter_kept_tenant:
  "filter (\<lambda>r. tn r \<noteq> t) (filter (\<lambda>r. Q r \<longrightarrow> tn r \<noteq> t) rs) = filter (\<lambda>r. tn r \<noteq> t) rs"
  by (induction rs) auto

lemma frame_chunk_delete [frame]: "only_tenant (canon P t) (DeleteChunksByVideoID_q P vid t)"
  unfolding DeleteChunksByVideoID_q_def
  by (rule only_tenant_uuid, rule only_tenant_uuid, rule only_tenant_same)
    (simp add: canon_def outside_def filter_kept_tenant [where tn = c_tenant] del: filter_filter)

section \<open>Through transactions\<close>

text \<open>
  \<open>stable E P\<close>: other sessions keep \<open>P\<close>. A property that is stable and kept by the statements of
  a transaction is kept by the transaction, committed, rolled back or lost.
\<close>

definition stable :: "environ \<Rightarrow> (db \<Rightarrow> bool) \<Rightarrow> bool" where
  "stable E Q \<longleftrightarrow> (\<forall>n d. Q d \<longrightarrow> Q (e_other E n d))"

abbreviation keeps_db :: "(db \<Rightarrow> bool) \<Rightarrow> ('z, 'a) act \<Rightarrow> bool" where
  "keeps_db Q \<equiv> keeps (\<lambda>w. Q (w_db w))"

lemma stmt_keeps:
  assumes "keeps Q q"
  shows "keeps_db Q (stmt E q)"
  unfolding keeps_def
proof (intro allI impI)
  fix w :: "'b world_scheme"
  assume "Q (w_db w)"
  then have "Q (snd (q (w_db w)))" using assms by (simp add: keeps_def)
  then show "Q (w_db (snd (stmt E q w)))" using \<open>Q (w_db w)\<close>
    by (cases "q (w_db w)") (simp add: stmt_def split: option.split)
qed

lemma pool_stmt_keeps:
  assumes "stable E Q" "\<And>now. keeps Q (q now)"
  shows "keeps_db Q (pool_stmt E q)"
  unfolding keeps_def
proof (intro allI impI)
  fix w :: "'b world_scheme"
  assume "Q (w_db w)"
  then have "Q (w_db (w\<lparr>w_db := e_other E (w_tick w) (w_db w)\<rparr>))"
    using assms(1) by (simp add: stable_def)
  with stmt_keeps [OF assms(2), of E "e_time E (w_tick w)"]
  show "Q (w_db (snd (pool_stmt E q w)))" unfolding pool_stmt_def keeps_def by blast
qed

lemma time_now_keeps [io_inv_rules]: "keeps_db Q (time_now E)"
  by (simp add: keeps_def time_now_def)

lemma newUUIDString_keeps [io_inv_rules]: "keeps_db Q (newUUIDString E)"
  by (simp add: keeps_def newUUIDString_def)

lemma tx_keeps:
  assumes "stable E Q" "\<And>now. keeps_db Q (fn now)"
  shows "keeps_db Q (WithTenantTx E t fn)"
  unfolding keeps_def
proof (intro allI impI)
  fix w :: "'a world_scheme"
  assume "Q (w_db w)"
  then have d: "Q (e_other E (w_tick w) (w_db w))" using assms(1) by (simp add: stable_def)
  have "Q (w_db (snd (fn now (w\<lparr>w_db := e_other E (w_tick w) (w_db w), w_tick := n\<rparr>))))" for now n
    using assms(2) [of now] d by (simp add: keeps_def)
  with d show "Q (w_db (snd (WithTenantTx E t fn w)))"
    unfolding WithTenantTx_def Let_def
    by (auto split: option.split prod.split sum.split) (metis snd_conv)+
qed

section \<open>Repositories\<close>

text \<open>
  \<open>calm E t\<close>: the other sessions act for tenant \<open>t\<close> only, or not at all; what then changes
  outside \<open>t\<close> is the doing of the operation itself. \<open>acts_for t m\<close>: nothing does.
\<close>

definition calm :: "environ \<Rightarrow> string \<Rightarrow> bool" where
  "calm E t \<longleftrightarrow> (\<forall>n d. outside t (e_other E n d) = outside t d)"

definition acts_for :: "string \<Rightarrow> ('z, 'a) act \<Rightarrow> bool" where
  "acts_for t m \<longleftrightarrow> (\<forall>X. keeps_db (\<lambda>d. outside t d = X) m)"

named_theorems acting \<open>computations that act for one tenant\<close>

lemma acts_for_iff: "acts_for t m \<longleftrightarrow> (\<forall>w. outside t (w_db (snd (m w))) = outside t (w_db w))"
  by (simp add: acts_for_def keeps_def)

lemma acts_intros [acting]:
  "acts_for t (ret a)"
  "acts_for t (fail e)"
  "acts_for t (time_now E)"
  "acts_for t (newUUIDString E)"
  by (simp_all add: acts_for_iff ret_def fail_def time_now_def newUUIDString_def)

lemma acts_andthen [acting]:
  "acts_for t m \<Longrightarrow> (\<And>a. acts_for t (f a)) \<Longrightarrow> acts_for t (andthen m f)"
  unfolding acts_for_def by (blast intro: keeps_andthen)

lemma acts_map_err [acting]: "acts_for t m \<Longrightarrow> acts_for t (map_err g m)"
  by (simp add: acts_for_iff)

lemma acts_for_each [acting]: "(\<And>x. acts_for t (f x)) \<Longrightarrow> acts_for t (for_each f xs)"
  unfolding acts_for_def by (blast intro: keeps_for_each)

lemma acts_for_collect [acting]: "(\<And>x. acts_for t (f x)) \<Longrightarrow> acts_for t (for_collect f xs)"
  unfolding acts_for_def by (blast intro: keeps_for_collect)

lemma acts_if [acting]: "acts_for t m \<Longrightarrow> acts_for t n \<Longrightarrow> acts_for t (if b then m else n)"
  by simp

lemma acts_stmt [acting]: "only_tenant t q \<Longrightarrow> acts_for t (stmt E q)"
  unfolding acts_for_def using stmt_keeps [where Q = "\<lambda>d. outside t d = X" for X] by blast

lemma acts_stmt_read [acting]: "read_only q \<Longrightarrow> acts_for t (stmt E q)"
  by (rule acts_stmt) (rule only_tenant_read)

lemma acts_tx [acting]:
  "calm E t \<Longrightarrow> (\<And>now. acts_for t (fn now)) \<Longrightarrow> acts_for t (WithTenantTx E u fn)"
  unfolding acts_for_def
  using tx_keeps [of E "\<lambda>d. outside t d = X" fn u for X] by (auto simp: stable_def calm_def)

lemma acts_pool_read [acting]: "calm E t \<Longrightarrow> (\<And>now. read_only (q now)) \<Longrightarrow> acts_for t (pool_stmt E q)"
  unfolding acts_for_def
  using pool_stmt_keeps [of E "\<lambda>d. outside t d = X" q for X] only_tenant_read [of "q now" t for now]
  by (auto simp: stable_def calm_def)

lemma acts_reads [acting]:
  assumes "calm E t"
  shows "acts_for t (Jobs_List E u status page limit)"
    "acts_for t (Jobs_Count E u status)"
    "acts_for t (Jobs_GetByID E id1 u)"
    "acts_for t (Segments_ListNamesByJobID E job u)"
    "acts_for t (Segments_ListNamesByVideoID E vid u)"
    "acts_for t (Videos_List E u name1 status page limit)"
    "acts_for t (Videos_GetByID E vid u)"
    "acts_for t (Videos_Count E u name1 status)"
    "acts_for t (Chunks_Search E u emb name1 limit)"
    "acts_for t (Summaries_GetByVideoID E vid u)"
  unfolding Jobs_List_def Jobs_Count_def Jobs_GetByID_def Segments_ListNamesByJobID_def
    Segments_ListNamesByVideoID_def Videos_List_def Videos_GetByID_def Videos_Count_def
    Chunks_Search_def Summaries_GetByVideoID_def withSegments_def
  by (intro acting reading assms)+

lemma canon_frames:
  "canon P t = u \<Longrightarrow> only_tenant u (RetryJob_q P now i t)"
  "canon P t = u \<Longrightarrow> only_tenant u (UpdateJobStatus_q P now i t status stage msg)"
  "canon P t = u \<Longrightarrow> only_tenant u (SoftDeleteVideo_q P now i t)"
  "canon P t = u \<Longrightarrow> only_tenant u (AttachJobSegment P job seg t)"
  "canon P t = u \<Longrightarrow> only_tenant u (MarkUploadIntentConsumed P now key t)"
  "canon P (a_tenant a) = u \<Longrightarrow> only_tenant u (InsertAuditLog P a)"
  "canon P (i_tenant b) = u \<Longrightarrow> only_tenant u (CreateUploadIntent P b)"
  "canon P (j_tenant j) = u \<Longrightarrow> only_tenant u (CreateJob_q P j)"
  "canon P (s_tenant s) = u \<Longrightarrow> only_tenant u (EnsureSegmentByName P s)"
  by (auto simp: frame simp del: split_paired_All)

lemma acts_writes [acting]:
  assumes "calm E t" "canon (e_pg E) u = t"
  shows "acts_for t (Jobs_Retry E id1 u)"
    "acts_for t (Jobs_UpdateStatus E id1 u status stage msg)"
    "acts_for t (Videos_SoftDelete E vid u)"
    "i_tenant b = u \<Longrightarrow> acts_for t (Intents_Create E b)"
    "a_tenant a = u \<Longrightarrow> acts_for t (InsertAudit E a meta)"
proof -
  show "acts_for t (InsertAudit E a meta)" if "a_tenant a = u"
    using that assms unfolding InsertAudit_def
    by (cases meta) (simp_all, (intro acting canon_frames assms | simp)+)
  show "acts_for t (Jobs_Retry E id1 u)" "acts_for t (Jobs_UpdateStatus E id1 u status stage msg)"
    "acts_for t (Videos_SoftDelete E vid u)"
    unfolding Jobs_Retry_def Jobs_UpdateStatus_def Videos_SoftDelete_def
    by (intro acting canon_frames assms)+
  show "acts_for t (Intents_Create E b)" if "i_tenant b = u"
    using that assms unfolding Intents_Create_def by (intro acting canon_frames assms) simp
qed

section \<open>Successful transactions and statements\<close>

lemma tx_ok:
  assumes "WithTenantTx E u fn w = (Inr a, w')"
  obtains w1 w2 where "fn (e_time E (w_tick w)) w1 = (Inr a, w2)" "w_tick w1 = w_tick w + 2"
    "w_db w1 = e_other E (w_tick w) (w_db w)" "w_db w' = w_db w2"
  using assms unfolding WithTenantTx_def Let_def
  by (auto split: option.splits prod.splits sum.splits if_splits)

lemma tx_okD:
  "WithTenantTx E u fn w = (Inr a, w') \<Longrightarrow>
   \<exists>w1 w2. fn (e_time E (w_tick w)) w1 = (Inr a, w2) \<and> w_tick w1 = w_tick w + 2 \<and>
     w_db w1 = e_other E (w_tick w) (w_db w) \<and> w_db w' = w_db w2"
  by (erule tx_ok) blast

lemma stmt_ok:
  "stmt E q w = (Inr a, w') \<longleftrightarrow> e_fault E (w_tick w) = None \<and>
     (\<exists>d. q (w_db w) = (Inr a, d) \<and> w' = w\<lparr>w_db := d, w_tick := w_tick w + 1\<rparr>)"
  by (cases "q (w_db w)") (auto simp: stmt_def split: option.splits)

lemma uuid_arg_ok: "uuid_arg P s f d = (Inr a, d') \<longleftrightarrow> (\<exists>u. pg_uuid P s = Some u \<and> f u d = (Inr a, d'))"
  by (auto simp: uuid_arg_def violation_def fail_def split: option.split)

lemma guarded_ok: "guarded P cs m d = (Inr a, d') \<longleftrightarrow> (\<forall>c \<in> set cs. fst c) \<and> m d = (Inr a, d')"
  by (induction P cs m rule: guarded.induct) (auto simp: violation_def fail_def)

declare guarded.simps [simp del]

lemma one_row_ok: "one_row rs d = (Inr a, d') \<longleftrightarrow> (\<exists>rs'. rs = a # rs') \<and> d' = d"
  by (auto simp: one_row_def ret_def fail_def split: list.split)

lemma limit_offset_ok:
  "limit_offset P n k rs d = (Inr a, d') \<longleftrightarrow> 0 \<le> n \<and> 0 \<le> k \<and> a = take (nat n) (drop (nat k) rs) \<and> d' = d"
  by (auto simp: limit_offset_def guarded_ok ret_def)

lemmas sql_ok = uuid_arg_ok guarded_ok one_row_ok limit_offset_ok

lemma for_collect_all:
  "for_collect f xs w = (Inr ys, w') \<Longrightarrow> (\<And>x w y w'. x \<in> set xs \<Longrightarrow> f x w = (Inr y, w') \<Longrightarrow> Q y) \<Longrightarrow> \<forall>y \<in> set ys. Q y"
proof (induction xs arbitrary: w ys)
  case (Cons x xs)
  from Cons.prems(1) obtain y w1 ys' where "f x w = (Inr y, w1)" "for_collect f xs w1 = (Inr ys', w')" "ys = y # ys'"
    by (auto simp: io_ok)
  moreover have "Q y" using Cons.prems(2) [of x w y w1] calculation(1) by simp
  moreover have "\<forall>y \<in> set ys'. Q y" using Cons.IH [OF calculation(2)] Cons.prems(2) by fastforce
  ultimately show ?case by simp
qed (simp add: io_ok)

lemma filter_Cons_prop: "filter Q xs = a # rs \<Longrightarrow> Q a \<and> a \<in> set xs"
  by (auto simp: filter_eq_Cons_iff)

lemma guarded_snd: "snd (guarded P cs m d) = (if list_all fst cs then snd (m d) else d)"
  by (induction P cs m rule: guarded.induct) (auto simp: guarded.simps violation_def fail_def)

text \<open>\<open>quiet E\<close>: no other session commits anything.\<close>

definition quiet :: "environ \<Rightarrow> bool" where
  "quiet E \<longleftrightarrow> (\<forall>n d. e_other E n d = d)"

lemma quiet_stable: "quiet E \<Longrightarrow> stable E Q"
  by (simp add: quiet_def stable_def)

lemma tx_failed:
  "WithTenantTx E u fn w = (Inl e, w') \<Longrightarrow> (\<And>n. \<not> e_lost E n) \<Longrightarrow> w_db w' = e_other E (w_tick w) (w_db w)"
  by (auto simp: WithTenantTx_def Let_def split: option.splits prod.splits sum.splits if_splits)

lemma mapJob_self [simp]: "mapJob j = j"
  by (simp add: mapJob_def uuidPtr_def toStrPtr_def toTimePtr_def toTime_def)

end
