(* ===== verification/Chunker.thy ===== *)
theory Chunker
  imports Prelude
begin

text \<open>
  \<open>internal/core/chunker/chunker.go\<close>: the sentence splitter and the overlapping windows. Proved:
  splitting loses nothing but white space, the windows are exactly the overlapping triples of
  sentences, and the sentences of a joined chunk can be recovered by splitting it again.
\<close>

section \<open>Operations\<close>

definition chunkSize :: nat where "chunkSize = 3"
definition stride :: nat where "stride = chunkSize - 1"

text \<open>
  \<open>sentenceSplitter\<close> is the regular expression \<open>[.!?]+\<close>; \<open>FindAllStringIndex\<close> returns the
  positions of its leftmost longest matches, which are the maximal runs of the three bytes.
\<close>

definition is_stop :: "char \<Rightarrow> bool" where
  "is_stop c \<longleftrightarrow> c = CHR ''.'' \<or> c = CHR ''!'' \<or> c = CHR ''?''"

function find_stops :: "nat \<Rightarrow> string \<Rightarrow> (nat \<times> nat) list" where
  "find_stops i [] = []"
| "find_stops i (c # cs) =
     (if is_stop c
      then (let run = length (takeWhile is_stop (c # cs))
            in (i, i + run) # find_stops (i + run) (drop run (c # cs)))
      else find_stops (Suc i) cs)"
  by pat_completeness auto
termination by (relation "measure (\<lambda>(i, s). length s)") (auto simp: less_Suc_eq_le)

fun split_loop :: "string \<Rightarrow> nat \<Rightarrow> (nat \<times> nat) list \<Rightarrow> string list" where
  "split_loop text start [] =
     (let rest = trim_space (drop start text) in if rest \<noteq> [] then [rest] else [])"
| "split_loop text start (idx # idxs) =
     (let stop = snd idx; s = trim_space (drop start (take stop text))
      in if s \<noteq> [] then s # split_loop text stop idxs else split_loop text stop idxs)"

definition splitSentences :: "string \<Rightarrow> string list" where
  "splitSentences text = split_loop text 0 (find_stops 0 text)"

text \<open>The windows, one per value of \<open>start\<close> of the loop in \<open>Chunk\<close>.\<close>

function windows :: "string list \<Rightarrow> nat \<Rightarrow> string list list" where
  "windows ss start =
     (if start < length ss
      then (let stop = min (start + chunkSize) (length ss); w = drop start (take stop ss)
            in if stop = length ss then [w] else w # windows ss (start + stride))
      else [])"
  by pat_completeness auto
termination
  by (relation "measure (\<lambda>(ss, start). length ss - start)") (auto simp: stride_def chunkSize_def)

declare windows.simps [simp del]

definition Chunk :: "string \<Rightarrow> string list" where
  "Chunk text =
     (let sentences = splitSentences text
      in if length sentences = 0 then [] else map (join '' '') (windows sentences 0))"

section \<open>The splitter without indices\<close>

text \<open>The raw segments of a text: up to and including a run of stops, or up to the end.\<close>

function segments :: "string \<Rightarrow> string list" where
  "segments s =
     (let body = takeWhile (\<lambda>c. \<not> is_stop c) s; rest = dropWhile (\<lambda>c. \<not> is_stop c) s
      in if rest = [] then [s]
         else (body @ takeWhile is_stop rest) # segments (dropWhile is_stop rest))"
  by pat_completeness auto
termination
proof (relation "measure length", simp)
  fix s x xa assume "xa = dropWhile (\<lambda>c. \<not> is_stop c) s" "xa \<noteq> []"
  then have "is_stop (hd xa)" "length xa \<le> length s"
    using hd_dropWhile [of "\<lambda>c. \<not> is_stop c" s] by (auto simp: length_dropWhile_le)
  moreover have "length (dropWhile is_stop xa) < length xa"
    using \<open>xa \<noteq> []\<close> \<open>is_stop (hd xa)\<close>
    by (cases xa) (auto simp: less_Suc_eq_le length_dropWhile_le)
  ultimately show "(dropWhile is_stop xa, s) \<in> measure length" by simp
qed

declare segments.simps [simp del]

lemma segments_end: "dropWhile (\<lambda>c. \<not> is_stop c) s = [] \<Longrightarrow> segments s = [s]"
  by (subst segments.simps) (simp only: Let_def simp_thms if_True)

lemma segments_more:
  "dropWhile (\<lambda>c. \<not> is_stop c) s = rest \<Longrightarrow> rest \<noteq> [] \<Longrightarrow>
   segments s = (takeWhile (\<lambda>c. \<not> is_stop c) s @ takeWhile is_stop rest) # segments (dropWhile is_stop rest)"
  by (subst segments.simps) (simp only: Let_def if_False)

definition sents :: "string \<Rightarrow> string list" where
  "sents s = filter (\<lambda>x. x \<noteq> []) (map trim_space (segments s))"

abbreviation no_stop :: "string \<Rightarrow> bool" where
  "no_stop s \<equiv> \<forall>c \<in> set s. \<not> is_stop c"

lemma takeWhile_no_stop:
  "no_stop b \<Longrightarrow> takeWhile (\<lambda>c. \<not> is_stop c) (b @ s) = b @ takeWhile (\<lambda>c. \<not> is_stop c) s"
  "no_stop b \<Longrightarrow> dropWhile (\<lambda>c. \<not> is_stop c) (b @ s) = dropWhile (\<lambda>c. \<not> is_stop c) s"
  by simp_all

lemma segments_no_stop: "no_stop b \<Longrightarrow> segments b = [b]"
  by (rule segments_end) simp

lemma segments_stop:
  assumes "no_stop b" "p \<noteq> []" "\<forall>c \<in> set p. is_stop c" "r = [] \<or> \<not> is_stop (hd r)"
  shows "segments (b @ p @ r) = (b @ p) # segments r"
proof -
  have p: "dropWhile (\<lambda>c. \<not> is_stop c) (p @ r) = p @ r" "takeWhile (\<lambda>c. \<not> is_stop c) (p @ r) = []"
    using assms(2,3) by (cases p; simp)+
  have "takeWhile is_stop (p @ r) = p" "dropWhile is_stop (p @ r) = r"
    using assms(3,4) by (cases r; simp)+
  with p assms segments_more [of "b @ p @ r" "p @ r"] show ?thesis
    by (simp add: takeWhile_no_stop)
qed

lemma split_loop_sents:
  assumes "no_stop b"
  shows "split_loop (p @ b @ s) (length p) (find_stops (length p + length b) s) = sents (b @ s)"
  using assms
proof (induction "length s" arbitrary: s p b rule: less_induct)
  case less
  show ?case
  proof (cases s)
    case Nil
    with less.prems show ?thesis by (simp add: sents_def segments_no_stop Let_def)
  next
    case (Cons c cs)
    show ?thesis
    proof (cases "is_stop c")
      case False
      then have "no_stop (b @ [c])" using less.prems by auto
      from less.hyps [OF _ this, of cs p] Cons False show ?thesis by simp
    next
      case True
      define run where "run = takeWhile is_stop s"
      define rest where "rest = dropWhile is_stop s"
      have s: "s = run @ rest" "run \<noteq> []" "\<forall>c \<in> set run. is_stop c" "rest = [] \<or> \<not> is_stop (hd rest)"
        using Cons True hd_dropWhile [of is_stop s]
        by (auto simp only: run_def rest_def takeWhile_dropWhile_id dest: set_takeWhileD) auto
      have len: "length rest < length s" using s(1,2) by (cases run) auto
      have "find_stops (length p + length b) s =
          (length p + length b, length p + length b + length run) #
            find_stops (length p + length b + length run) rest"
        unfolding run_def rest_def dropWhile_eq_drop
        unfolding Cons using True by (simp only: find_stops.simps if_True Let_def add.assoc)
      moreover have "split_loop (p @ b @ s) (length p + length b + length run)
          (find_stops (length p + length b + length run) rest) = sents rest"
        using less.hyps [OF len, of "[]" "p @ b @ run"] s(1) by (simp add: add.assoc)
      moreover have "sents (b @ s) = filter (\<lambda>x. x \<noteq> []) [trim_space (b @ run)] @ sents rest"
        using segments_stop [OF less.prems s(2-4)] s(1) by (simp add: sents_def)
      ultimately show ?thesis by (simp add: Let_def s(1))
    qed
  qed
qed

lemma splitSentences_sents: "splitSentences text = sents text"
  using split_loop_sents [of "[]" "[]" "text"] by (simp add: splitSentences_def)

section \<open>What a sentence looks like\<close>

text \<open>
  In a raw segment no stop is followed by another byte: read as a list of booleans, stop or not,
  it is sorted. This passes to infixes, hence through trimming.
\<close>

definition one_sentence :: "string \<Rightarrow> bool" where
  "one_sentence s \<longleftrightarrow> sorted (map is_stop s)"

definition closed_sentence :: "string \<Rightarrow> bool" where
  "closed_sentence s \<longleftrightarrow> s \<noteq> [] \<and> is_stop (last s)"

definition sentence_list :: "string list \<Rightarrow> bool" where
  "sentence_list ss \<longleftrightarrow> (\<forall>s \<in> set ss. s \<noteq> [] \<and> trimmed s \<and> one_sentence s) \<and>
     (\<forall>s \<in> set (butlast ss). closed_sentence s)"

lemma one_sentence_split:
  "one_sentence s \<Longrightarrow> \<exists>b p. s = b @ p \<and> no_stop b \<and> (\<forall>c \<in> set p. is_stop c)"
proof (induction s)
  case (Cons c s)
  show ?case
  proof (cases "is_stop c")
    case True
    with Cons.prems have "\<forall>d \<in> set (c # s). is_stop d" by (auto simp: one_sentence_def)
    then show ?thesis by (intro exI [of _ "[]"] exI [of _ "c # s"]) simp
  next
    case False
    from Cons obtain b p where "s = b @ p" "no_stop b" "\<forall>c \<in> set p. is_stop c"
      by (auto simp: one_sentence_def)
    with False show ?thesis by (intro exI [of _ "c # b"] exI [of _ p]) simp
  qed
qed simp

lemma one_sentence_infix: "one_sentence (a @ s @ b) \<Longrightarrow> one_sentence s"
  by (auto simp: one_sentence_def sorted_append)

lemma blank_no_stop: "blank s \<Longrightarrow> no_stop s"
proof -
  assume "blank s"
  then obtain ws where "set ws \<subseteq> set white_space" "s = concat ws" by (auto simp: blank_def)
  moreover have "\<forall>w \<in> set white_space. no_stop w" by (simp add: white_space_def is_stop_def)
  ultimately show "no_stop s" by fastforce
qed

lemma segments_one_sentence: "s \<in> set (segments t) \<Longrightarrow> one_sentence s"
proof (induction t rule: segments.induct)
  case (1 t)
  define rest where "rest = dropWhile (\<lambda>c. \<not> is_stop c) t"
  show ?case
  proof (cases "rest = []")
    case True
    then have "\<forall>c \<in> set t. is_stop c = False" by (simp add: rest_def)
    moreover have "s = t" using 1(2) segments_end True by (simp add: rest_def)
    moreover have "map is_stop t = replicate (length t) False"
      using calculation(1) by (simp add: map_replicate_const [symmetric])
    ultimately show ?thesis by (simp add: one_sentence_def)
  next
    case False
    then have "s = takeWhile (\<lambda>c. \<not> is_stop c) t @ takeWhile is_stop rest \<or>
        s \<in> set (segments (dropWhile is_stop rest))"
      using 1(2) segments_more [OF rest_def [symmetric] False] by simp
    moreover have "one_sentence (takeWhile (\<lambda>c. \<not> is_stop c) t @ takeWhile is_stop rest)"
    proof -
      have "map is_stop (takeWhile (\<lambda>c. \<not> is_stop c) t) = replicate (length (takeWhile (\<lambda>c. \<not> is_stop c) t)) False"
        "map is_stop (takeWhile is_stop rest) = replicate (length (takeWhile is_stop rest)) True"
        by (auto simp: map_replicate_const [symmetric] dest: set_takeWhileD)
      then show ?thesis by (simp add: one_sentence_def sorted_append)
    qed
    ultimately show ?thesis using 1(1) [OF refl rest_def False] by blast
  qed
qed

lemma segments_closed: "s \<in> set (butlast (segments t)) \<Longrightarrow> closed_sentence s"
proof (induction t rule: segments.induct)
  case (1 t)
  define rest where "rest = dropWhile (\<lambda>c. \<not> is_stop c) t"
  show ?case
  proof (cases "rest = []")
    case True
    then show ?thesis using 1(2) segments_end by (simp add: rest_def)
  next
    case False
    then have stop: "is_stop (hd rest)" using hd_dropWhile rest_def by blast
    then have p: "takeWhile is_stop rest \<noteq> []" using False by (cases rest) auto
    have "s = takeWhile (\<lambda>c. \<not> is_stop c) t @ takeWhile is_stop rest \<or>
        s \<in> set (butlast (segments (dropWhile is_stop rest)))"
      using 1(2) segments_more [OF rest_def [symmetric] False] by (simp split: if_splits)
    moreover have "closed_sentence (takeWhile (\<lambda>c. \<not> is_stop c) t @ takeWhile is_stop rest)"
      using p set_takeWhileD [OF last_in_set [OF p]] by (simp add: closed_sentence_def)
    ultimately show ?thesis using 1(1) [OF refl rest_def False] by blast
  qed
qed

lemma set_butlast_filter: "set (butlast (filter P xs)) \<subseteq> set (butlast xs)"
  by (induction xs rule: rev_induct) (auto simp: butlast_append dest: in_set_butlastD)

lemma trim_closed: "\<lbrakk> closed_sentence s; trim_space s \<noteq> [] \<rbrakk> \<Longrightarrow> closed_sentence (trim_space s)"
proof -
  assume s: "closed_sentence s" "trim_space s \<noteq> []"
  obtain u v where uv: "blank v" "s = u @ trim_space s @ v"
    using trim_space_split by blast
  have "v = []"
  proof (rule ccontr)
    assume v: "v \<noteq> []"
    then have "last s = last v" using uv(2) by (metis append_is_Nil_conv last_appendR)
    moreover have "\<not> is_stop (last v)" using blank_no_stop [OF uv(1)] v by auto
    ultimately show False using s(1) by (simp add: closed_sentence_def)
  qed
  with uv s show ?thesis by (metis append_Nil2 closed_sentence_def last_appendR)
qed

lemma sentence_list_sents: "sentence_list (sents t)"
proof -
  have "closed_sentence s" if "s \<in> set (butlast (sents t))" for s
  proof -
    have "s \<in> set (butlast (map trim_space (segments t)))" "s \<noteq> []"
      using that set_butlast_filter in_set_butlastD by (fastforce simp: sents_def)+
    then show ?thesis by (auto simp: map_butlast [symmetric] intro: trim_closed segments_closed)
  qed
  moreover have "trimmed s \<and> one_sentence s" if s: "s \<in> set (sents t)" for s
  proof -
    obtain r where r: "r \<in> set (segments t)" "s = trim_space r" using s by (auto simp: sents_def)
    obtain u v where "r = u @ s @ v" using trim_space_split r(2) by blast
    then have "one_sentence s" using segments_one_sentence [OF r(1)] one_sentence_infix by blast
    moreover have "trimmed s" unfolding r(2) by (rule trimmed_trim_space)
    ultimately show ?thesis by blast
  qed
  ultimately show ?thesis by (auto simp: sentence_list_def) (auto simp: sents_def)
qed

section \<open>Windows in closed form\<close>

definition window_count :: "nat \<Rightarrow> nat" where
  "window_count n = (if n \<le> 1 then n else n div 2)"

lemma windows_even:
  "2 * i < n \<Longrightarrow> n = length ss \<Longrightarrow> i = 0 \<or> 2 * i + 1 < n \<Longrightarrow>
   windows ss (2 * i) = map (\<lambda>j. take 3 (drop (2 * j) ss)) [i..<window_count n]"
proof (induction "n - 2 * i" arbitrary: i rule: less_induct)
  case less
  have w: "drop (2 * i) (take (min (2 * i + 3) n) ss) = take 3 (drop (2 * i) ss)"
    using less.prems(2) by (simp add: drop_take min_def)
  show ?case
  proof (cases "2 * i + 3 < n")
    case True
    then have "windows ss (2 * (i + 1)) =
        map (\<lambda>j. take 3 (drop (2 * j) ss)) [i + 1..<window_count n]"
      using less.prems by (intro less.hyps) auto
    moreover have "i < window_count n" using True by (auto simp: window_count_def)
    ultimately show ?thesis using less.prems True w
      by (subst windows.simps)
        (simp add: chunkSize_def stride_def Let_def upt_conv_Cons min_def)
  next
    case False
    then have "window_count n = i + 1" using less.prems by (auto simp: window_count_def)
    then show ?thesis using less.prems False w
      by (subst windows.simps) (simp add: chunkSize_def Let_def min_def)
  qed
qed

lemma windows_closed:
  "ss \<noteq> [] \<Longrightarrow> windows ss 0 = map (\<lambda>j. take 3 (drop (2 * j) ss)) [0..<window_count (length ss)]"
  using windows_even [of 0 "length ss" ss] by simp

lemma Chunk_closed:
  "Chunk t = map (\<lambda>j. join '' '' (take 3 (drop (2 * j) (splitSentences t))))
     [0..<window_count (length (splitSentences t))]"
proof (cases "splitSentences t = []")
  case True
  then show ?thesis by (simp add: Chunk_def window_count_def)
next
  case False
  then show ?thesis by (simp add: Chunk_def Let_def windows_closed)
qed

section \<open>Splitting a joined window\<close>

lemma strip_space [simp]: "strip_any white_space (CHR '' '' # s) = Some s"
  by (simp add: white_space_def)

lemma trim_space_space [simp]: "trim_space (CHR '' '' # s) = trim_space s"
  by (simp add: trim_space_def trim_left_def)

lemma trim_fuel_None: "strip_any es s = None \<Longrightarrow> trim_fuel n es s = s"
  by (cases n) simp_all

lemma trim_space_trimmed: "trimmed s \<Longrightarrow> trim_space s = s"
  by (simp add: trimmed_def trim_space_def trim_left_def trim_right_def trim_fuel_None)

lemma is_stop_space [simp]: "\<not> is_stop (CHR '' '')"
  by (simp add: is_stop_def)

lemma sents_space: "sents (CHR '' '' # s) = sents s"
proof (cases "dropWhile (\<lambda>c. \<not> is_stop c) s = []")
  case True
  then show ?thesis using segments_end [of s] segments_end [of "CHR '' '' # s"]
    by (simp add: sents_def)
next
  case False
  then show ?thesis
    using segments_more [OF refl False] segments_more [of "CHR '' '' # s", OF refl] by (simp add: sents_def)
qed

lemma closed_one_sentence:
  assumes "closed_sentence s" "one_sentence s"
  obtains b p where "s = b @ p" "no_stop b" "p \<noteq> []" "\<forall>c \<in> set p. is_stop c"
proof -
  obtain b p where bp: "s = b @ p" "no_stop b" "\<forall>c \<in> set p. is_stop c"
    using one_sentence_split [OF assms(2)] by blast
  moreover have "p \<noteq> []"
    using bp assms(1) last_in_set [of b] by (auto simp: closed_sentence_def)
  ultimately show ?thesis using that by blast
qed

lemma sents_closed:
  assumes "closed_sentence s" "one_sentence s" "trimmed s" "r = [] \<or> \<not> is_stop (hd r)"
  shows "sents (s @ r) = s # sents r"
proof -
  obtain b p where "s = b @ p" "no_stop b" "p \<noteq> []" "\<forall>c \<in> set p. is_stop c"
    using assms(1,2) by (rule closed_one_sentence)
  moreover have "s \<noteq> []" using assms(1) by (simp add: closed_sentence_def)
  ultimately show ?thesis using segments_stop [of b p r] assms(3,4)
    by (simp add: sents_def trim_space_trimmed)
qed

lemma sents_Nil [simp]: "sents [] = []"
  by (simp add: sents_def segments_no_stop trim_space_def trim_left_def trim_right_def)

lemma sents_single:
  assumes "s \<noteq> []" "one_sentence s" "trimmed s"
  shows "sents s = [s]"
proof (cases "closed_sentence s")
  case True
  with sents_closed [of s "[]"] assms show ?thesis by simp
next
  case False
  obtain b p where bp: "s = b @ p" "no_stop b" "\<forall>c \<in> set p. is_stop c"
    using one_sentence_split [OF assms(2)] by blast
  have "p = []"
  proof (rule ccontr)
    assume "p \<noteq> []"
    with bp last_in_set [of p] assms(1) False show False by (simp add: closed_sentence_def)
  qed
  with bp assms show ?thesis by (simp add: sents_def segments_no_stop trim_space_trimmed)
qed

lemma sents_join: "sentence_list w \<Longrightarrow> sents (join '' '' w) = w"
proof (induction "'' ''" w rule: join.induct)
  case 2
  then show ?case by (simp add: sentence_list_def sents_single)
next
  case (3 x y zs)
  then have "sents (x @ '' '' @ join '' '' (y # zs)) = x # sents ('' '' @ join '' '' (y # zs))"
    by (intro sents_closed) (auto simp: sentence_list_def)
  moreover have "sentence_list (y # zs)" using 3(2) by (auto simp: sentence_list_def)
  ultimately show ?case using 3(1) by (simp add: sents_space)
qed simp

lemma set_butlast_infix: "set (butlast w) \<subseteq> set (butlast (a @ w @ b))"
  by (auto simp: butlast_append dest: in_set_butlastD)

lemma sentence_list_infix: "sentence_list (a @ w @ b) \<Longrightarrow> sentence_list w"
  using set_butlast_infix [of w a b] unfolding sentence_list_def by auto

lemma sentence_list_window: "sentence_list ss \<Longrightarrow> sentence_list (take n (drop m ss))"
  by (rule sentence_list_infix [of "take m ss" _ "drop n (drop m ss)"])
    (simp only: append_take_drop_id)

text \<open>Reading the windows without the sentence each shares with its predecessor.\<close>

fun merge_windows :: "'a list list \<Rightarrow> 'a list" where
  "merge_windows [] = []"
| "merge_windows (w # ws) = w @ concat (map tl ws)"

lemma concat_tl_windows:
  "2 * i + 1 \<le> length ss \<Longrightarrow>
   concat (map (\<lambda>j. tl (take 3 (drop (2 * j) ss))) [i..<i + k]) = take (2 * k) (drop (2 * i + 1) ss)"
proof (induction k arbitrary: i)
  case (Suc k)
  have a: "tl (take 3 (drop (2 * i) ss)) = take 2 (drop (2 * i + 1) ss)"
    by (simp add: tl_take tl_drop drop_Suc)
  show ?case
  proof (cases "2 * (i + 1) + 1 \<le> length ss")
    case True
    from Suc.IH [OF this] show ?thesis
      using take_add [of 2 "2 * k" "drop (2 * i + 1) ss"]
      by (simp add: upt_conv_Cons a del: upt_Suc)
  next
    case False
    have "tl (take 3 (drop (2 * j) ss)) = []" if "i + 1 \<le> j" for j
      using that False by simp
    then have "concat (map (\<lambda>j. tl (take 3 (drop (2 * j) ss))) [i + 1..<i + Suc k]) = []"
      unfolding concat_eq_Nil_conv by (simp del: upt_Suc)
    then show ?thesis using False a Suc.prems
      by (simp add: upt_conv_Cons del: upt_Suc)
  qed
qed simp

lemma merge_windows_all: "merge_windows (windows ss 0) = ss"
proof (cases "ss = []")
  case True
  then show ?thesis by (simp add: windows.simps)
next
  case False
  then obtain k where k: "window_count (length ss) = Suc k"
    by (cases "window_count (length ss)") (auto simp: window_count_def split: if_splits)
  have "merge_windows (windows ss 0) =
      take 3 ss @ concat (map (\<lambda>j. tl (take 3 (drop (2 * j) ss))) [1..<Suc k])"
    using False by (simp add: windows_closed k upt_conv_Cons comp_def del: upt_Suc)
  also have "\<dots> = take 3 ss @ take (2 * k) (drop 3 ss)"
  proof (cases "3 \<le> length ss")
    case True
    with concat_tl_windows [of 1 ss k] show ?thesis by (simp add: numeral_3_eq_3)
  next
    case f: False
    then have "k = 0" using k by (auto simp: window_count_def split: if_splits)
    then show ?thesis by simp
  qed
  also have "\<dots> = take (2 * k + 3) ss" by (simp add: take_add [symmetric] add.commute)
  also have "\<dots> = ss" using k by (auto simp: window_count_def split: if_splits)
  finally show ?thesis .
qed

section \<open>Nothing but white space is lost\<close>

text \<open>\<open>weave gaps ss\<close>: the sentences with the gaps around and between them.\<close>

fun weave :: "string list \<Rightarrow> string list \<Rightarrow> string" where
  "weave (g # gs) (s # ss) = g @ s @ weave gs ss"
| "weave gs [] = concat gs"
| "weave [] ss = concat ss"

lemma concat_segments: "concat (segments t) = t"
proof (induction t rule: segments.induct)
  case (1 t)
  show ?case
  proof (cases "dropWhile (\<lambda>c. \<not> is_stop c) t = []")
    case True
    then show ?thesis by (simp only: segments_end concat.simps append_Nil2)
  next
    case False
    then show ?thesis using 1 [OF refl refl False] segments_more [OF refl False] by simp
  qed
qed

lemma weave_trimmed:
  "\<exists>gaps. length gaps = Suc (length (filter (\<lambda>x. x \<noteq> []) (map trim_space segs))) \<and>
     (\<forall>g \<in> set gaps. blank g) \<and>
     concat segs = weave gaps (filter (\<lambda>x. x \<noteq> []) (map trim_space segs))"
proof (induction segs)
  case Nil
  show ?case by (intro exI [of _ "[[]]"]) simp
next
  case (Cons seg segs)
  define ss where "ss = filter (\<lambda>x. x \<noteq> []) (map trim_space segs)"
  from Cons obtain gaps where gaps: "length gaps = Suc (length ss)" "\<forall>g \<in> set gaps. blank g"
    "concat segs = weave gaps ss" unfolding ss_def by blast
  then obtain g gs where g: "gaps = g # gs" by (cases gaps) auto
  have pre: "weave ((x @ g) # gs) ss = x @ weave (g # gs) ss" for x
    by (cases ss) simp_all
  obtain u v where uv: "blank u" "blank v" "seg = u @ trim_space seg @ v"
    using trim_space_split by blast
  show ?case
  proof (cases "trim_space seg = []")
    case True
    then have "blank seg" by (rule trim_space_empty_blank)
    with True gaps g pre [of seg] show ?thesis unfolding ss_def
      by (intro exI [of _ "(seg @ g) # gs"]) auto
  next
    case False
    have "concat (seg # segs) = u @ trim_space seg @ weave ((v @ g) # gs) ss"
      using gaps g pre [of v] uv(3) by (metis append.assoc concat.simps(2))
    with False gaps g uv show ?thesis unfolding ss_def
      by (intro exI [of _ "u # (v @ g) # gs"]) auto
  qed
qed

section \<open>Properties\<close>

text \<open>
  Splitting loses nothing but white space: the text is its sentences, in order, with white
  space before, between and after them, and no sentence is empty or has white space at an end.
\<close>

theorem split_keeps_text:
  "\<exists>gaps. length gaps = length (splitSentences t) + 1 \<and> list_all blank gaps \<and>
     t = weave gaps (splitSentences t) \<and>
     list_all (\<lambda>s. s \<noteq> [] \<and> trimmed s \<and> one_sentence s) (splitSentences t)"
proof -
  obtain gaps where "length gaps = Suc (length (sents t))" "\<forall>g \<in> set gaps. blank g"
    "concat (segments t) = weave gaps (sents t)"
    unfolding sents_def using weave_trimmed [of "segments t"] by blast
  then show ?thesis using sentence_list_sents [of t]
    by (intro exI [of _ gaps])
      (auto simp: splitSentences_sents concat_segments sentence_list_def list_all_iff)
qed

text \<open>
  C31. \<open>Chunk\<close> joins the overlapping triples of sentences: window \<open>j\<close> starts at sentence
  \<open>2 * j\<close>, so each window begins with the sentence its predecessor ends with, and reading the
  windows without that shared sentence gives back every sentence of the text, once and in order.
\<close>

theorem chunk_windows:
  "Chunk t = map (join '' '') (windows (splitSentences t) 0) \<and>
   windows (splitSentences t) 0 = map (\<lambda>j. take 3 (drop (2 * j) (splitSentences t)))
     [0..<window_count (length (splitSentences t))] \<and>
   merge_windows (windows (splitSentences t) 0) = splitSentences t"
proof -
  have "windows (splitSentences t) 0 = map (\<lambda>j. take 3 (drop (2 * j) (splitSentences t)))
      [0..<window_count (length (splitSentences t))]"
  proof (cases "splitSentences t = []")
    case True
    then show ?thesis by (simp add: windows.simps window_count_def)
  qed (rule windows_closed)
  moreover from this have "Chunk t = map (join '' '') (windows (splitSentences t) 0)"
    by (simp add: Chunk_closed)
  ultimately show ?thesis using merge_windows_all by blast
qed

text \<open>
  C32. Sentence boundaries stay detectable in joined chunks: splitting every chunk again gives
  exactly the windows it was made of.
\<close>

theorem split_chunk_roundtrip:
  "map splitSentences (Chunk t) = windows (splitSentences t) 0"
proof (cases "splitSentences t = []")
  case True
  then show ?thesis by (simp add: Chunk_def windows.simps)
next
  case False
  have "splitSentences (join '' '' (take 3 (drop (2 * j) (splitSentences t)))) =
      take 3 (drop (2 * j) (splitSentences t))" for j
    unfolding splitSentences_sents
    by (intro sents_join sentence_list_window sentence_list_sents)
  then show ?thesis by (simp add: Chunk_closed windows_closed [OF False])
qed

end
