(* ===== verification/HttpClient.thy ===== *)
theory HttpClient
  imports ApiErrors
begin

text \<open>
  \<open>internal/providers/httpclient/client.go\<close>: requests with retries and exponential backoff. The
  network, the timers and the context are the parameter \<open>transport\<close>; a world \<open>'w\<close> is threaded
  through its operations. Proved: the exact schedule of attempts and waits, and a bound on the
  number of requests for every transport.
\<close>

section \<open>Requests and responses\<close>

type_synonym header = "(string \<times> string list) list"

record request =
  rq_method :: string
  rq_url :: string
  rq_header :: header
  rq_body :: string

text \<open>\<open>rs_body\<close> is what reading the body to its end gives: the bytes, or the read error.\<close>

record response =
  rs_status :: int
  rs_body :: "go_error + string"

text \<open>
  \<open>http.Header\<close> is a map from canonical keys to value lists; \<open>Add\<close> and \<open>Set\<close> canonicalise the
  key when all of its bytes are token bytes.
\<close>

definition header_byte :: "char \<Rightarrow> bool" where
  "header_byte c \<longleftrightarrow> (CHR ''a'' \<le> c \<and> c \<le> CHR ''z'') \<or> (CHR ''A'' \<le> c \<and> c \<le> CHR ''Z'') \<or>
     (CHR ''0'' \<le> c \<and> c \<le> CHR ''9'') \<or> c = CHR 0x27 \<or> c \<in> set ''!#$%&*+-.^_`|~''"

fun canon_bytes :: "bool \<Rightarrow> string \<Rightarrow> string" where
  "canon_bytes upper [] = []"
| "canon_bytes upper (c # cs) =
     (let d = (if upper \<and> CHR ''a'' \<le> c \<and> c \<le> CHR ''z'' then char_of (of_char c - 32 :: nat)
               else if \<not> upper \<and> CHR ''A'' \<le> c \<and> c \<le> CHR ''Z'' then char_of (of_char c + 32 :: nat)
               else c)
      in d # canon_bytes (c = CHR ''-'') cs)"

definition canonical_key :: "string \<Rightarrow> string" where
  "canonical_key k = (if list_all header_byte k then canon_bytes True k else k)"

fun insert_value :: "string \<Rightarrow> string \<Rightarrow> header \<Rightarrow> header" where
  "insert_value k v [] = [(k, [v])]"
| "insert_value k v ((k', vs) # h) =
     (if k = k' then (k', vs @ [v]) # h else (k', vs) # insert_value k v h)"

definition header_add :: "string \<Rightarrow> string \<Rightarrow> header \<Rightarrow> header" where
  "header_add k v h = insert_value (canonical_key k) v h"

definition header_set :: "string \<Rightarrow> string \<Rightarrow> header \<Rightarrow> header" where
  "header_set k v h = (canonical_key k, [v]) # filter (\<lambda>kv. fst kv \<noteq> canonical_key k) h"

definition copy_headers :: "header \<Rightarrow> header" where
  "copy_headers h = fold (\<lambda>kvs. fold (header_add (fst kvs)) (snd kvs)) h []"

section \<open>The client\<close>

record http_client =
  client_timeout :: duration
  maxRetries :: int
  initialWait :: duration
  maxWait :: duration

type_synonym client_option = "http_client \<Rightarrow> http_client"

definition WithMaxRetries :: "int \<Rightarrow> client_option" where
  "WithMaxRetries n c = c\<lparr>maxRetries := n\<rparr>"

definition WithTimeout :: "duration \<Rightarrow> client_option" where
  "WithTimeout d c = c\<lparr>client_timeout := d\<rparr>"

definition newHTTPClient :: "client_option list \<Rightarrow> http_client" where
  "newHTTPClient opts = fold (\<lambda>opt c. opt c) opts
     \<lparr>client_timeout = 30 * second, maxRetries = 2, initialWait = 200 * millisecond,
      maxWait = 4 * second\<rparr>"

definition retryableStatus :: "int \<Rightarrow> bool" where
  "retryableStatus code \<longleftrightarrow> code = 429 \<or> code = 500 \<or> code = 502 \<or> code = 503 \<or> code = 504"

definition nextWait :: "http_client \<Rightarrow> duration \<Rightarrow> duration" where
  "nextWait c wait = (let w = wrap64 (wait * 2) in if maxWait c < w then maxWait c else w)"

text \<open>
  What the client calls: \<open>tr_build\<close> is the error of \<open>http.NewRequestWithContext\<close> for a method
  and URL, \<open>tr_send\<close> is \<open>client.Do\<close>, \<open>tr_ctx\<close> is \<open>ctx.Err()\<close>, \<open>tr_sleep d\<close> is the \<open>select\<close> of
  \<open>sleep\<close> (\<open>Some e\<close>: the context was done first, and then \<open>ctx.Err() = e\<close>; an ended context has
  a non-nil error), \<open>tr_drain\<close> reads a response to its end and closes it.
\<close>

record 'w transport =
  tr_build :: "string \<Rightarrow> string \<Rightarrow> go_error option"
  tr_send :: "request \<Rightarrow> (go_error, 'w, response) io"
  tr_ctx :: "'w \<Rightarrow> go_error option"
  tr_sleep :: "duration \<Rightarrow> 'w \<Rightarrow> go_error option \<times> 'w"
  tr_drain :: "response \<Rightarrow> 'w \<Rightarrow> 'w"

text \<open>One round of a retry loop up to the answer of \<open>client.Do\<close>.\<close>

datatype attempt = GiveUp go_error | NetFailure go_error | Answered response

definition attempt_bytes :: "'w transport \<Rightarrow> string \<Rightarrow> string \<Rightarrow> header \<Rightarrow> string option \<Rightarrow> string
    \<Rightarrow> 'w \<Rightarrow> attempt \<times> 'w" where
  "attempt_bytes tr method url headers body contentType w =
     (case tr_build tr method url of
        Some e \<Rightarrow> (GiveUp (wrapf ''httpclient: build request'' e), w)
      | None \<Rightarrow>
         (let h = copy_headers headers;
              h' = (if body \<noteq> None \<and> contentType \<noteq> [] then header_set ''Content-Type'' contentType h else h)
          in case tr_send tr \<lparr>rq_method = method, rq_url = url, rq_header = h',
                 rq_body = (case body of None \<Rightarrow> [] | Some b \<Rightarrow> b)\<rparr> w of
               (Inl e, w1) \<Rightarrow> (NetFailure e, w1)
             | (Inr r, w1) \<Rightarrow> (Answered r, w1)))"

text \<open>
  The streaming variant: \<open>newBody\<close> makes the body of each attempt (\<open>None\<close>: a nil body), and
  \<open>close\<close> is its \<open>Close\<close>, called when the attempt is abandoned.
\<close>

definition attempt_stream :: "'w transport \<Rightarrow> string \<Rightarrow> string \<Rightarrow> header \<Rightarrow> string
    \<Rightarrow> (go_error, 'w, string option) io \<Rightarrow> ('w \<Rightarrow> 'w) \<Rightarrow> 'w \<Rightarrow> attempt \<times> 'w" where
  "attempt_stream tr method url headers contentType newBody close w =
     (case newBody w of
        (Inl e, w1) \<Rightarrow> (GiveUp e, w1)
      | (Inr None, w1) \<Rightarrow> (GiveUp (Leaf ''httpclient: body provider returned nil body''), w1)
      | (Inr (Some b), w1) \<Rightarrow>
         (case tr_build tr method url of
            Some e \<Rightarrow> (GiveUp (wrapf ''httpclient: build request'' e), close w1)
          | None \<Rightarrow>
             (let h = copy_headers headers;
                  h' = (if contentType \<noteq> [] then header_set ''Content-Type'' contentType h else h)
              in case tr_send tr \<lparr>rq_method = method, rq_url = url, rq_header = h', rq_body = b\<rparr> w1 of
                   (Inl e, w2) \<Rightarrow> (NetFailure e, close w2)
                 | (Inr r, w2) \<Rightarrow> (Answered r, w2))))"

text \<open>
  The loop both functions share. \<open>attempt\<close> is its counter after the increment; it stays below
  \<open>maxRetries + 1\<close>, which bounds the recursion.
\<close>

function retry_loop :: "http_client \<Rightarrow> 'w transport \<Rightarrow> ('w \<Rightarrow> attempt \<times> 'w) \<Rightarrow> (response \<Rightarrow> 'w \<Rightarrow> 'w)
    \<Rightarrow> int \<Rightarrow> duration \<Rightarrow> (go_error, 'w, response) io" where
  "retry_loop c tr once release attempt wait w =
     (case once w of
        (GiveUp e, w1) \<Rightarrow> (Inl e, w1)
      | (NetFailure e, w1) \<Rightarrow>
         (case tr_ctx tr w1 of
            Some ce \<Rightarrow> (Inl ce, w1)
          | None \<Rightarrow>
             (if attempt \<le> maxRetries c
              then (case tr_sleep tr wait w1 of
                      (Some ce, w2) \<Rightarrow> (Inl ce, w2)
                    | (None, w2) \<Rightarrow> retry_loop c tr once release (attempt + 1) (nextWait c wait) w2)
              else (Inl e, w1)))
      | (Answered r, w1) \<Rightarrow>
         (if retryableStatus (rs_status r) \<and> attempt \<le> maxRetries c
          then (case tr_sleep tr wait (release r w1) of
                  (Some ce, w2) \<Rightarrow> (Inl ce, w2)
                | (None, w2) \<Rightarrow> retry_loop c tr once release (attempt + 1) (nextWait c wait) w2)
          else (Inr r, w1)))"
  by pat_completeness auto
termination
  by (relation "measure (\<lambda>(c, tr, once, release, attempt, wait, w). nat (maxRetries c + 1 - attempt))")
    auto

declare retry_loop.simps [simp del]

definition doWithRetry :: "http_client \<Rightarrow> 'w transport \<Rightarrow> string \<Rightarrow> string \<Rightarrow> header
    \<Rightarrow> string option \<Rightarrow> string \<Rightarrow> (go_error, 'w, response) io" where
  "doWithRetry c tr method url headers body contentType =
     retry_loop c tr (attempt_bytes tr method url headers body contentType) (tr_drain tr) 1 (initialWait c)"

definition doWithRetryReader :: "http_client \<Rightarrow> 'w transport \<Rightarrow> string \<Rightarrow> string \<Rightarrow> header
    \<Rightarrow> string \<Rightarrow> (go_error, 'w, string option) io \<Rightarrow> ('w \<Rightarrow> 'w) \<Rightarrow> (go_error, 'w, response) io" where
  "doWithRetryReader c tr method url headers contentType newBody close =
     retry_loop c tr (attempt_stream tr method url headers contentType newBody close)
       (\<lambda>r w. close (tr_drain tr r w)) 1 (initialWait c)"

definition Do :: "http_client \<Rightarrow> 'w transport \<Rightarrow> string \<Rightarrow> string \<Rightarrow> header
    \<Rightarrow> string option \<Rightarrow> string \<Rightarrow> (go_error, 'w, response) io" where
  "Do c tr method url headers body contentType = doWithRetry c tr method url headers body contentType"

definition DoStream :: "http_client \<Rightarrow> 'w transport \<Rightarrow> string \<Rightarrow> string \<Rightarrow> header
    \<Rightarrow> string \<Rightarrow> (go_error, 'w, string option) io \<Rightarrow> ('w \<Rightarrow> 'w) \<Rightarrow> (go_error, 'w, response) io" where
  "DoStream c tr method url headers contentType newBody close =
     doWithRetryReader c tr method url headers contentType newBody close"

definition ResponseError :: "int \<Rightarrow> go_error" where
  "ResponseError code = Leaf (''httpclient: unexpected status '' @ show_int code)"

definition ok_status :: "int \<Rightarrow> bool" where
  "ok_status code \<longleftrightarrow> \<not> (code < 200 \<or> 300 \<le> code)"

text \<open>
  \<open>body\<close> is the result of \<open>json.Marshal\<close> for a non-nil body; \<open>decode\<close> is the decoding of the
  response into \<open>out\<close>, \<open>None\<close> when \<open>out\<close> is nil. Encoding and decoding are \<open>encoding/json\<close>'s.
\<close>

definition DoJSON :: "http_client \<Rightarrow> 'w transport \<Rightarrow> string \<Rightarrow> string \<Rightarrow> header
    \<Rightarrow> (go_error + string) option \<Rightarrow> ((go_error + string) \<Rightarrow> go_error + 'o) option
    \<Rightarrow> (go_error, 'w, 'o option) io" where
  "DoJSON c tr method url headers body decode =
     (case body of
        Some (Inl e) \<Rightarrow> fail (wrapf ''httpclient: marshal request'' e)
      | _ \<Rightarrow>
         andthen (doWithRetry c tr method url headers (map_option projr body) ''application/json'')
           (\<lambda>r. if \<not> ok_status (rs_status r) then fail (ResponseError (rs_status r))
                else (case decode of
                        None \<Rightarrow> ret None
                      | Some dec \<Rightarrow> (case dec (rs_body r) of
                            Inl e \<Rightarrow> fail (wrapf ''httpclient: decode response'' e)
                          | Inr v \<Rightarrow> ret (Some v)))))"

section \<open>Bound on the requests\<close>

text \<open>
  \<open>meters tr sent\<close>: \<open>sent\<close> counts the requests a world has seen. Sending counts one; waiting
  and draining count none.
\<close>

definition meters :: "'w transport \<Rightarrow> ('w \<Rightarrow> nat) \<Rightarrow> bool" where
  "meters tr sent \<longleftrightarrow>
     (\<forall>rq w. sent (snd (tr_send tr rq w)) = sent w + 1) \<and>
     (\<forall>d w. sent (snd (tr_sleep tr d w)) = sent w) \<and>
     (\<forall>r w. sent (tr_drain tr r w) = sent w)"

lemma retry_loop_bound:
  assumes "\<And>w. sent (snd (once w)) \<le> sent w + 1" "\<And>d w. sent (snd (tr_sleep tr d w)) = sent w"
    "\<And>r w. sent (release r w) = sent w"
  shows "sent (snd (retry_loop c tr once release a wait w)) \<le> sent w + nat (maxRetries c + 1 - a) + 1"
proof (induction "nat (maxRetries c + 1 - a)" arbitrary: a wait w rule: less_induct)
  case less
  obtain res w1 where once: "once w = (res, w1)" by fastforce
  then have w1: "sent w1 \<le> sent w + 1" using assms(1) [of w] by simp
  have again: "sent (snd (case tr_sleep tr wait u of (Some ce, w2) \<Rightarrow> (Inl ce, w2)
        | (None, w2) \<Rightarrow> retry_loop c tr once release (a + 1) (nextWait c wait) w2))
      \<le> sent w + nat (maxRetries c + 1 - a) + 1"
    if "a \<le> maxRetries c" "sent u \<le> sent w + 1" for u
  proof -
    obtain o2 w2 where slp: "tr_sleep tr wait u = (o2, w2)" by fastforce
    then have "sent w2 \<le> sent w + 1" using assms(2) [of wait u] that by simp
    moreover have "sent (snd (retry_loop c tr once release (a + 1) (nextWait c wait) w2)) \<le>
        sent w2 + nat (maxRetries c + 1 - (a + 1)) + 1"
      using that by (intro less.hyps) auto
    ultimately show ?thesis using slp that by (cases o2) auto
  qed
  have stop: "sent u \<le> sent w + nat (maxRetries c + 1 - a) + 1" if "sent u \<le> sent w + 1" for u
    using that by simp
  show ?case
  proof (cases res)
    case (GiveUp e)
    then show ?thesis using stop [OF w1] by (subst retry_loop.simps) (simp add: once)
  next
    case (NetFailure e)
    then show ?thesis using w1 stop [OF w1] again [OF _ w1]
      by (subst retry_loop.simps) (simp add: once split: option.split)
  next
    case (Answered r)
    have rel: "sent (release r w1) \<le> sent w + 1" using assms(3) w1 by simp
    show ?thesis using Answered stop [OF w1] again [OF _ rel]
      by (subst retry_loop.simps) (simp add: once)
  qed
qed

lemma send_counts: "meters tr sent \<Longrightarrow> tr_send tr rq w = (r, w1) \<Longrightarrow> sent w1 = sent w + 1"
  unfolding meters_def by (metis snd_conv)

lemma Do_sends:
  assumes "meters tr sent"
  shows "sent (snd (Do c tr m u h b ct w)) \<le> sent w + nat (maxRetries c) + 1"
proof -
  have "sent (snd (attempt_bytes tr m u h b ct w)) \<le> sent w + 1" for w
    by (auto simp: attempt_bytes_def Let_def dest: send_counts [OF assms] split: option.split prod.split sum.split)
  then show ?thesis
    using retry_loop_bound [of sent "attempt_bytes tr m u h b ct" tr "tr_drain tr" c 1] assms
    by (simp add: Do_def doWithRetry_def meters_def)
qed

lemma DoStream_sends:
  assumes "meters tr sent" "\<And>w. sent (close w) = sent w" "\<And>w. sent (snd (newBody w)) = sent w"
  shows "sent (snd (DoStream c tr m u h ct newBody close w)) \<le> sent w + nat (maxRetries c) + 1"
proof -
  have "sent (snd (attempt_stream tr m u h ct newBody close w)) \<le> sent w + 1" for w
    using assms(3) [of w]
    by (auto simp: attempt_stream_def Let_def assms(2) dest: send_counts [OF assms(1)]
        split: option.split prod.split sum.split)
  then show ?thesis
    using retry_loop_bound [of sent "attempt_stream tr m u h ct newBody close" tr
        "\<lambda>r w. close (tr_drain tr r w)" c 1] assms(1,2)
    by (simp add: DoStream_def doWithRetryReader_def meters_def)
qed

lemma DoJSON_sends:
  assumes "meters tr sent"
  shows "sent (snd (DoJSON c tr m u h body dec w)) \<le> sent w + nat (maxRetries c) + 1"
proof -
  obtain r w1 where d: "doWithRetry c tr m u h (map_option projr body) ''application/json'' w = (r, w1)" by fastforce
  then have "sent w1 \<le> sent w + nat (maxRetries c) + 1"
    using Do_sends [OF assms, of c m u h "map_option projr body" "''application/json''" w] by (simp add: Do_def)
  with d show ?thesis
    by (auto simp: DoJSON_def andthen_def fail_def ret_def split: option.split sum.split)
qed

section \<open>The schedule\<close>

text \<open>
  A world that answers attempt \<open>i\<close> with \<open>f i\<close> and keeps the count of requests and the waits;
  its context never ends.
\<close>

record script_world =
  sw_sent :: nat
  sw_waits :: "duration list"

definition scripted :: "(nat \<Rightarrow> go_error + response) \<Rightarrow> script_world transport" where
  "scripted f = \<lparr>tr_build = (\<lambda>m u. None),
     tr_send = (\<lambda>rq w. (f (sw_sent w), w\<lparr>sw_sent := sw_sent w + 1\<rparr>)),
     tr_ctx = (\<lambda>w. None),
     tr_sleep = (\<lambda>d w. (None, w\<lparr>sw_waits := sw_waits w @ [d]\<rparr>)),
     tr_drain = (\<lambda>r w. w)\<rparr>"

definition transient :: "go_error + response \<Rightarrow> bool" where
  "transient o1 = (case o1 of Inl e \<Rightarrow> True | Inr r \<Rightarrow> retryableStatus (rs_status r))"

definition scripted_once :: "(nat \<Rightarrow> go_error + response) \<Rightarrow> script_world \<Rightarrow> attempt \<times> script_world" where
  "scripted_once f w = (case f (sw_sent w) of Inl e \<Rightarrow> NetFailure e | Inr r \<Rightarrow> Answered r,
     w\<lparr>sw_sent := sw_sent w + 1\<rparr>)"

lemma retry_loop_scripted:
  "k = length (takeWhile (\<lambda>i. transient (f (sw_sent w + i))) [0..<nat (maxRetries c + 1 - a)]) \<Longrightarrow>
   retry_loop c (scripted f) (scripted_once f) (\<lambda>r w. w) a wait w =
     (f (sw_sent w + k), \<lparr>sw_sent = sw_sent w + k + 1,
        sw_waits = sw_waits w @ map (\<lambda>i. (nextWait c ^^ i) wait) [0..<k]\<rparr>)"
proof (induction "nat (maxRetries c + 1 - a)" arbitrary: a wait w k)
  case 0
  then have "\<not> a \<le> maxRetries c" "k = 0" by auto
  then show ?case
    by (subst retry_loop.simps)
      (auto simp: scripted_once_def scripted_def split: sum.split)
next
  case (Suc n)
  then have n: "n = nat (maxRetries c + 1 - (a + 1))" "a \<le> maxRetries c" by auto
  show ?case
  proof (cases "transient (f (sw_sent w))")
    case False
    then have "k = 0" using Suc.prems Suc.hyps(2) [symmetric] by (simp add: upt_conv_Cons del: upt_Suc)
    with False show ?thesis
      by (subst retry_loop.simps)
        (auto simp: scripted_once_def scripted_def transient_def split: sum.splits)
  next
    case True
    define w2 where "w2 = \<lparr>sw_sent = sw_sent w + 1, sw_waits = sw_waits w @ [wait]\<rparr>"
    define k' where "k' = length (takeWhile (\<lambda>i. transient (f (sw_sent w2 + i))) [0..<n])"
    have "[0..<Suc n] = 0 # map Suc [0..<n]" by (simp add: upt_conv_Cons map_Suc_upt del: upt_Suc)
    then have k: "k = Suc k'" using True Suc.prems
      by (simp add: Suc.hyps(2) [symmetric] k'_def w2_def takeWhile_map comp_def)
    have "retry_loop c (scripted f) (scripted_once f) (\<lambda>r w. w) a wait w =
        retry_loop c (scripted f) (scripted_once f) (\<lambda>r w. w) (a + 1) (nextWait c wait) w2"
      using True n(2)
      by (subst retry_loop.simps)
        (cases w; auto simp: scripted_once_def scripted_def transient_def w2_def split: sum.splits)
    also have "\<dots> = (f (sw_sent w2 + k'), \<lparr>sw_sent = sw_sent w2 + k' + 1,
        sw_waits = sw_waits w2 @ map (\<lambda>i. (nextWait c ^^ i) (nextWait c wait)) [0..<k']\<rparr>)"
      using Suc.hyps(1) [OF n(1)] n(1) by (simp add: k'_def)
    also have "map (\<lambda>i. (nextWait c ^^ i) (nextWait c wait)) [0..<k'] =
        map (\<lambda>i. (nextWait c ^^ i) wait) [1..<Suc k']"
      by (simp add: map_Suc_upt [symmetric] funpow_swap1 comp_def del: upt_Suc)
    finally show ?thesis by (simp add: k w2_def upt_conv_Cons del: upt_Suc)
  qed
qed

text \<open>The waits of a client made by \<open>New\<close>: doubling from 200 ms, at most 4 s.\<close>

definition backoff :: "nat \<Rightarrow> duration" where
  "backoff i = min (200 * millisecond * 2 ^ i) (4 * second)"

lemma nextWait_backoff:
  assumes "maxWait c = 4 * second"
  shows "(nextWait c ^^ i) (200 * millisecond) = backoff i"
proof (induction i)
  case 0
  show ?case by (simp add: backoff_def millisecond_def second_def)
next
  case (Suc i)
  have "0 \<le> backoff i" "backoff i \<le> 4 * second"
    by (simp_all add: backoff_def millisecond_def second_def)
  then have "wrap64 (backoff i * 2) = backoff i * 2"
    by (intro wrap64_small) (simp_all add: second_def)
  then have "nextWait c (backoff i) = (if 4 * second < backoff i * 2 then 4 * second else backoff i * 2)"
    using assms by (simp add: nextWait_def Let_def)
  moreover have "(nextWait c ^^ Suc i) (200 * millisecond) = nextWait c (backoff i)"
    by (simp add: Suc)
  ultimately show ?case by (auto simp: backoff_def min_def second_def millisecond_def)
qed

lemma newHTTPClient_retries:
  "newHTTPClient [WithTimeout d, WithMaxRetries n] =
     \<lparr>client_timeout = d, maxRetries = n, initialWait = 200 * millisecond, maxWait = 4 * second\<rparr>"
  by (simp add: newHTTPClient_def WithMaxRetries_def WithTimeout_def)

lemma attempt_bytes_scripted:
  "attempt_bytes (scripted f) m u h b ct = scripted_once f"
  by (rule ext) (auto simp: attempt_bytes_def scripted_def scripted_once_def Let_def split: sum.splits)

section \<open>Properties\<close>

text \<open>
  C36. The retry schedule: a client with \<open>n\<close> retries repeats a request as long as it meets a
  network failure or one of the statuses 429, 500, 502, 503, 504, at most \<open>n\<close> times, waiting
  200 ms before the first repetition and twice as long before each following one, never more
  than 4 s; it returns the answer of the last attempt.
\<close>

theorem retry_schedule:
  assumes "k = length (takeWhile (\<lambda>i. transient (f i)) [0..<nat n])"
  shows "Do (newHTTPClient [WithTimeout d, WithMaxRetries n]) (scripted f) m u h b ct
      \<lparr>sw_sent = 0, sw_waits = []\<rparr> =
    (f k, \<lparr>sw_sent = k + 1, sw_waits = map backoff [0..<k]\<rparr>)"
proof -
  let ?c = "newHTTPClient [WithTimeout d, WithMaxRetries n]"
  have "tr_drain (scripted f) = (\<lambda>r w. w)" by (simp add: scripted_def)
  then show ?thesis
    using retry_loop_scripted [of k f "\<lparr>sw_sent = 0, sw_waits = []\<rparr>" ?c 1 "200 * millisecond"] assms
      nextWait_backoff [of ?c]
    by (simp add: Do_def doWithRetry_def attempt_bytes_scripted newHTTPClient_retries)
qed

lemma retry_schedule_witness:
  "Do (newHTTPClient [WithTimeout 1, WithMaxRetries 2])
     (scripted (\<lambda>i. if i = 0 then Inl NoRows else Inr \<lparr>rs_status = 200, rs_body = Inr ''x''\<rparr>))
     ''GET'' ''u'' [] None [] \<lparr>sw_sent = 0, sw_waits = []\<rparr> =
   (Inr \<lparr>rs_status = 200, rs_body = Inr ''x''\<rparr>, \<lparr>sw_sent = 2, sw_waits = [200000000]\<rparr>)"
  using retry_schedule [of 1 "\<lambda>i. if i = 0 then Inl NoRows else Inr \<lparr>rs_status = 200, rs_body = Inr ''x''\<rparr>" 2
      1 "''GET''" "''u''" "[]" None "[]"]
  by (simp add: numeral_2_eq_2 transient_def retryableStatus_def backoff_def millisecond_def second_def)

text \<open>
  For every transport, whatever it answers and whenever the context ends, one call of \<open>Do\<close>
  or \<open>DoStream\<close> sends at most \<open>maxRetries + 1\<close> requests.
\<close>

theorem requests_bounded:
  assumes "meters tr sent" "\<And>w. sent (close w) = sent w" "\<And>w. sent (snd (newBody w)) = sent w"
  shows "sent (snd (Do c tr m u h b ct w)) \<le> sent w + nat (maxRetries c) + 1 \<and>
    sent (snd (DoStream c tr m u h ct newBody close w)) \<le> sent w + nat (maxRetries c) + 1"
  using Do_sends [OF assms(1)] DoStream_sends [OF assms] by blast

lemma requests_bounded_witness:
  "sw_sent (snd (Do (newHTTPClient []) (scripted (\<lambda>i. Inl NoRows)) ''GET'' ''u'' [] None [] 
     \<lparr>sw_sent = 0, sw_waits = []\<rparr>)) \<le> 3"
proof -
  have "meters (scripted (\<lambda>i. Inl NoRows)) sw_sent" by (simp add: meters_def scripted_def)
  from requests_bounded [OF this, where close = "\<lambda>w. w" and newBody = "ret None"
      and c = "newHTTPClient []" and m = "''GET''" and u = "''u''" and h = "[]" and b = None and ct = "[]"
      and w = "\<lparr>sw_sent = 0, sw_waits = []\<rparr>"]
  show ?thesis by (simp add: ret_def newHTTPClient_def)
qed

end
