(* ===== verification/Breaker.thy ===== *)
theory Breaker
  imports ApiErrors
begin

text \<open>
  \<open>internal/circuitbreaker/breaker.go\<close>: the breaker's state, the three critical sections that
  its mutex protects (\<open>State\<close>, \<open>allowAcquire\<close>, \<open>record\<close>), \<open>Execute\<close> as the code composes
  them, and the interleaving of many callers as a step relation over the critical sections and
  the calls in flight. Proved: the counter invariant in every reachable state, fail-fast while
  open, tripping after exactly \<open>MaxFailures\<close> consecutive failures, recovery through a probe,
  the refinement of a three-state specification, and the wedge that an abandoned probe leaves.
\<close>

section \<open>State and operations\<close>

datatype bstate = StateClosed | StateOpen | StateHalfOpen

fun bstate_String :: "bstate \<Rightarrow> string" where
  "bstate_String StateOpen = ''open''"
| "bstate_String StateHalfOpen = ''half-open''"
| "bstate_String StateClosed = ''closed''"

record bconfig =
  MaxFailures :: int
  Timeout :: duration
  HalfOpenMaxCalls :: int

record breaker =
  config :: bconfig
  state :: bstate
  failures :: int
  openedAt :: time
  halfOpenCalls :: int

definition ErrOpen :: go_error where
  "ErrOpen = Leaf ''circuit breaker open''"

definition new_breaker :: "bconfig \<Rightarrow> breaker" where
  "new_breaker cfg = \<lparr>config = cfg, state = StateClosed, failures = 0, openedAt = zero_time,
     halfOpenCalls = 0\<rparr>"

text \<open>\<open>now\<close> is the value the clock returns in the critical section.\<close>

definition evaluateTimeout :: "time \<Rightarrow> breaker \<Rightarrow> breaker" where
  "evaluateTimeout now b =
     (if state b \<noteq> StateOpen then b
      else if Timeout (config b) \<le> 0 then b
      else if Timeout (config b) \<le> time_sub now (openedAt b)
        then b\<lparr>state := StateHalfOpen, halfOpenCalls := 0\<rparr>
      else b)"

definition open_breaker :: "time \<Rightarrow> breaker \<Rightarrow> breaker" where
  "open_breaker now b = b\<lparr>state := StateOpen, openedAt := now, halfOpenCalls := 0\<rparr>"

definition effective_state :: "time \<Rightarrow> breaker \<Rightarrow> bstate \<times> breaker" where
  "effective_state now b = (let b' = evaluateTimeout now b in (state b', b'))"

definition allowAcquire :: "time \<Rightarrow> breaker \<Rightarrow> bool \<times> breaker" where
  "allowAcquire now b0 =
     (let b = evaluateTimeout now b0
      in case state b of
           StateOpen \<Rightarrow> (False, b)
         | StateHalfOpen \<Rightarrow>
             (if 0 < HalfOpenMaxCalls (config b) \<and> HalfOpenMaxCalls (config b) \<le> halfOpenCalls b
              then (False, b)
              else (True, b\<lparr>halfOpenCalls := wrap64 (halfOpenCalls b + 1)\<rparr>))
         | StateClosed \<Rightarrow> (True, b))"

definition record_result :: "time \<Rightarrow> go_error option \<Rightarrow> breaker \<Rightarrow> breaker" where
  "record_result now err b =
     (case err of
        None \<Rightarrow>
          (let b1 = b\<lparr>failures := 0, halfOpenCalls := 0\<rparr>
           in if state b1 = StateHalfOpen then b1\<lparr>state := StateClosed\<rparr> else b1)
      | Some _ \<Rightarrow>
          (if state b = StateHalfOpen then open_breaker now b
           else if state b = StateClosed then
             (let b1 = b\<lparr>failures := wrap64 (failures b + 1)\<rparr>
              in if 0 < MaxFailures (config b1) \<and> MaxFailures (config b1) \<le> failures b1
                 then open_breaker now b1 else b1)
           else b))"

text \<open>
  \<open>Execute\<close> over a world \<open>'w\<close>: \<open>clock\<close> is read at each critical section, and \<open>cancel w\<close> is the
  outcome of the final \<open>select\<close> (\<open>Some e\<close>: the context was done, with \<open>ctx.Err() = e\<close>).
  \<open>Background\<close> stands for \<open>ctx == nil || ctx.Done() == nil\<close>. After a cancellation \<open>fn\<close> still
  runs to its end in the background: its effect on the world stays, its result is dropped.
\<close>

datatype 'w gocontext = Background | Cancellable "'w \<Rightarrow> go_error option"

definition execute :: "('w \<Rightarrow> time) \<Rightarrow> 'w gocontext \<Rightarrow> (go_error, 'w, 'a) io
    \<Rightarrow> breaker \<Rightarrow> 'w \<Rightarrow> (go_error + 'a) \<times> breaker \<times> 'w" where
  "execute clock ctx fn b w =
     (case allowAcquire (clock w) b of
        (False, b1) \<Rightarrow> (Inl ErrOpen, b1, w)
      | (True, b1) \<Rightarrow>
         (case fn w of (r, w1) \<Rightarrow>
            (case ctx of
               Background \<Rightarrow>
                 (r, record_result (clock w1) (case r of Inl e \<Rightarrow> Some e | Inr _ \<Rightarrow> None) b1, w1)
             | Cancellable cancel \<Rightarrow>
                 (case cancel w1 of
                    Some e \<Rightarrow> (Inl e, b1, w1)
                  | None \<Rightarrow>
                     (r, record_result (clock w1)
                           (case r of Inl e \<Rightarrow> Some e | Inr _ \<Rightarrow> None) b1, w1)))))"

lemmas breaker_op_defs = evaluateTimeout_def open_breaker_def effective_state_def
  allowAcquire_def record_result_def Let_def

section \<open>The counter invariant\<close>

definition config_ok :: "bconfig \<Rightarrow> bool" where
  "config_ok c \<longleftrightarrow> is_int64 (MaxFailures c) \<and> is_int64 (HalfOpenMaxCalls c) \<and> is_int64 (Timeout c)"

definition breaker_inv :: "breaker \<Rightarrow> bool" where
  "breaker_inv b \<longleftrightarrow>
     config_ok (config b) \<and>
     (0 < MaxFailures (config b) \<longrightarrow>
        0 \<le> failures b \<and> failures b \<le> MaxFailures (config b) \<and>
        (state b = StateClosed \<longrightarrow> failures b < MaxFailures (config b))) \<and>
     (0 < HalfOpenMaxCalls (config b) \<longrightarrow>
        0 \<le> halfOpenCalls b \<and> halfOpenCalls b \<le> HalfOpenMaxCalls (config b) \<and>
        (state b \<noteq> StateHalfOpen \<longrightarrow> halfOpenCalls b = 0))"

lemma breaker_inv_new: "config_ok c \<Longrightarrow> breaker_inv (new_breaker c)"
  by (simp add: breaker_inv_def new_breaker_def)

lemma evaluateTimeout_config [simp]: "config (evaluateTimeout now b) = config b"
  by (simp add: evaluateTimeout_def)

lemma allowAcquire_config [simp]: "config (snd (allowAcquire now b)) = config b"
  by (simp add: allowAcquire_def Let_def split: bstate.split)

lemma record_result_config [simp]: "config (record_result now err b) = config b"
  by (simp add: record_result_def open_breaker_def Let_def split: option.split)

lemma breaker_inv_evaluateTimeout: "breaker_inv b \<Longrightarrow> breaker_inv (evaluateTimeout now b)"
  by (auto simp: breaker_inv_def evaluateTimeout_def)

lemma wrap64_incr: "\<lbrakk> 0 \<le> x; x < m; is_int64 m \<rbrakk> \<Longrightarrow> wrap64 (x + 1) = x + 1"
  by (simp add: is_int64_def max_int64_def min_int64_def wrap64_small)

lemma breaker_inv_allowAcquire:
  assumes "breaker_inv b" shows "breaker_inv (snd (allowAcquire now b))"
proof -
  let ?b = "evaluateTimeout now b"
  have "breaker_inv ?b" using assms by (rule breaker_inv_evaluateTimeout)
  then show ?thesis
    by (cases "state ?b") 
      (auto simp: allowAcquire_def Let_def breaker_inv_def config_ok_def
        wrap64_incr [of "halfOpenCalls ?b" "HalfOpenMaxCalls (config b)"])
qed

lemma allowAcquire_result:
  "allowAcquire now b = (ok, b1) \<Longrightarrow> config b1 = config b \<and> (breaker_inv b \<longrightarrow> breaker_inv b1)"
  by (metis allowAcquire_config breaker_inv_allowAcquire snd_conv)

lemma breaker_inv_record:
  assumes "breaker_inv b" shows "breaker_inv (record_result now err b)"
proof (cases err)
  case None
  with assms show ?thesis by (auto simp: record_result_def breaker_inv_def Let_def)
next
  case (Some e)
  with assms show ?thesis
    by (cases "state b")
      (auto simp: record_result_def open_breaker_def breaker_inv_def config_ok_def Let_def
        wrap64_incr [of "failures b" "MaxFailures (config b)"])
qed

section \<open>The specification the breaker refines\<close>

text \<open>
  The contract as the package comment states it, over unbounded numbers: closed with a count of
  consecutive failures, open since an instant, or probing with a count of admitted probes. The
  providers construct breakers with positive limits only, which is \<open>config_pos\<close>.
\<close>

datatype phase = Closed int | Open time | Probing int

definition config_pos :: "bconfig \<Rightarrow> bool" where
  "config_pos c \<longleftrightarrow> config_ok c \<and> 0 < MaxFailures c \<and> 0 < Timeout c \<and> 0 < HalfOpenMaxCalls c"

definition abs_breaker :: "breaker \<Rightarrow> phase" where
  "abs_breaker b = (case state b of
      StateClosed \<Rightarrow> Closed (failures b)
    | StateOpen \<Rightarrow> Open (openedAt b)
    | StateHalfOpen \<Rightarrow> Probing (halfOpenCalls b))"

fun spec_tick :: "bconfig \<Rightarrow> time \<Rightarrow> phase \<Rightarrow> phase" where
  "spec_tick c now (Open t) = (if Timeout c \<le> now - t then Probing 0 else Open t)"
| "spec_tick c now p = p"

fun spec_admit :: "bconfig \<Rightarrow> phase \<Rightarrow> bool \<times> phase" where
  "spec_admit c (Open t) = (False, Open t)"
| "spec_admit c (Probing k) =
     (if k < HalfOpenMaxCalls c then (True, Probing (k + 1)) else (False, Probing k))"
| "spec_admit c (Closed n) = (True, Closed n)"

definition spec_acquire :: "bconfig \<Rightarrow> time \<Rightarrow> phase \<Rightarrow> bool \<times> phase" where
  "spec_acquire c now p = spec_admit c (spec_tick c now p)"

fun spec_record :: "bconfig \<Rightarrow> time \<Rightarrow> go_error option \<Rightarrow> phase \<Rightarrow> phase" where
  "spec_record c now None (Closed n) = Closed 0"
| "spec_record c now (Some e) (Closed n) = (if n + 1 < MaxFailures c then Closed (n + 1) else Open now)"
| "spec_record c now err (Open t) = Open t"
| "spec_record c now None (Probing k) = Closed 0"
| "spec_record c now (Some e) (Probing k) = Open now"

lemma abs_new [simp]: "abs_breaker (new_breaker c) = Closed 0"
  by (simp add: abs_breaker_def new_breaker_def)

lemma abs_evaluateTimeout:
  "config_pos (config b) \<Longrightarrow>
   abs_breaker (evaluateTimeout now b) = spec_tick (config b) now (abs_breaker b)"
  by (cases "state b")
    (auto simp: abs_breaker_def evaluateTimeout_def config_pos_def config_ok_def time_sub_ge_pos)

lemma abs_allowAcquire:
  assumes "config_pos (config b)" and "breaker_inv b"
  shows "fst (allowAcquire now b) = fst (spec_acquire (config b) now (abs_breaker b))"
    and "abs_breaker (snd (allowAcquire now b)) = snd (spec_acquire (config b) now (abs_breaker b))"
proof -
  let ?b = "evaluateTimeout now b"
  have inv: "breaker_inv ?b" using assms(2) by (rule breaker_inv_evaluateTimeout)
  have "spec_acquire (config b) now (abs_breaker b) = spec_admit (config b) (abs_breaker ?b)"
    using assms(1) by (simp add: spec_acquire_def abs_evaluateTimeout)
  moreover have "fst (allowAcquire now b) = fst (spec_admit (config b) (abs_breaker ?b)) \<and>
      abs_breaker (snd (allowAcquire now b)) = snd (spec_admit (config b) (abs_breaker ?b))"
    using inv assms(1)
    by (cases "state ?b")
      (auto simp: allowAcquire_def Let_def abs_breaker_def breaker_inv_def config_pos_def config_ok_def
        wrap64_incr [of "halfOpenCalls ?b" "HalfOpenMaxCalls (config b)"])
  ultimately show "fst (allowAcquire now b) = fst (spec_acquire (config b) now (abs_breaker b))"
    "abs_breaker (snd (allowAcquire now b)) = snd (spec_acquire (config b) now (abs_breaker b))"
    by auto
qed

lemma abs_record_result:
  assumes "config_pos (config b)" and "breaker_inv b"
  shows "abs_breaker (record_result now err b) = spec_record (config b) now err (abs_breaker b)"
  using assms
  by (cases "state b"; cases err)
    (auto simp: record_result_def open_breaker_def Let_def abs_breaker_def breaker_inv_def
      config_pos_def config_ok_def wrap64_incr [of "failures b" "MaxFailures (config b)"])

lemmas breaker_refinement = abs_evaluateTimeout abs_allowAcquire abs_record_result

section \<open>Interleaving\<close>

text \<open>
  Any number of goroutines share a breaker. What they can do to it is a sequence of critical
  sections: look at the state, ask for admission, report the result of an admitted call, or
  drop an admitted call because its context was cancelled, in which case \<open>Execute\<close> returns
  without recording. \<open>inflight\<close> counts the admitted calls that have done neither.
\<close>

datatype event =
    Observe time
  | Acquire time bool
  | Finish time "go_error option"
  | Abandon

record bsys =
  br :: breaker
  inflight :: nat

inductive bstep :: "bsys \<Rightarrow> event \<Rightarrow> bsys \<Rightarrow> bool" where
  observe: "bstep s (Observe t) (s\<lparr>br := snd (effective_state t (br s))\<rparr>)"
| admit: "allowAcquire t (br s) = (True, b) \<Longrightarrow>
    bstep s (Acquire t True) (s\<lparr>br := b, inflight := inflight s + 1\<rparr>)"
| refuse: "allowAcquire t (br s) = (False, b) \<Longrightarrow> bstep s (Acquire t False) (s\<lparr>br := b\<rparr>)"
| finish: "0 < inflight s \<Longrightarrow>
    bstep s (Finish t err) (s\<lparr>br := record_result t err (br s), inflight := inflight s - 1\<rparr>)"
| abandon: "0 < inflight s \<Longrightarrow> bstep s Abandon (s\<lparr>inflight := inflight s - 1\<rparr>)"

inductive bruns :: "bsys \<Rightarrow> event list \<Rightarrow> bsys \<Rightarrow> bool" where
  none: "bruns s [] s"
| more: "bstep s e s1 \<Longrightarrow> bruns s1 es s2 \<Longrightarrow> bruns s (e # es) s2"

inductive_cases bstep_ObserveE: "bstep s (Observe t) s'"
inductive_cases bstep_AcquireE: "bstep s (Acquire t a) s'"
inductive_cases bstep_FinishE: "bstep s (Finish t err) s'"
inductive_cases bstep_AbandonE: "bstep s Abandon s'"
inductive_simps bruns_Nil [simp]: "bruns s [] s'"
inductive_simps bruns_Cons: "bruns s (e # es) s'"

lemmas bstep_elims = bstep_ObserveE bstep_AcquireE bstep_FinishE bstep_AbandonE

text \<open>A step is determined by its event, so the relation has an executable reading.\<close>

fun bexec :: "bsys \<Rightarrow> event \<Rightarrow> bsys option" where
  "bexec s (Observe t) = Some (s\<lparr>br := snd (effective_state t (br s))\<rparr>)"
| "bexec s (Acquire t a) = (case allowAcquire t (br s) of (ok, b) \<Rightarrow>
     if ok = a then Some (if ok then s\<lparr>br := b, inflight := inflight s + 1\<rparr> else s\<lparr>br := b\<rparr>) else None)"
| "bexec s (Finish t err) = (if 0 < inflight s
     then Some (s\<lparr>br := record_result t err (br s), inflight := inflight s - 1\<rparr>) else None)"
| "bexec s Abandon = (if 0 < inflight s then Some (s\<lparr>inflight := inflight s - 1\<rparr>) else None)"

fun bexecs :: "bsys \<Rightarrow> event list \<Rightarrow> bsys option" where
  "bexecs s [] = Some s"
| "bexecs s (e # es) = (case bexec s e of None \<Rightarrow> None | Some s1 \<Rightarrow> bexecs s1 es)"

lemma bstep_bexec: "bstep s e s' \<longleftrightarrow> bexec s e = Some s'"
  by (cases e) (auto elim!: bstep_elims intro: bstep.intros bstep.intros [simplified] split: prod.splits if_splits bool.splits)

lemma bruns_bexecs: "bruns s es s' \<longleftrightarrow> bexecs s es = Some s'"
  by (induction es arbitrary: s) (auto simp: bruns_Cons bstep_bexec split: option.splits)

fun event_time :: "event \<Rightarrow> time option" where
  "event_time (Observe t) = Some t"
| "event_time (Acquire t a) = Some t"
| "event_time (Finish t err) = Some t"
| "event_time Abandon = None"

lemma bstep_config: "bstep s e s' \<Longrightarrow> config (br s') = config (br s)"
proof (induction rule: bstep.induct)
  case (admit t s b)
  then show ?case using allowAcquire_config [of t "br s"] by simp
next
  case (refuse t s b)
  then show ?case using allowAcquire_config [of t "br s"] by simp
qed (simp_all add: effective_state_def Let_def)

lemma bstep_inv: "bstep s e s' \<Longrightarrow> breaker_inv (br s) \<Longrightarrow> breaker_inv (br s')"
proof (induction rule: bstep.induct)
  case (admit t s b)
  then show ?case using breaker_inv_allowAcquire [of "br s" t] by simp
next
  case (refuse t s b)
  then show ?case using breaker_inv_allowAcquire [of "br s" t] by simp
qed (simp_all add: effective_state_def Let_def breaker_inv_evaluateTimeout breaker_inv_record)

lemma bruns_inv: "bruns s es s' \<Longrightarrow> breaker_inv (br s) \<Longrightarrow> breaker_inv (br s') \<and> config (br s') = config (br s)"
  by (induction rule: bruns.induct) (simp, metis bstep_inv bstep_config)

text \<open>\<open>Execute\<close> is one of these sequences, with nothing of its own left in flight.\<close>

lemma execute_is_run:
  assumes "execute clock ctx fn b w = (r, b', w')"
  shows "\<exists>es. bruns \<lparr>br = b, inflight = n\<rparr> es \<lparr>br = b', inflight = n\<rparr> \<and>
    (es = [Acquire (clock w) False] \<and> r = Inl ErrOpen \<and> w' = w \<or>
     (\<exists>e. es = [Acquire (clock w) True, Abandon] \<and> r = Inl e) \<or>
     es = [Acquire (clock w) True, Finish (clock w') (case r of Inl e \<Rightarrow> Some e | Inr _ \<Rightarrow> None)])"
proof -
  obtain ok b1 where acq: "allowAcquire (clock w) b = (ok, b1)" by fastforce
  obtain r1 w1 where fn: "fn w = (r1, w1)" by fastforce
  show ?thesis
  proof (cases ok)
    case False
    have "bstep \<lparr>br = b, inflight = n\<rparr> (Acquire (clock w) False) \<lparr>br = b1, inflight = n\<rparr>"
      using bstep.refuse [of "clock w" "\<lparr>br = b, inflight = n\<rparr>" b1] acq False by simp
    then have "bruns \<lparr>br = b, inflight = n\<rparr> [Acquire (clock w) False] \<lparr>br = b1, inflight = n\<rparr>"
      by (simp add: bruns_Cons)
    then show ?thesis using assms acq False by (auto simp: execute_def)
  next
    case True
    have adm: "bstep \<lparr>br = b, inflight = n\<rparr> (Acquire (clock w) True) \<lparr>br = b1, inflight = n + 1\<rparr>"
      using bstep.admit [of "clock w" "\<lparr>br = b, inflight = n\<rparr>" b1] acq True by simp
    have fin: "bstep \<lparr>br = b1, inflight = n + 1\<rparr> (Finish t err) \<lparr>br = record_result t err b1, inflight = n\<rparr>"
      for t err using bstep.finish [of "\<lparr>br = b1, inflight = n + 1\<rparr>" t err] by simp
    have ab: "bstep \<lparr>br = b1, inflight = n + 1\<rparr> Abandon \<lparr>br = b1, inflight = n\<rparr>"
      using bstep.abandon [of "\<lparr>br = b1, inflight = n + 1\<rparr>"] by simp
    have run: "bruns \<lparr>br = b, inflight = n\<rparr> [Acquire (clock w) True, Finish t err]
        \<lparr>br = record_result t err b1, inflight = n\<rparr>" for t err
      using adm fin by (meson bruns.intros)
    have run': "bruns \<lparr>br = b, inflight = n\<rparr> [Acquire (clock w) True, Abandon]
        \<lparr>br = b1, inflight = n\<rparr>"
      using adm ab by (meson bruns.intros)
    show ?thesis
    proof (cases "\<exists>cancel e. ctx = Cancellable cancel \<and> cancel w1 = Some e")
      case True
      then obtain cancel e where "ctx = Cancellable cancel" "cancel w1 = Some e" by blast
      with assms acq fn \<open>ok\<close> have "r = Inl e" "b' = b1" by (simp_all add: execute_def)
      with run' show ?thesis by blast
    next
      case False
      with assms acq fn \<open>ok\<close> have
        "b' = record_result (clock w1) (case r of Inl e \<Rightarrow> Some e | Inr _ \<Rightarrow> None) b1" "w' = w1"
        by (auto simp: execute_def split: gocontext.splits option.splits)
      with run show ?thesis by blast
    qed
  qed
qed

section \<open>Behaviour\<close>

text \<open>One complete call at instants \<open>t\<close> (admission) and \<open>t'\<close> (result), as \<open>Execute\<close> makes it.\<close>

definition seq_call :: "time \<times> time \<times> go_error option \<Rightarrow> breaker \<Rightarrow> breaker" where
  "seq_call = (\<lambda>(t, t', err) b.
     case allowAcquire t b of (True, b1) \<Rightarrow> record_result t' err b1 | (False, b1) \<Rightarrow> b1)"

lemma seq_call_inv:
  "breaker_inv b \<Longrightarrow> breaker_inv (seq_call x b) \<and> config (seq_call x b) = config b"
  by (auto simp: seq_call_def split: prod.splits bool.splits intro: breaker_inv_record
      dest: allowAcquire_result)

lemma fold_seq_call_inv:
  "breaker_inv b \<Longrightarrow> breaker_inv (fold seq_call xs b) \<and> config (fold seq_call xs b) = config b"
  by (induction xs arbitrary: b) (auto simp: seq_call_inv)

lemma seq_call_closed:
  assumes "config_pos (config b)" "breaker_inv b" "abs_breaker b = Closed n"
  shows "abs_breaker (seq_call (t, t', err) b) = spec_record (config b) t' err (Closed n)"
proof -
  obtain ok b1 where acq: "allowAcquire t b = (ok, b1)" by fastforce
  have "breaker_inv b1" "config b1 = config b"
    using breaker_inv_allowAcquire [OF assms(2), of t] allowAcquire_config [of t b] acq by simp_all
  moreover have "ok" "abs_breaker b1 = Closed n"
    using abs_allowAcquire [OF assms(1,2), of t] assms(3) acq by (simp_all add: spec_acquire_def)
  ultimately show ?thesis
    using assms acq by (simp add: seq_call_def abs_record_result)
qed

lemma failing_calls:
  assumes "config_pos c" "int (length xs) < MaxFailures c" "\<forall>x \<in> set xs. snd (snd x) \<noteq> None"
  shows "abs_breaker (fold seq_call xs (new_breaker c)) = Closed (int (length xs))"
  using assms(2,3)
proof (induction xs rule: rev_induct)
  case (snoc x xs)
  let ?b = "fold seq_call xs (new_breaker c)"
  obtain t t' e where x: "x = (t, t', Some e)" using snoc.prems(2) by (cases x) auto
  have "breaker_inv (new_breaker c)" using assms(1) by (simp add: breaker_inv_new config_pos_def)
  then have b: "breaker_inv ?b" "config ?b = c"
    using fold_seq_call_inv by (auto simp: new_breaker_def)
  have "abs_breaker ?b = Closed (int (length xs))" using snoc by simp
  with b assms(1) snoc.prems(1) x show ?case by (simp add: seq_call_closed)
qed simp

fun is_admission :: "event \<Rightarrow> bool" where
  "is_admission (Acquire t a) = a"
| "is_admission _ = False"

fun is_finish :: "event \<Rightarrow> bool" where
  "is_finish (Finish t err) = True"
| "is_finish _ = False"

definition admissions :: "event list \<Rightarrow> int" where
  "admissions es = int (length (filter is_admission es))"

lemma admissions_simps [simp]:
  "admissions [] = 0"
  "admissions (e # es) = (if is_admission e then 1 else 0) + admissions es"
  by (simp_all add: admissions_def)

lemma admit_spec:
  "\<lbrakk> allowAcquire t b = (ok, b1); config_pos (config b); breaker_inv b \<rbrakk> \<Longrightarrow>
   spec_acquire (config b) t (abs_breaker b) = (ok, abs_breaker b1)"
  using abs_allowAcquire [of b t] by (simp add: prod_eq_iff)

lemma bstep_probing:
  assumes "bstep s e s'" "config_pos (config (br s))" "breaker_inv (br s)" "\<not> is_finish e"
    and "abs_breaker (br s) = Probing k"
  shows "abs_breaker (br s') = Probing (k + (if is_admission e then 1 else 0)) \<and>
    (is_admission e \<longrightarrow> k < HalfOpenMaxCalls (config (br s)))"
  using assms
proof (cases rule: bstep.cases)
  case (observe t)
  with assms show ?thesis by (simp add: effective_state_def Let_def abs_evaluateTimeout)
next
  case (admit t b)
  with admit_spec [of t "br s" True b] assms show ?thesis
    by (auto simp: spec_acquire_def split: if_splits)
next
  case (refuse t b)
  with admit_spec [of t "br s" False b] assms show ?thesis
    by (auto simp: spec_acquire_def split: if_splits)
qed simp_all

lemma bstep_open:
  assumes "bstep s e s'" "config_pos (config (br s))" "breaker_inv (br s)" "\<not> is_finish e"
    and "abs_breaker (br s) = Open t0"
  shows "abs_breaker (br s') = Open t0 \<and> \<not> is_admission e \<or>
    abs_breaker (br s') = Probing (if is_admission e then 1 else 0)"
  using assms
proof (cases rule: bstep.cases)
  case (observe t)
  with assms show ?thesis by (simp add: effective_state_def Let_def abs_evaluateTimeout)
next
  case (admit t b)
  with admit_spec [of t "br s" True b] assms show ?thesis
    by (auto simp: spec_acquire_def config_pos_def split: if_splits)
next
  case (refuse t b)
  with admit_spec [of t "br s" False b] assms show ?thesis
    by (auto simp: spec_acquire_def split: if_splits)
qed simp_all

lemma bstep_keeps:
  "bstep s e s' \<Longrightarrow> breaker_inv (br s) \<Longrightarrow>
   breaker_inv (br s') \<and> config (br s') = config (br s)"
  by (simp add: bstep_inv bstep_config)

lemma bruns_probing:
  assumes "bruns s es s'" "config_pos (config (br s))" "breaker_inv (br s)"
    "\<forall>e \<in> set es. \<not> is_finish e" "abs_breaker (br s) = Probing k"
  shows "k + admissions es \<le> max k (HalfOpenMaxCalls (config (br s)))"
  using assms
proof (induction arbitrary: k rule: bruns.induct)
  case (more s e s1 es s2)
  from bstep_probing [OF more.hyps(1) more.prems(1,2) _ more.prems(4)] more.prems(3)
  have s1: "abs_breaker (br s1) = Probing (k + (if is_admission e then 1 else 0))"
    "is_admission e \<Longrightarrow> k < HalfOpenMaxCalls (config (br s))" by auto
  from bstep_keeps [OF more.hyps(1) more.prems(2)] more.IH [OF _ _ _ s1(1)] more.prems
  show ?case using s1(2) by (auto split: if_splits)
qed simp

lemma bruns_open:
  assumes "bruns s es s'" "config_pos (config (br s))" "breaker_inv (br s)"
    "\<forall>e \<in> set es. \<not> is_finish e" "abs_breaker (br s) = Open t0"
  shows "admissions es \<le> HalfOpenMaxCalls (config (br s))"
  using assms
proof (induction rule: bruns.induct)
  case (none s)
  then show ?case by (simp add: config_pos_def)
next
  case (more s e s1 es s2)
  have keep: "breaker_inv (br s1)" "config (br s1) = config (br s)"
    using bstep_keeps [OF more.hyps(1) more.prems(2)] by auto
  from bstep_open [OF more.hyps(1) more.prems(1,2) _ more.prems(4)] more.prems(3)
  consider "abs_breaker (br s1) = Open t0" "\<not> is_admission e"
    | "abs_breaker (br s1) = Probing (if is_admission e then 1 else 0)" by auto
  then show ?case
  proof cases
    case 1
    with more keep show ?thesis by simp
  next
    case 2
    with bruns_probing [OF more.hyps(2) _ _ _ 2] more.prems keep show ?thesis
      by (auto simp: config_pos_def split: if_splits)
  qed
qed

text \<open>While open and before the timeout nothing but the failure counter can change.\<close>

lemma allowAcquire_early:
  "\<lbrakk> state b = StateOpen; time_sub t (openedAt b) < Timeout (config b) \<rbrakk> \<Longrightarrow>
   evaluateTimeout t b = b \<and> allowAcquire t b = (False, b)"
  by (simp add: allowAcquire_def evaluateTimeout_def)

lemma bstep_fail_fast:
  assumes "bstep s e s'" "state (br s) = StateOpen"
    and "\<forall>t. event_time e = Some t \<longrightarrow> time_sub t (openedAt (br s)) < Timeout (config (br s))"
  shows "state (br s') = StateOpen \<and> openedAt (br s') = openedAt (br s) \<and>
    config (br s') = config (br s) \<and> \<not> is_admission e"
  using assms
proof (cases rule: bstep.cases)
  case (observe t)
  with assms show ?thesis by (simp add: allowAcquire_early effective_state_def Let_def)
next
  case (finish t err)
  with assms show ?thesis by (simp add: record_result_def Let_def split: option.split)
qed (simp_all add: allowAcquire_early)

lemma bruns_fail_fast:
  assumes "bruns s es s'" "state (br s) = StateOpen"
    and "\<forall>e \<in> set es. \<forall>t. event_time e = Some t \<longrightarrow>
      time_sub t (openedAt (br s)) < Timeout (config (br s))"
  shows "state (br s') = StateOpen \<and> openedAt (br s') = openedAt (br s) \<and> admissions es = 0"
  using assms
proof (induction rule: bruns.induct)
  case (more s e s1 es s2)
  from bstep_fail_fast [OF more.hyps(1) more.prems(1)] more.prems(2)
  have "state (br s1) = StateOpen \<and> openedAt (br s1) = openedAt (br s) \<and>
    config (br s1) = config (br s) \<and> \<not> is_admission e" by simp
  with more.IH more.prems show ?case by simp
qed simp

text \<open>A half-open breaker whose probe budget is spent by calls nobody will report.\<close>

definition wedged :: "bsys \<Rightarrow> bool" where
  "wedged s \<longleftrightarrow> state (br s) = StateHalfOpen \<and> 0 < HalfOpenMaxCalls (config (br s)) \<and>
     HalfOpenMaxCalls (config (br s)) \<le> halfOpenCalls (br s) \<and> inflight s = 0"

lemma bstep_wedged: "bstep s e s' \<Longrightarrow> wedged s \<Longrightarrow> s' = s \<and> \<not> is_admission e"
  by (induction rule: bstep.induct)
    (auto simp: wedged_def allowAcquire_def evaluateTimeout_def effective_state_def Let_def)

lemma bruns_wedged: "bruns s es s' \<Longrightarrow> wedged s \<Longrightarrow> s' = s \<and> admissions es = 0"
  by (induction rule: bruns.induct) (auto dest: bstep_wedged)

section \<open>The interface for callers\<close>

text \<open>
  What the providers rely on when they run a call under \<open>Execute\<close>: a success is the call's own
  success, and an error either refused the call untouched or came after the call ran.
\<close>

locale call_guard =
  fixes exec :: "(go_error, 'w, 'a) io \<Rightarrow> 'b \<Rightarrow> 'w \<Rightarrow> (go_error + 'a) \<times> 'b \<times> 'w"
  assumes exec_Inr: "exec fn b w = (Inr a, b', w') \<Longrightarrow> fn w = (Inr a, w')"
    and exec_Inl: "exec fn b w = (Inl e, b', w') \<Longrightarrow> w' = w \<or> w' = snd (fn w)"
begin

lemma exec_post:
  assumes "\<And>w a w'. fn w = (Inr a, w') \<Longrightarrow> Q a" and "exec fn b w = (Inr a, b', w')"
  shows "Q a"
  using assms exec_Inr by blast

lemma exec_keeps:
  assumes "keeps P fn" and "P w" and "exec fn b w = (r, b', w')"
  shows "P w'"
proof (cases r)
  case (Inl e)
  with assms show ?thesis using exec_Inl [of fn b w e b' w'] by (auto simp: keeps_def)
next
  case (Inr a)
  with assms show ?thesis using exec_Inr [of fn b w a b' w'] by (metis keepsD)
qed

end

interpretation guard: call_guard "execute clock ctx"
  for clock :: "'w \<Rightarrow> time" and ctx :: "'w gocontext"
proof unfold_locales
  show "fn w = (Inr a, w')" if "execute clock ctx fn b w = (Inr a, b', w')"
    for fn :: "(go_error, 'w, 'a) io" and b w a b' w'
    using that by (auto simp: execute_def split: prod.splits bool.splits gocontext.splits option.splits)
  show "w' = w \<or> w' = snd (fn w)" if "execute clock ctx fn b w = (Inl e, b', w')"
    for fn :: "(go_error, 'w, 'a) io" and b w e b' w'
    using that by (auto simp: execute_def split: prod.splits bool.splits gocontext.splits option.splits)
qed

section \<open>Properties\<close>

text \<open>The configuration both binaries run with when no variable is set, and an open breaker.\<close>

definition demo_config :: bconfig where
  "demo_config = \<lparr>MaxFailures = 3, Timeout = 30 * second, HalfOpenMaxCalls = 1\<rparr>"

definition demo_open :: breaker where
  "demo_open = \<lparr>config = demo_config, state = StateOpen, failures = 3, openedAt = 0, halfOpenCalls = 0\<rparr>"

lemma demo_config_pos: "config_pos demo_config"
  by (simp add: demo_config_def config_pos_def config_ok_def is_int64_def max_int64_def
      min_int64_def second_def)

lemma demo_open: "breaker_inv demo_open" "config demo_open = demo_config"
    "state demo_open = StateOpen" "abs_breaker demo_open = Open 0"
  using demo_config_pos
  by (auto simp: breaker_inv_def demo_open_def config_pos_def abs_breaker_def demo_config_def)

text \<open>
  C24. Refinement: for a breaker with positive limits, the three critical sections of the code,
  with their 64-bit counters and the saturating \<open>Time.Sub\<close>, compute on the abstraction exactly
  what the closed / open / probing specification says, and they keep the counter invariant that
  makes this true.
\<close>
theorem breaker_refines_spec:
  assumes "config_pos (config b)" and "breaker_inv b"
  shows "abs_breaker (evaluateTimeout now b) = spec_tick (config b) now (abs_breaker b) \<and>
    (case allowAcquire now b of (ok, b') \<Rightarrow>
       (ok, abs_breaker b') = spec_acquire (config b) now (abs_breaker b) \<and> breaker_inv b') \<and>
    abs_breaker (record_result now err b) = spec_record (config b) now err (abs_breaker b) \<and>
    breaker_inv (record_result now err b)"
  using assms by (auto simp: abs_evaluateTimeout abs_record_result breaker_inv_record admit_spec
      dest: allowAcquire_result split: prod.split)

theorem breaker_refines_spec_witness:
  "abs_breaker (evaluateTimeout (40 * second) demo_open) = Probing 0 \<and>
   abs_breaker (record_result 5 None demo_open) = Open 0"
proof -
  have "config_pos (config demo_open)" by (simp add: demo_open demo_config_pos)
  from breaker_refines_spec [OF this demo_open(1)] show ?thesis
    by (simp add: demo_open demo_config_def second_def)
qed

text \<open>
  Safety of every interleaving: whatever goroutines do with a fresh breaker, in every state
  reached the failure count of a closed breaker is below \<open>MaxFailures\<close> and the probe count is
  between 0 and \<open>HalfOpenMaxCalls\<close>, and 0 unless half-open; so no counter ever wraps.
\<close>
theorem reachable_breaker_inv:
  assumes "config_ok c" and "bruns \<lparr>br = new_breaker c, inflight = 0\<rparr> es s"
  shows "breaker_inv (br s) \<and> config (br s) = c"
  using bruns_inv [OF assms(2)] breaker_inv_new [OF assms(1)] by (simp add: new_breaker_def)

theorem reachable_breaker_inv_witness:
  "breaker_inv (new_breaker demo_config)"
proof -
  have "config_ok demo_config" using demo_config_pos by (simp add: config_pos_def)
  moreover have "bruns \<lparr>br = new_breaker demo_config, inflight = 0\<rparr>
      [Acquire 7 True, Abandon, Acquire 8 True, Finish 9 None]
      \<lparr>br = new_breaker demo_config, inflight = 0\<rparr>"
    unfolding bruns_bexecs by code_simp
  ultimately show ?thesis using reachable_breaker_inv by fastforce
qed

text \<open>
  A fresh breaker trips after exactly \<open>MaxFailures\<close> consecutive failures: after fewer failed
  calls it is closed and has counted each of them (so every one was admitted), and the call that
  makes the count reach the limit opens it at the instant of that failure.
\<close>
theorem trips_exactly_at_limit:
  assumes "config_pos c" and "int (length xs) \<le> MaxFailures c" and "xs \<noteq> []"
    and "\<forall>x \<in> set xs. snd (snd x) \<noteq> None"
  shows "abs_breaker (fold seq_call xs (new_breaker c)) =
    (if int (length xs) < MaxFailures c then Closed (int (length xs)) else Open (fst (snd (last xs))))"
proof (cases "int (length xs) < MaxFailures c")
  case True
  with failing_calls assms show ?thesis by simp
next
  case False
  let ?b = "fold seq_call (butlast xs) (new_breaker c)"
  obtain t t' e where x: "last xs = (t, t', Some e)"
    using assms(3,4) by (metis last_in_set not_None_eq prod.collapse)
  have "breaker_inv (new_breaker c)" using assms(1) by (simp add: breaker_inv_new config_pos_def)
  then have b: "breaker_inv ?b" "config ?b = c"
    using fold_seq_call_inv by (auto simp: new_breaker_def)
  have "abs_breaker ?b = Closed (int (length xs) - 1)"
    using failing_calls [OF assms(1), of "butlast xs"] assms False
    by (simp add: in_set_butlastD of_nat_diff Suc_leI)
  moreover have "fold seq_call xs (new_breaker c) = seq_call (last xs) ?b"
    using assms(3) by (metis append_butlast_last_id fold.simps fold_append o_apply id_apply)
  ultimately show ?thesis using b assms(1,2) x False by (simp add: seq_call_closed)
qed

theorem trips_exactly_at_limit_witness:
  "abs_breaker (fold seq_call [(1, 2, Some NoRows), (3, 4, Some NoRows), (5, 6, Some NoRows)]
     (new_breaker demo_config)) = Open 6"
  using trips_exactly_at_limit [OF demo_config_pos,
      of "[(1, 2, Some NoRows), (3, 4, Some NoRows), (5, 6, Some NoRows)]"]
  by (simp add: demo_config_def)

text \<open>
  Fail-fast: from an open breaker, as long as every reading of the clock is less than
  \<open>Timeout\<close> after \<open>openedAt\<close>, no sequence of critical sections admits a call, closes the
  breaker or moves \<open>openedAt\<close>, whatever late results of earlier calls arrive.
\<close>
theorem fail_fast_while_open:
  assumes "bruns s es s'" and "state (br s) = StateOpen"
    and "\<forall>e \<in> set es. \<forall>t. event_time e = Some t \<longrightarrow>
      time_sub t (openedAt (br s)) < Timeout (config (br s))"
  shows "state (br s') = StateOpen \<and> openedAt (br s') = openedAt (br s) \<and> admissions es = 0"
  using assms by (rule bruns_fail_fast)

theorem fail_fast_while_open_witness:
  "bruns \<lparr>br = demo_open, inflight = 1\<rparr> [Acquire 5 False, Finish 6 None, Observe 7]
     \<lparr>br = demo_open\<lparr>failures := 0\<rparr>, inflight = 0\<rparr> \<and>
   state (demo_open\<lparr>failures := 0\<rparr>) = StateOpen"
proof -
  have run: "bruns \<lparr>br = demo_open, inflight = 1\<rparr> [Acquire 5 False, Finish 6 None, Observe 7]
      \<lparr>br = demo_open\<lparr>failures := 0\<rparr>, inflight = 0\<rparr>"
    unfolding bruns_bexecs by code_simp
  have "\<forall>e \<in> set [Acquire 5 False, Finish 6 None, Observe 7]. \<forall>t. event_time e = Some t \<longrightarrow>
      time_sub t (openedAt demo_open) < Timeout (config demo_open)"
    by (simp add: demo_open_def demo_config_def time_sub_def max_int64_def min_int64_def second_def)
  with run fail_fast_while_open [OF run] show ?thesis by (simp add: demo_open_def)
qed

text \<open>
  C25. Probe budget: from an open breaker, until some call reports a result, at most
  \<open>HalfOpenMaxCalls\<close> calls are admitted, however many ask, however long they wait and however
  many of the admitted ones are cancelled.
\<close>
theorem probe_budget:
  assumes "bruns s es s'" and "config_pos (config (br s))" and "breaker_inv (br s)"
    and "state (br s) = StateOpen" and "\<forall>e \<in> set es. \<not> is_finish e"
  shows "admissions es \<le> HalfOpenMaxCalls (config (br s))"
  using bruns_open [OF assms(1-3,5)] assms(4) by (simp add: abs_breaker_def)

definition demo_half :: breaker where
  "demo_half = demo_open\<lparr>state := StateHalfOpen, halfOpenCalls := 1\<rparr>"

lemma demo_probe_run:
  "bruns \<lparr>br = demo_open, inflight = 0\<rparr>
     [Acquire 1 False, Acquire (31 * second) True, Acquire (32 * second) False, Abandon]
     \<lparr>br = demo_half, inflight = 0\<rparr>"
  unfolding bruns_bexecs by code_simp

theorem probe_budget_witness:
  "admissions [Acquire 1 False, Acquire (31 * second) True, Acquire (32 * second) False, Abandon]
     \<le> HalfOpenMaxCalls demo_config"
  using probe_budget [OF demo_probe_run] demo_config_pos by (simp add: demo_open)

text \<open>
  Recovery: once \<open>Timeout\<close> has passed since \<open>openedAt\<close> an open breaker admits a call as a
  probe; if it succeeds the breaker is closed with no failures counted, if it fails the breaker
  is open again from the instant of that failure.
\<close>
theorem recovers_through_probe:
  assumes "config_pos (config b)" and "breaker_inv b" and "state b = StateOpen"
    and "Timeout (config b) \<le> now - openedAt b"
  shows "\<exists>b1. allowAcquire now b = (True, b1) \<and> abs_breaker b1 = Probing 1 \<and>
    abs_breaker (record_result now' None b1) = Closed 0 \<and>
    abs_breaker (record_result now' (Some e) b1) = Open now'"
proof -
  obtain ok b1 where acq: "allowAcquire now b = (ok, b1)" by fastforce
  have "abs_breaker b = Open (openedAt b)" using assms(3) by (simp add: abs_breaker_def)
  with admit_spec [OF acq assms(1,2)] assms(1,4) have "ok" "abs_breaker b1 = Probing 1"
    by (auto simp: spec_acquire_def config_pos_def)
  moreover have "breaker_inv b1" "config b1 = config b"
    using allowAcquire_result [OF acq] assms(2) by auto
  ultimately show ?thesis using acq assms(1) by (auto simp: abs_record_result)
qed

theorem recovers_through_probe_witness:
  "fst (allowAcquire (30 * second) demo_open) = True"
proof -
  have "Timeout (config demo_open) \<le> 30 * second - openedAt demo_open"
    by (simp add: demo_open_def demo_config_def)
  with recovers_through_probe [of demo_open "30 * second"] demo_config_pos show ?thesis
    by (force simp: demo_open)
qed

text \<open>
  C40. The wedge: \<open>Execute\<close> does not give back the probe slot of a call whose context was
  cancelled. Once a half-open breaker's budget is spent that way and no call is in flight, it
  stays in that state for ever and refuses every call, at any time in the future.
\<close>
theorem abandoned_probe_wedges:
  assumes "state (br s) = StateHalfOpen" and "0 < HalfOpenMaxCalls (config (br s))"
    and "HalfOpenMaxCalls (config (br s)) \<le> halfOpenCalls (br s)" and "inflight s = 0"
    and "bruns s es s'"
  shows "s' = s \<and> admissions es = 0 \<and> fst (allowAcquire t (br s')) = False"
proof -
  have "wedged s" using assms(1-4) by (simp add: wedged_def)
  with bruns_wedged [OF assms(5)] show ?thesis
    by (auto simp: wedged_def allowAcquire_def evaluateTimeout_def Let_def)
qed

theorem abandoned_probe_wedges_witness:
  "bruns \<lparr>br = demo_open, inflight = 0\<rparr>
     [Acquire 1 False, Acquire (31 * second) True, Acquire (32 * second) False, Abandon]
     \<lparr>br = demo_half, inflight = 0\<rparr> \<and>
   fst (allowAcquire (1000 * hour) demo_half) = False"
proof -
  have "bruns \<lparr>br = demo_half, inflight = 0\<rparr> [Acquire (999 * hour) False]
      \<lparr>br = demo_half, inflight = 0\<rparr>"
    unfolding bruns_bexecs by code_simp
  then have "fst (allowAcquire (1000 * hour) (br \<lparr>br = demo_half, inflight = 0\<rparr>)) = False"
    by (rule abandoned_probe_wedges [THEN conjunct2, THEN conjunct2, rotated 4])
      (simp_all add: demo_half_def demo_open_def demo_config_def)
  with demo_probe_run show ?thesis by simp
qed

end
