(* ===== verification/Providers.thy ===== *)
theory Providers
  imports HttpClient Breaker Rager
begin

text \<open>
  \<open>internal/providers\<close>: the clients of the embedding, chat, transcription, parsing and storage
  services, each guarded by a circuit breaker. A call runs over the breaker and the world of the
  transport; encoding and decoding of JSON, the random generator, the file system and the object
  store are parameters. Proved: one embedding per text, the number of requests a call may send,
  and that a document is returned only after the service reported success.
\<close>

section \<open>Shared parts\<close>

text \<open>The defaults that every \<open>New\<close> fills in.\<close>

definition breaker_defaults :: "bconfig \<Rightarrow> bconfig" where
  "breaker_defaults cb = \<lparr>MaxFailures = (if MaxFailures cb = 0 then 3 else MaxFailures cb),
     Timeout = (if Timeout cb = 0 then 30 * second else Timeout cb),
     HalfOpenMaxCalls = (if HalfOpenMaxCalls cb = 0 then 1 else HalfOpenMaxCalls cb)\<rparr>"

text \<open>A context and a clock over the transport's world, and a call through a provider's breaker.\<close>

record 'w runtime =
  rt_transport :: "'w transport"
  rt_clock :: "'w \<Rightarrow> time"
  rt_context :: "'w gocontext"

definition through_breaker :: "'w runtime \<Rightarrow> (go_error, 'w, 'a) io \<Rightarrow> (go_error, breaker \<times> 'w, 'a) io" where
  "through_breaker rt fn bw =
     (case execute (rt_clock rt) (rt_context rt) fn (fst bw) (snd bw) of (r, b, w) \<Rightarrow> (r, (b, w)))"

definition bearer :: "string \<Rightarrow> header" where
  "bearer key = header_set ''Authorization'' (''Bearer '' @ key) []"

definition endpoint_or :: "string \<Rightarrow> string \<Rightarrow> string" where
  "endpoint_or endpoint def1 = (if endpoint = [] then def1 else endpoint)"

section \<open>Cloudflare Workers AI\<close>

record embedder =
  em_client :: http_client
  em_account :: string
  em_token :: string
  em_batch :: int
  em_endpoint :: string

definition newEmbedder :: "string \<Rightarrow> string \<Rightarrow> int \<Rightarrow> string \<Rightarrow> bconfig \<Rightarrow> go_error + embedder \<times> breaker" where
  "newEmbedder account token batch endpoint cb =
     (if account = [] \<or> token = [] then Inl (Leaf ''cloudflareai: account id and API token are required'')
      else Inr (\<lparr>em_client = newHTTPClient [], em_account = account, em_token = token,
                 em_batch = (if batch \<le> 0 then 16 else batch), em_endpoint = endpoint\<rparr>,
               new_breaker (breaker_defaults cb)))"

text \<open>\<open>encoding/json\<close> for the types of this client.\<close>

record embed_codec =
  ec_marshal :: "string list \<Rightarrow> go_error + string"
  ec_decode :: "(go_error + string) \<Rightarrow> go_error + vec list"

definition embedOne :: "embedder \<Rightarrow> embed_codec \<Rightarrow> 'w transport \<Rightarrow> string list \<Rightarrow> (go_error, 'w, vec list) io" where
  "embedOne e cd tr texts =
     andthen (DoJSON (em_client e) tr ''POST''
         (endpoint_or (em_endpoint e) (''https://api.cloudflare.com/client/v4/accounts/'' @ em_account e @
            ''/ai/run/@cf/baai/bge-m3''))
         (bearer (em_token e)) (Some (ec_marshal cd texts)) (Some (ec_decode cd)))
       (\<lambda>out. let data = the out
              in if length data \<noteq> length texts
                 then fail (Leaf (''cloudflareai: expected '' @ show_int (int (length texts)) @
                   '' embeddings, got '' @ show_int (int (length data))))
                 else ret data)"

definition EmbedBatch :: "embedder \<Rightarrow> embed_codec \<Rightarrow> 'w runtime \<Rightarrow> string list
    \<Rightarrow> (go_error, breaker \<times> 'w, vec list) io" where
  "EmbedBatch e cd rt texts =
     (if texts = [] then ret []
      else andthen (for_collect (\<lambda>batch. map_err (wrapf ''cloudflareai: embed batch'')
               (through_breaker rt (embedOne e cd (rt_transport rt) batch)))
             (batches (nat (em_batch e)) texts))
           (\<lambda>rs. ret (concat rs)))"

section \<open>DeepSeek\<close>

record chat_llm =
  ll_client :: http_client
  ll_key :: string
  ll_endpoint :: string

definition chatURL :: string where "chatURL = ''https://api.deepseek.com/chat/completions''"

definition newLLM :: "string \<Rightarrow> string \<Rightarrow> bconfig \<Rightarrow> go_error + chat_llm \<times> breaker" where
  "newLLM key endpoint cb =
     (if key = [] then Inl (Leaf ''deepseek: API key is required'')
      else Inr (\<lparr>ll_client = newHTTPClient [WithTimeout (60 * second), WithMaxRetries 2],
                 ll_key = key, ll_endpoint = endpoint\<rparr>, new_breaker (breaker_defaults cb)))"

record chat_message =
  cm_role :: string
  cm_content :: string

record chat_request =
  cq_model :: string
  cq_messages :: "chat_message list"

text \<open>The decoded response: the contents of its choices.\<close>

record chat_codec =
  cc_marshal :: "chat_request \<Rightarrow> go_error + string"
  cc_decode :: "(go_error + string) \<Rightarrow> go_error + string list"

definition chat_body :: "string \<Rightarrow> string \<Rightarrow> chat_request" where
  "chat_body prompt content = \<lparr>cq_model = ''deepseek-chat'',
     cq_messages = [\<lparr>cm_role = ''system'', cm_content = prompt\<rparr>, \<lparr>cm_role = ''user'', cm_content = content\<rparr>]\<rparr>"

definition chatCompletion :: "chat_llm \<Rightarrow> chat_codec \<Rightarrow> 'w runtime \<Rightarrow> string \<Rightarrow> string
    \<Rightarrow> (go_error, breaker \<times> 'w, string) io" where
  "chatCompletion l cd rt prompt content =
     through_breaker rt
       (andthen (map_err (wrapf ''deepseek: chat request'')
           (DoJSON (ll_client l) (rt_transport rt) ''POST'' (endpoint_or (ll_endpoint l) chatURL) (bearer (ll_key l))
             (Some (cc_marshal cd (chat_body prompt content))) (Some (cc_decode cd))))
         (\<lambda>out. case the out of
                  [] \<Rightarrow> fail (Leaf ''deepseek: empty choices in response'')
                | c # _ \<Rightarrow> ret c))"

definition AnswerQuery :: "chat_llm \<Rightarrow> chat_codec \<Rightarrow> 'w runtime \<Rightarrow> string \<Rightarrow> string
    \<Rightarrow> (go_error, breaker \<times> 'w, string) io" where
  "AnswerQuery l cd rt prompt content = chatCompletion l cd rt prompt content"

definition SummarizeText :: "chat_llm \<Rightarrow> chat_codec \<Rightarrow> 'w runtime \<Rightarrow> string \<Rightarrow> string
    \<Rightarrow> (go_error, breaker \<times> 'w, string) io" where
  "SummarizeText l cd rt prompt text1 = chatCompletion l cd rt prompt text1"

section \<open>Multipart bodies\<close>

text \<open>\<open>mime/multipart.Writer\<close>: parts between boundary lines, and \<open>filepath.Base\<close>.\<close>

definition crlf :: string where "crlf = [CHR 0x0D, CHR 0x0A]"
definition quoted :: "string \<Rightarrow> string" where
  "quoted s = CHR 0x22 # concat (map (\<lambda>c. if c = CHR 0x5C \<or> c = CHR 0x22 then [CHR 0x5C, c]
     else if c = CHR 0x0D then ''%0D'' else if c = CHR 0x0A then ''%0A'' else [c]) s) @ [CHR 0x22]"

definition field_part :: "string \<Rightarrow> string \<Rightarrow> string" where
  "field_part name1 v = ''Content-Disposition: form-data; name='' @ quoted name1 @ crlf @ crlf @ v"

definition file_part :: "string \<Rightarrow> string \<Rightarrow> string \<Rightarrow> string" where
  "file_part name1 file data = ''Content-Disposition: form-data; name='' @ quoted name1 @
     ''; filename='' @ quoted file @ crlf @ ''Content-Type: application/octet-stream'' @ crlf @ crlf @ data"

definition multipart :: "string \<Rightarrow> string list \<Rightarrow> string" where
  "multipart boundary parts =
     join crlf (map (\<lambda>p. ''--'' @ boundary @ crlf @ p) parts) @ crlf @ ''--'' @ boundary @ ''--'' @ crlf"

definition base_name :: "string \<Rightarrow> string" where
  "base_name path =
     (if path = [] then ''.''
      else (let p = rev (dropWhile (\<lambda>c. c = CHR ''/'') (rev path))
            in if p = [] then ''/'' else rev (takeWhile (\<lambda>c. c \<noteq> CHR ''/'') (rev p))))"

section \<open>Groq\<close>

record transcriber =
  tc_client :: http_client
  tc_key :: string
  tc_endpoint :: string

definition transcriptionURL :: string where
  "transcriptionURL = ''https://api.groq.com/openai/v1/audio/transcriptions''"
definition defaultModel :: string where "defaultModel = ''whisper-large-v3''"

definition newTranscriber :: "string \<Rightarrow> string \<Rightarrow> bconfig \<Rightarrow> go_error + transcriber \<times> breaker" where
  "newTranscriber key endpoint cb =
     (if key = [] then Inl (Leaf ''groq: API key is required'')
      else Inr (\<lparr>tc_client = newHTTPClient [], tc_key = key, tc_endpoint = endpoint\<rparr>,
               new_breaker (breaker_defaults cb)))"

text \<open>
  \<open>os_open\<close>: opening a file and reading it to its end; \<open>os_rand\<close>: 16 random bytes;
  \<open>os_close\<close>: closing the body; \<open>tc_decode\<close>: text and language of the response.
\<close>

record 'w media_io =
  os_open :: "string \<Rightarrow> (go_error, 'w, string) io"
  os_close :: "'w \<Rightarrow> 'w"
  os_rand :: "(go_error, 'w, string) io"
  tc_decode :: "(go_error + string) \<Rightarrow> go_error + string \<times> string option"

record transcribe_input =
  ti_path :: string
  ti_language :: string
  ti_model :: string

definition hex_digit :: "nat \<Rightarrow> char" where
  "hex_digit n = char_of (if n < 10 then 48 + n else 87 + n)"

definition hex_encode :: "string \<Rightarrow> string" where
  "hex_encode s = concat (map (\<lambda>c. [hex_digit (of_char c div 16), hex_digit (of_char c mod 16)]) s)"

definition newBoundary :: "'w media_io \<Rightarrow> (go_error, 'w, string) io" where
  "newBoundary m = andthen (os_rand m) (\<lambda>bytes. ret (''----ragGroqBoundary'' @ hex_encode bytes))"

definition buildMultipart :: "'w media_io \<Rightarrow> string \<Rightarrow> string \<Rightarrow> string \<Rightarrow> string
    \<Rightarrow> (go_error, 'w, string option) io" where
  "buildMultipart m path language model boundary =
     andthen (map_err (wrapf ''groq: open media file'') (os_open m path)) (\<lambda>data.
       ret (Some (multipart boundary
         ([field_part ''model'' model] @ (if language \<noteq> [] then [field_part ''language'' language] else []) @
          [file_part ''file'' (base_name path) data]))))"

text \<open>The transcript that \<open>Transcribe\<close> builds: its id, tenant, video and time are left at zero.\<close>

definition transcript_of :: "string \<Rightarrow> string option \<Rightarrow> string \<Rightarrow> transcript" where
  "transcript_of content language model = \<lparr>t_id = [], t_tenant = [], t_video = [], t_content = content,
     t_language = language, t_model = Some model, t_created = zero_time\<rparr>"

definition Transcribe :: "transcriber \<Rightarrow> 'w media_io \<Rightarrow> 'w runtime \<Rightarrow> transcribe_input
    \<Rightarrow> (go_error, breaker \<times> 'w, transcript) io" where
  "Transcribe t m rt inp =
     through_breaker rt
       (let model = (if ti_model inp \<noteq> [] then ti_model inp else defaultModel)
        in andthen (map_err (wrapf ''groq: generate boundary'') (newBoundary m)) (\<lambda>boundary.
           andthen (map_err (wrapf ''groq: transcribe request'')
               (DoStream (tc_client t) (rt_transport rt) ''POST'' (endpoint_or (tc_endpoint t) transcriptionURL)
                 (bearer (tc_key t)) (''multipart/form-data; boundary='' @ boundary)
                 (buildMultipart m (ti_path inp) (ti_language inp) model boundary) (os_close m)))
             (\<lambda>r. if \<not> ok_status (rs_status r)
                  then fail (Leaf (''groq: unexpected status '' @ show_int (rs_status r)))
                  else (case tc_decode m (rs_body r) of
                          Inl e \<Rightarrow> fail (wrapf ''groq: decode response'' e)
                        | Inr (content, language) \<Rightarrow>
                            if content = [] then fail (Leaf ''groq: empty transcript in response'')
                            else ret (transcript_of content
                              (if language = None \<and> ti_language inp \<noteq> [] then Some (ti_language inp) else language)
                              model)))))"

section \<open>LlamaParse\<close>

record parser =
  ps_client :: http_client
  ps_key :: string
  ps_every :: duration
  ps_polls :: int

definition newParser :: "string \<Rightarrow> duration \<Rightarrow> int \<Rightarrow> bconfig \<Rightarrow> go_error + parser \<times> breaker" where
  "newParser key every polls cb =
     (if key = [] then Inl (Leaf ''llamaparse: API key is required'')
      else Inr (\<lparr>ps_client = newHTTPClient [], ps_key = key,
                 ps_every = (if every = 0 then 2 * second else every),
                 ps_polls = (if polls = 0 then 60 else polls)\<rparr>, new_breaker (breaker_defaults cb)))"

text \<open>\<open>pi_boundary\<close>: the random boundary of \<open>multipart.NewWriter\<close>; the decoders of two answers.\<close>

record 'w parse_io =
  pi_read :: "string \<Rightarrow> (go_error, 'w, string) io"
  pi_boundary :: "'w \<Rightarrow> string"
  pi_job :: "(go_error + string) \<Rightarrow> go_error + string"
  pi_status :: "(go_error + string) \<Rightarrow> go_error + string"

definition uploadURL :: string where "uploadURL = ''https://api.llamacloud.com/v1/parsing/upload''"
definition pollURL :: "string \<Rightarrow> string" where
  "pollURL job1 = ''https://api.llamacloud.com/v1/parsing/job/'' @ job1"
definition resultURL :: "string \<Rightarrow> string" where
  "resultURL job1 = pollURL job1 @ ''/result/raw/markdown''"

definition upload :: "parser \<Rightarrow> 'w parse_io \<Rightarrow> 'w transport \<Rightarrow> string \<Rightarrow> (go_error, 'w, string) io" where
  "upload d m tr path =
     andthen (map_err (wrapf ''llamaparse: read file'') (pi_read m path)) (\<lambda>data w.
       andthen (map_err (wrapf ''llamaparse: upload'')
           (Do (ps_client d) tr ''POST'' uploadURL (bearer (ps_key d))
             (Some (multipart (pi_boundary m w) [file_part ''file'' (base_name path) data]))
             (''multipart/form-data; boundary='' @ pi_boundary m w)))
         (\<lambda>r. if \<not> ok_status (rs_status r)
              then fail (Leaf (''llamaparse: upload status '' @ show_int (rs_status r)))
              else (case pi_job m (rs_body r) of
                      Inl e \<Rightarrow> fail (wrapf ''llamaparse: decode upload response'' e)
                    | Inr job1 \<Rightarrow> if job1 = [] then fail (Leaf ''llamaparse: upload returned empty job id'')
                                else ret job1)) w)"

definition pollOnce :: "parser \<Rightarrow> 'w parse_io \<Rightarrow> 'w transport \<Rightarrow> string \<Rightarrow> (go_error, 'w, string) io" where
  "pollOnce d m tr job1 =
     andthen (\<lambda>w. case tr_sleep tr (ps_every d) w of (Some e, w1) \<Rightarrow> (Inl e, w1) | (None, w1) \<Rightarrow> (Inr (), w1)) (\<lambda>_.
     andthen (map_err (wrapf ''llamaparse: poll'')
         (DoJSON (ps_client d) tr ''GET'' (pollURL job1) (bearer (ps_key d)) None (Some (pi_status m))))
       (\<lambda>out. ret (the out)))"

text \<open>The loop, with the polls that are left.\<close>

fun poll_loop :: "parser \<Rightarrow> 'w parse_io \<Rightarrow> 'w transport \<Rightarrow> string \<Rightarrow> nat \<Rightarrow> (go_error, 'w, unit) io" where
  "poll_loop d m tr job1 0 = fail (Leaf (''llamaparse: poll timeout for job '' @ job1))"
| "poll_loop d m tr job1 (Suc n) =
     andthen (pollOnce d m tr job1) (\<lambda>status.
       if status = ''SUCCESS'' then ret ()
       else if status = ''ERROR'' \<or> status = ''CANCELED''
         then fail (Leaf (''llamaparse: job '' @ job1 @ '' ended with status '' @ quoted status))
       else poll_loop d m tr job1 n)"

definition waitUntilDone :: "parser \<Rightarrow> 'w parse_io \<Rightarrow> 'w transport \<Rightarrow> string \<Rightarrow> (go_error, 'w, unit) io" where
  "waitUntilDone d m tr job1 = poll_loop d m tr job1 (nat (ps_polls d))"

definition fetchResult :: "parser \<Rightarrow> 'w transport \<Rightarrow> string \<Rightarrow> (go_error, 'w, string) io" where
  "fetchResult d tr job1 =
     andthen (map_err (wrapf ''llamaparse: fetch result'')
         (Do (ps_client d) tr ''GET'' (resultURL job1) (bearer (ps_key d)) None []))
       (\<lambda>r. if \<not> ok_status (rs_status r)
            then fail (Leaf (''llamaparse: result status '' @ show_int (rs_status r)))
            else (case rs_body r of
                    Inl e \<Rightarrow> fail (wrapf ''llamaparse: read result'' e)
                  | Inr data \<Rightarrow> ret data))"

definition Parse :: "parser \<Rightarrow> 'w parse_io \<Rightarrow> 'w runtime \<Rightarrow> string \<Rightarrow> string
    \<Rightarrow> (go_error, breaker \<times> 'w, string) io" where
  "Parse d m rt path contentType =
     through_breaker rt
       (andthen (upload d m (rt_transport rt) path) (\<lambda>job1.
        andthen (waitUntilDone d m (rt_transport rt) job1) (\<lambda>_.
          fetchResult d (rt_transport rt) job1)))"

section \<open>R2\<close>

text \<open>
  The AWS SDK: presigning with a lifetime, the downloader (into a local path) and \<open>DeleteObject\<close>,
  whose error says whether its chain holds a \<open>NoSuchKey\<close>.
\<close>

record 'w object_store =
  s3_presign :: "string \<Rightarrow> string \<Rightarrow> string \<Rightarrow> duration \<Rightarrow> (go_error, 'w, string) io"
  s3_create :: "string \<Rightarrow> (go_error, 'w, unit) io"
  s3_get :: "string \<Rightarrow> string \<Rightarrow> string \<Rightarrow> (go_error, 'w, unit) io"
  s3_delete :: "string \<Rightarrow> string \<Rightarrow> (bool \<times> go_error, 'w, unit) io"
  s3_clock :: "'w \<Rightarrow> time"

definition GenerateUploadURL :: "'w object_store \<Rightarrow> string \<Rightarrow> string \<Rightarrow> string \<Rightarrow> time \<Rightarrow> (go_error, 'w, string) io" where
  "GenerateUploadURL s bucket key contentType expires w =
     map_err (wrapf ''r2: presign upload'')
       (s3_presign s bucket key contentType (time_sub expires (s3_clock s w))) w"

definition Download :: "'w object_store \<Rightarrow> string \<Rightarrow> string \<Rightarrow> string \<Rightarrow> (go_error, 'w, unit) io" where
  "Download s bucket key dest =
     andthen (map_err (wrapf ''r2: create download file'') (s3_create s dest))
       (\<lambda>_. map_err (wrapf ''r2: download'') (s3_get s bucket key dest))"

definition Delete :: "'w object_store \<Rightarrow> string \<Rightarrow> string \<Rightarrow> (go_error, 'w, unit) io" where
  "Delete s bucket key w =
     (case s3_delete s bucket key w of
        (Inl (missing, e), w1) \<Rightarrow> (if missing then (Inr (), w1) else (Inl (wrapf ''r2: delete'' e), w1))
      | (Inr u, w1) \<Rightarrow> (Inr (), w1))"

section \<open>Through the breaker\<close>

lemma through_ok:
  "through_breaker rt fn bw = (Inr a, bw') \<Longrightarrow> fn (snd bw) = (Inr a, snd bw')"
  unfolding through_breaker_def by (cases bw') (auto dest: guard.exec_Inr split: prod.splits)

text \<open>\<open>at_most sent k m\<close>: whatever happens, \<open>m\<close> sends at most \<open>k\<close> requests.\<close>

definition at_most :: "('w \<Rightarrow> nat) \<Rightarrow> nat \<Rightarrow> (go_error, 'w, 'a) io \<Rightarrow> bool" where
  "at_most sent k m \<longleftrightarrow> (\<forall>w. sent (snd (m w)) \<le> sent w + k)"

named_theorems sending \<open>bounds on the requests of a computation\<close>

lemma at_mostD: "at_most sent k m \<Longrightarrow> m w = (r, w') \<Longrightarrow> sent w' \<le> sent w + k"
  by (metis at_most_def snd_conv)

lemma at_most_local [sending]: "at_most sent 0 (ret a)" "at_most sent 0 (fail e)"
  by (simp_all add: at_most_def ret_def fail_def)

lemma at_most_andthen [sending]:
  assumes "at_most sent j m" "\<And>a. at_most sent k (f a)"
  shows "at_most sent (j + k) (andthen m f)"
  unfolding at_most_def
proof
  fix w
  obtain r w1 where m: "m w = (r, w1)" by fastforce
  then have s: "sent w1 \<le> sent w + j" by (rule at_mostD [OF assms(1)])
  show "sent (snd (andthen m f w)) \<le> sent w + (j + k)"
  proof (cases r)
    case (Inl e)
    with m s show ?thesis by (simp add: andthen_def)
  next
    case (Inr a)
    have "sent (snd (f a w1)) \<le> sent w1 + k" using assms(2) by (simp add: at_most_def)
    with m s Inr show ?thesis by (simp add: andthen_def)
  qed
qed

lemma at_most_map_err [sending]: "at_most sent k m \<Longrightarrow> at_most sent k (map_err g m)"
  by (simp add: at_most_def)

lemma at_most_mono: "at_most sent k m \<Longrightarrow> k \<le> l \<Longrightarrow> at_most sent l m"
  unfolding at_most_def by (meson add_left_mono order_trans)

lemma at_most_if [sending]: "at_most sent k m \<Longrightarrow> at_most sent k n \<Longrightarrow> at_most sent k (if b then m else n)"
  by simp

lemma at_most_collect [sending]:
  "(\<And>x. at_most sent k (f x)) \<Longrightarrow> at_most sent (length xs * k) (for_collect f xs)"
proof (induction xs)
  case (Cons x xs)
  have "at_most sent (k + (length xs * k + 0)) (for_collect f (x # xs))"
    unfolding for_collect.simps by (intro sending Cons)
  then show ?case by simp
qed (simp add: sending)

lemma at_most_client [sending]:
  assumes "meters tr sent"
  shows "at_most sent (nat (maxRetries c) + 1) (Do c tr m u h b ct)"
    "at_most sent (nat (maxRetries c) + 1) (DoJSON c tr m u h body dec)"
  unfolding at_most_def add.assoc [symmetric] by (intro allI Do_sends DoJSON_sends assms)+

lemma at_most_through [sending]:
  assumes "at_most sent k fn"
  shows "at_most (\<lambda>bw. sent (snd bw)) k (through_breaker rt fn)"
  unfolding at_most_def
proof
  fix bw
  obtain r b w where x: "execute (rt_clock rt) (rt_context rt) fn (fst bw) (snd bw) = (r, b, w)"
    using prod_cases3 by blast
  have "w = snd bw \<or> w = snd (fn (snd bw))"
    by (cases r) (use x guard.exec_Inl guard.exec_Inr in \<open>fastforce\<close>)+
  then have "sent w \<le> sent (snd bw) + k" using assms by (auto simp: at_most_def)
  then show "sent (snd (snd (through_breaker rt fn bw))) \<le> sent (snd bw) + k"
    by (simp add: through_breaker_def x)
qed

section \<open>Embedding\<close>

lemma embedOne_length: "embedOne e cd tr texts w = (Inr vs, w') \<Longrightarrow> length vs = length texts"
  by (auto simp: embedOne_def io_ok Let_def split: if_splits)

lemma for_collect_all2:
  "for_collect f xs w = (Inr ys, w') \<Longrightarrow> (\<And>x w y w'. f x w = (Inr y, w') \<Longrightarrow> R x y) \<Longrightarrow> list_all2 R xs ys"
proof (induction xs arbitrary: w ys)
  case (Cons x xs)
  from Cons.prems(1) obtain y w1 ys' where "f x w = (Inr y, w1)" "for_collect f xs w1 = (Inr ys', w')" "ys = y # ys'"
    by (auto simp: io_ok)
  with Cons show ?case by auto
qed (simp add: io_ok)

lemma EmbedBatch_parts:
  assumes "EmbedBatch e cd rt texts bw = (Inr vs, bw')"
  obtains parts where "vs = concat parts"
    "list_all2 (\<lambda>b p. length p = length b) (batches (nat (em_batch e)) texts) parts"
proof (cases "texts = []")
  case True
  with assms have "vs = concat []" "list_all2 (\<lambda>b p. length p = length b) (batches (nat (em_batch e)) texts) []"
    by (simp_all add: EmbedBatch_def io_ok batches.simps)
  then show ?thesis by (rule that)
next
  case False
  with assms obtain parts bw1 where
    f: "for_collect (\<lambda>batch. map_err (wrapf ''cloudflareai: embed batch'')
          (through_breaker rt (embedOne e cd (rt_transport rt) batch))) (batches (nat (em_batch e)) texts) bw = (Inr parts, bw1)"
    and "vs = concat parts"
    by (auto simp: EmbedBatch_def io_ok)
  moreover have "list_all2 (\<lambda>b p. length p = length b) (batches (nat (em_batch e)) texts) parts"
    by (rule for_collect_all2 [OF f]) (auto simp: map_err_ok dest!: through_ok intro: embedOne_length)
  ultimately show ?thesis using that by blast
qed

lemma concat_lengths: "list_all2 (\<lambda>b p. length p = length b) xss yss \<Longrightarrow> length (concat yss) = length (concat xss)"
  by (induction rule: list_all2_induct) auto

text \<open>
  The contract of \<open>ports.Embedder\<close>: one embedding per input text. Its users index the result by
  the position of the text.
\<close>

locale embedding_port =
  fixes embed :: "string list \<Rightarrow> (go_error, 'w, vec list) io"
  assumes one_per_text: "embed texts w = (Inr vs, w') \<Longrightarrow> length vs = length texts"
begin

lemma single: "embed [text1] w = (Inr vs, w') \<Longrightarrow> vs \<noteq> []"
  using one_per_text by fastforce

lemma answer_has_embedding:
  assumes "rag_embed s = embed" "Answer s t q seg k w = (Inl e, w')"
  shows "(\<exists>e'. rag_embed s [q] w = (Inl e', w')) \<or> (\<exists>vs w1. rag_embed s [q] w = (Inr vs, w1) \<and> vs \<noteq> [])"
  using assms(2) single [of q w] unfolding assms(1) [symmetric]
  by (auto simp: Answer_def elim!: andthen_cases) (fastforce simp: map_err_def split: prod.splits sum.splits)+

end

lemma EmbedBatch_length:
  assumes "EmbedBatch e cd rt texts bw = (Inr vs, bw')" "0 < em_batch e"
  shows "length vs = length texts"
  using EmbedBatch_parts [OF assms(1)] concat_lengths concat_batches [of "nat (em_batch e)" texts] assms(2)
  by (metis zero_less_nat_eq)

lemma newEmbedder_ok:
  "newEmbedder a k n ep cb = Inr (e, b) \<Longrightarrow> 0 < em_batch e \<and> em_client e = newHTTPClient [] \<and> b = new_breaker (breaker_defaults cb)"
  by (auto simp: newEmbedder_def split: if_splits)

text \<open>The embedder as the binaries wire it: they end when \<open>New\<close> fails.\<close>

definition wired_embedder :: "string \<Rightarrow> string \<Rightarrow> int \<Rightarrow> string \<Rightarrow> bconfig \<Rightarrow> embed_codec \<Rightarrow> 'w runtime
    \<Rightarrow> string list \<Rightarrow> (go_error, breaker \<times> 'w, vec list) io" where
  "wired_embedder account token batch endpoint cb cd rt texts =
     (case newEmbedder account token batch endpoint cb of
        Inl e \<Rightarrow> fail e
      | Inr (e, b) \<Rightarrow> EmbedBatch e cd rt texts)"

interpretation cloudflare: embedding_port "wired_embedder account token batch endpoint cb cd rt"
  for account token batch endpoint cb cd and rt :: "'w runtime"
proof unfold_locales
  fix texts :: "string list" and vs bw bw'
  assume "wired_embedder account token batch endpoint cb cd rt texts bw = (Inr vs, bw')"
  then show "length vs = length texts"
    by (auto simp: wired_embedder_def fail_def split: sum.splits dest: newEmbedder_ok intro: EmbedBatch_length)
qed

section \<open>Parsing\<close>

lemma poll_loop_ok:
  "poll_loop d m tr job1 n w = (Inr (), w') \<Longrightarrow>
   \<exists>w1. pollOnce d m tr job1 w1 = (Inr ''SUCCESS'', w')"
  by (induction n arbitrary: w) (auto simp: io_ok split: if_splits)

lemma poll_loop_sends:
  assumes "meters tr sent"
  shows "at_most sent (n * (nat (maxRetries (ps_client d)) + 1)) (poll_loop d m tr job1 n)"
proof (induction n)
  case (Suc n)
  have slp: "at_most sent 0 (\<lambda>w. case tr_sleep tr x w of (Some e, w1) \<Rightarrow> (Inl e, w1) | (None, w1) \<Rightarrow> (Inr (), w1))" for x
    unfolding at_most_def
  proof
    fix w
    show "sent (snd (case tr_sleep tr x w of (Some e, w1) \<Rightarrow> (Inl e, w1) | (None, w1) \<Rightarrow> (Inr (), w1))) \<le> sent w + 0"
      using assms by (auto simp: meters_def split: prod.split option.split) (metis le_refl snd_conv)+
  qed
  let ?k = "nat (maxRetries (ps_client d)) + 1"
  have once: "at_most sent ?k (pollOnce d m tr job1)"
    using at_most_andthen [OF slp at_most_andthen [OF at_most_map_err [OF at_most_client(2) [OF assms]] at_most_local(1)]]
    unfolding pollOnce_def by simp
  have "at_most sent (?k + n * ?k) (poll_loop d m tr job1 (Suc n))" unfolding poll_loop.simps
    by (rule at_most_andthen [OF once])
      (intro at_most_if at_most_mono [OF at_most_local(1) le0] at_most_mono [OF at_most_local(2) le0] Suc)
  then show ?case by (simp only: mult_Suc)
qed (simp add: sending)

lemma upload_sends:
  assumes "meters tr sent" "\<And>p w. sent (snd (pi_read m p w)) = sent w"
  shows "at_most sent (nat (maxRetries (ps_client d)) + 1) (upload d m tr path)"
proof -
  let ?k = "nat (maxRetries (ps_client d)) + 1"
  have rd: "at_most sent 0 (map_err g (pi_read m path))" for g
    using assms(2) by (simp add: at_most_def)
  have rest: "at_most sent (?k + 0) (andthen (map_err g (Do (ps_client d) tr a b c e f))
      (\<lambda>r. if \<not> ok_status (rs_status r) then fail (h r) else (case pi_job m (rs_body r) of
        Inl e \<Rightarrow> fail (i e) | Inr j \<Rightarrow> if j = [] then fail l else ret j)))" for g a b c e f h i l
    by (intro at_most_andthen at_most_map_err at_most_client assms at_most_if at_most_local)
      (auto simp: sending split: sum.split)
  have "at_most sent (0 + ?k) (upload d m tr path)" unfolding upload_def
    by (rule at_most_andthen [OF rd]) (use rest in \<open>simp add: at_most_def\<close>)
  then show ?thesis by simp
qed

lemma fetch_sends:
  assumes "meters tr sent"
  shows "at_most sent (nat (maxRetries (ps_client d)) + 1) (fetchResult d tr job1)"
proof -
  have "at_most sent (nat (maxRetries (ps_client d)) + 1 + 0) (fetchResult d tr job1)" unfolding fetchResult_def
    by (intro at_most_andthen at_most_map_err at_most_client assms at_most_if at_most_local)
      (auto simp: sending split: sum.split)
  then show ?thesis by simp
qed

lemma Parse_sends:
  assumes "meters (rt_transport rt) sent" "\<And>p w. sent (snd (pi_read m p w)) = sent w"
  shows "at_most (\<lambda>bw. sent (snd bw)) ((nat (ps_polls d) + 2) * (nat (maxRetries (ps_client d)) + 1)) (Parse d m rt path ct)"
proof -
  let ?k = "nat (maxRetries (ps_client d)) + 1"
  have calls: "at_most sent (?k + (nat (ps_polls d) * ?k + ?k))
     (andthen (upload d m (rt_transport rt) path) (\<lambda>job1.
        andthen (waitUntilDone d m (rt_transport rt) job1) (\<lambda>_. fetchResult d (rt_transport rt) job1)))"
    unfolding waitUntilDone_def
    by (intro at_most_andthen upload_sends poll_loop_sends fetch_sends assms)
  have "?k + (nat (ps_polls d) * ?k + ?k) \<le> (nat (ps_polls d) + 2) * ?k" by (simp add: algebra_simps)
  from at_most_mono [OF calls this] show ?thesis unfolding Parse_def by (rule at_most_through)
qed

section \<open>Properties\<close>


text \<open>A service that answers every request with status 200.\<close>

definition demo_runtime :: "script_world runtime" where
  "demo_runtime = \<lparr>rt_transport = scripted (\<lambda>i. Inr \<lparr>rs_status = 200, rs_body = Inr ''body''\<rparr>),
     rt_clock = (\<lambda>w. 0), rt_context = Background\<rparr>"

definition demo_codec :: embed_codec where
  "demo_codec = \<lparr>ec_marshal = (\<lambda>ts. Inr []), ec_decode = (\<lambda>b. Inr [[1]])\<rparr>"

definition demo_parse_io :: "script_world parse_io" where
  "demo_parse_io = \<lparr>pi_read = (\<lambda>p. ret ''data''), pi_boundary = (\<lambda>w. ''b''), pi_job = (\<lambda>b. Inr ''j''),
     pi_status = (\<lambda>b. Inr ''SUCCESS'')\<rparr>"

definition demo_script :: script_world where "demo_script = \<lparr>sw_sent = 0, sw_waits = []\<rparr>"

lemma demo_Do:
  "doWithRetry c (scripted (\<lambda>i. Inr \<lparr>rs_status = 200, rs_body = b\<rparr>)) m u h x ct w =
     (Inr \<lparr>rs_status = 200, rs_body = b\<rparr>, w\<lparr>sw_sent := sw_sent w + 1\<rparr>)"
  unfolding doWithRetry_def attempt_bytes_scripted
  by (subst retry_loop.simps) (simp add: scripted_once_def retryableStatus_def)

lemmas demo_call_defs = demo_runtime_def demo_codec_def demo_parse_io_def demo_script_def through_breaker_def
  execute_def allowAcquire_def evaluateTimeout_def new_breaker_def breaker_defaults_def Let_def

lemma demo_embed:
  "\<exists>e b. newEmbedder ''a'' ''k'' 0 [] demo_config = Inr (e, b) \<and>
     (\<exists>bw. EmbedBatch e demo_codec demo_runtime [''text''] (b, demo_script) = (Inr [[1]], bw))"
  by (simp add: newEmbedder_def EmbedBatch_def embedOne_def DoJSON_def demo_Do demo_call_defs batches.simps
      andthen_def map_err_def ret_def ok_status_def)

lemma demo_poll:
  assumes "pi_status m = (\<lambda>b. Inr ''SUCCESS'')" "0 < n"
  shows "poll_loop d m (scripted (\<lambda>i. Inr \<lparr>rs_status = 200, rs_body = b\<rparr>)) job1 n w =
    (Inr (), w\<lparr>sw_waits := sw_waits w @ [ps_every d], sw_sent := sw_sent w + 1\<rparr>)"
proof (cases n)
  case (Suc k)
  have "tr_sleep (scripted f) x w = (None, w\<lparr>sw_waits := sw_waits w @ [x]\<rparr>)" for f x
    by (simp add: scripted_def)
  with Suc show ?thesis
    by (simp add: pollOnce_def DoJSON_def demo_Do assms(1) andthen_def map_err_def ret_def ok_status_def)
qed (use assms in simp)

lemma demo_parse:
  "\<exists>d b. newParser ''k'' 0 0 demo_config = Inr (d, b) \<and>
     (\<exists>bw. Parse d demo_parse_io demo_runtime ''/tmp/input'' [] (b, demo_script) = (Inr ''body'', bw))"
  by (simp add: newParser_def Parse_def upload_def waitUntilDone_def demo_poll fetchResult_def Do_def
      demo_Do demo_call_defs demo_config_def andthen_def map_err_def ret_def ok_status_def)


text \<open>
  The price of a call: an embedder made by \<open>New\<close> sends at most three requests per batch, and a
  parser made by \<open>New\<close> at most three per poll and six more, whatever the services answer and
  whatever state the breakers are in.
\<close>

theorem provider_requests_bounded:
  assumes "newEmbedder account token batch endpoint cb = Inr (e, b)" "newParser key every polls cb = Inr (d, b')"
    "meters (rt_transport rt) sent" "\<And>p w. sent (snd (pi_read m p w)) = sent w"
  shows "sent (snd (snd (EmbedBatch e cd rt texts bw))) \<le>
      sent (snd bw) + 3 * ((length texts + nat (em_batch e) - 1) div nat (em_batch e)) \<and>
    sent (snd (snd (Parse d m rt path ct bw))) \<le> sent (snd bw) + 3 * (nat (ps_polls d) + 2)"
proof -
  have e: "0 < em_batch e" "maxRetries (em_client e) = 2"
    using newEmbedder_ok [OF assms(1)] by (simp_all add: newHTTPClient_def)
  have d: "maxRetries (ps_client d) = 2"
    using assms(2) by (auto simp: newParser_def newHTTPClient_def split: if_splits)
  have one: "at_most sent 3 (embedOne e cd (rt_transport rt) ts)" for ts
  proof -
    have "at_most sent (nat (maxRetries (em_client e)) + 1 + 0) (embedOne e cd (rt_transport rt) ts)"
      unfolding embedOne_def Let_def by (intro sending assms(3))
    then show ?thesis by (simp add: e)
  qed
  let ?n = "length (batches (nat (em_batch e)) texts)"
  have "at_most (\<lambda>bw. sent (snd bw)) (?n * 3 + 0) (EmbedBatch e cd rt texts)"
    unfolding EmbedBatch_def
    by (intro at_most_if at_most_mono [OF at_most_local(1)] at_most_andthen at_most_collect at_most_map_err
        at_most_through one at_most_local) simp
  moreover have "?n = (length texts + nat (em_batch e) - 1) div nat (em_batch e)"
    using e(1) by (intro length_batches) simp
  moreover have "at_most (\<lambda>bw. sent (snd bw)) ((nat (ps_polls d) + 2) * 3) (Parse d m rt path ct)"
    using Parse_sends [OF assms(3,4), of d path ct] by (simp add: d)
  ultimately have
    "sent (snd (snd (EmbedBatch e cd rt texts bw))) \<le>
      sent (snd bw) + (((length texts + nat (em_batch e) - 1) div nat (em_batch e)) * 3 + 0)"
    "sent (snd (snd (Parse d m rt path ct bw))) \<le> sent (snd bw) + (nat (ps_polls d) + 2) * 3"
    unfolding at_most_def by (metis, blast)
  then show ?thesis by (simp only: mult.commute [of _ 3] add_0_right)
qed

theorem provider_requests_bounded_witness:
  "\<exists>d b bw. newParser ''k'' 0 0 demo_config = Inr (d, b) \<and>
     Parse d demo_parse_io demo_runtime ''/tmp/input'' [] (b, demo_script) = (Inr ''body'', bw) \<and>
     sw_sent (snd bw) \<le> 186"
proof -
  obtain d b bw where p: "newParser ''k'' 0 0 demo_config = Inr (d, b)"
    "Parse d demo_parse_io demo_runtime ''/tmp/input'' [] (b, demo_script) = (Inr ''body'', bw)"
    using demo_parse by blast
  obtain e b' where e: "newEmbedder ''a'' ''k'' 0 [] demo_config = Inr (e, b')" using demo_embed by blast
  have "meters (rt_transport demo_runtime) sw_sent" by (simp add: meters_def scripted_def demo_runtime_def)
  from provider_requests_bounded [OF e p(1) this, where m = demo_parse_io and bw = "(b, demo_script)"
      and path = "''/tmp/input''" and ct = "[]"]
  have "sw_sent (snd bw) \<le> 3 * (nat (ps_polls d) + 2)"
    using p(2) by (simp add: demo_parse_io_def ret_def demo_script_def)
  moreover have "ps_polls d = 60" using p(1) by (auto simp: newParser_def)
  ultimately have "sw_sent (snd bw) \<le> 186" by simp
  with p show ?thesis by blast
qed

text \<open>
  No text before success: \<open>Parse\<close> returns a document only when the upload was accepted with a
  job id, a poll of that job answered \<open>SUCCESS\<close>, and the result was then fetched; it is the
  body of that last answer, unchanged.
\<close>

theorem parse_after_success:
  assumes "Parse d m rt path ct bw = (Inr text1, bw')"
  shows "\<exists>job1 w1 w2 w3 r. upload d m (rt_transport rt) path (snd bw) = (Inr job1, w1) \<and> job1 \<noteq> [] \<and>
    pollOnce d m (rt_transport rt) job1 w2 = (Inr ''SUCCESS'', w3) \<and>
    Do (ps_client d) (rt_transport rt) ''GET'' (resultURL job1) (bearer (ps_key d)) None [] w3 = (Inr r, snd bw') \<and>
    ok_status (rs_status r) \<and> rs_body r = Inr text1"
proof -
  from through_ok [OF assms [unfolded Parse_def]] obtain job1 w1 w3 where
    u: "upload d m (rt_transport rt) path (snd bw) = (Inr job1, w1)" and
    p: "waitUntilDone d m (rt_transport rt) job1 w1 = (Inr (), w3)" and
    f: "fetchResult d (rt_transport rt) job1 w3 = (Inr text1, snd bw')"
    by (auto simp: io_ok)
  from u have "job1 \<noteq> []" by (auto simp: upload_def io_ok split: if_splits sum.splits)
  moreover from poll_loop_ok [OF p [unfolded waitUntilDone_def]] obtain w2 where
    "pollOnce d m (rt_transport rt) job1 w2 = (Inr ''SUCCESS'', w3)" by blast
  moreover from f obtain r where
    "Do (ps_client d) (rt_transport rt) ''GET'' (resultURL job1) (bearer (ps_key d)) None [] w3 = (Inr r, snd bw')"
    "ok_status (rs_status r)" "rs_body r = Inr text1"
    by (auto simp: fetchResult_def io_ok split: if_splits sum.splits)
  ultimately show ?thesis using u by blast
qed

theorem parse_after_success_witness:
  "\<exists>(d :: parser) job1 w3 r w4. Do (ps_client d) (rt_transport demo_runtime) ''GET'' (resultURL job1) (bearer (ps_key d)) None [] w3 =
     (Inr r, w4) \<and> rs_body r = Inr ''body''"
proof -
  obtain d b bw where p: "Parse d demo_parse_io demo_runtime ''/tmp/input'' [] (b, demo_script) = (Inr ''body'', bw)"
    using demo_parse by blast
  from parse_after_success [OF this] show ?thesis by metis
qed

end
