(* ===== verification/Worker.thy ===== *)
theory Worker
  imports Tenancy Summarizer Chunker Providers
begin

text \<open>
  \<open>internal/worker\<close>: the pipeline of one job, the claim loop of a worker, the reconnecting listener
  and the retention pass. The repositories are those of \<open>Repo\<close>, as \<open>cmd/worker/main.go\<close> wires them;
  storage, file system, MIME detection, transcription, parsing, embedding and the LLM are the
  fields of \<open>pipeline\<close>. The stage the code keeps in \<open>job.Stage\<close> is a component of the world. A
  cancelled job context shows as faults of the environment.
\<close>

section \<open>Dependencies\<close>

record job_world = world +
  jw_stage :: string

type_synonym ('y, 'a) jact = "(go_error, 'y job_world_scheme, 'a) io"

record 'y pipeline =
  p_download :: "string \<Rightarrow> string \<Rightarrow> ('y, unit) jact"
  p_delete :: "string \<Rightarrow> ('y, unit) jact"
  p_mkdir :: "('y, string) jact"
  p_rmdir :: "string \<Rightarrow> 'y job_world_scheme \<Rightarrow> 'y job_world_scheme"
  p_stat :: "string \<Rightarrow> ('y, int) jact"
  p_detect :: "string \<Rightarrow> ('y, string) jact"
  p_transcribe :: "string \<Rightarrow> ('y, transcript) jact"
  p_parse :: "string \<Rightarrow> string \<Rightarrow> ('y, string) jact"
  p_embed :: "string list \<Rightarrow> ('y, vec list) jact"
  p_llm :: "string \<Rightarrow> string \<Rightarrow> ('y, string) jact"
  p_summarizer :: summarizer
  p_max_bytes :: int
  p_batch :: int

definition summaryAttempts :: nat where "summaryAttempts = 2"
definition summaryModelName :: string where "summaryModelName = ''deepseek''"

definition ErrUnsupportedJobKind :: go_error where
  "ErrUnsupportedJobKind = Leaf ''unsupported job kind''"
definition ErrFileEmpty :: go_error where "ErrFileEmpty = Leaf ''downloaded file is empty''"
definition ErrFileTooLarge :: go_error where
  "ErrFileTooLarge = Leaf ''downloaded file exceeds the size limit''"
definition ErrUnsupportedMedia :: go_error where
  "ErrUnsupportedMedia = Leaf ''unsupported content type for job kind''"

section \<open>Media validation\<close>

text \<open>\<open>filepath.Ext\<close>: from the last dot of the last path element on.\<close>

definition file_ext :: "string \<Rightarrow> string" where
  "file_ext path =
     (let r = rev path; tail = takeWhile (\<lambda>c. c \<noteq> CHR ''.'' \<and> c \<noteq> CHR ''/'') r
      in if take 1 (drop (length tail) r) = ''.'' then CHR ''.'' # rev tail else [])"

definition mediaExts :: "string \<Rightarrow> string list" where
  "mediaExts kind =
     (if kind = ''pdf'' then [''.pdf'']
      else if kind = ''video'' then
        [''.mp4'', ''.mov'', ''.m4v'', ''.webm'', ''.mkv'', ''.avi'', ''.mpeg'', ''.mpg'', ''.wmv'']
      else if kind = ''audio'' then
        [''.mp3'', ''.wav'', ''.m4a'', ''.ogg'', ''.oga'', ''.aac'', ''.flac'', ''.opus'', ''.webm'']
      else [])"

definition matchesKind :: "string \<Rightarrow> string \<Rightarrow> bool" where
  "matchesKind mime kind =
     (if kind = ''pdf'' then mime = ''application/pdf''
      else if kind = ''video'' then has_prefix ''video/'' mime
      else if kind = ''audio'' then has_prefix ''audio/'' mime
      else False)"

definition validateMediaFile :: "'y pipeline \<Rightarrow> string \<Rightarrow> string \<Rightarrow> string \<Rightarrow> int \<Rightarrow> ('y, unit) jact" where
  "validateMediaFile D path fileKey kind maxBytes =
     andthen (map_err (wrapf ''worker: stat downloaded file'') (p_stat D path)) (\<lambda>size.
       if size \<le> 0 then fail ErrFileEmpty
       else if 0 < maxBytes \<and> maxBytes < size then fail ErrFileTooLarge
       else if to_lower (file_ext fileKey) \<in> set (mediaExts kind) then ret ()
       else andthen (map_err (\<lambda>_. ErrUnsupportedMedia) (p_detect D path)) (\<lambda>mt.
         if matchesKind (to_lower mt) kind then ret () else fail ErrUnsupportedMedia))"

section \<open>The pipeline of one job\<close>

definition setStage :: "environ \<Rightarrow> job \<Rightarrow> string \<Rightarrow> ('y, unit) jact" where
  "setStage E job stage =
     andthen (map_err (wrapf ''worker: update stage'')
         (Jobs_UpdateStatus E (j_id job) (j_tenant job) ''processing'' stage None))
       (\<lambda>_ w. (Inr (), w\<lparr>jw_stage := stage\<rparr>))"

definition copyJobSegments :: "environ \<Rightarrow> job \<Rightarrow> string \<Rightarrow> ('y, unit) jact" where
  "copyJobSegments E job vid =
     andthen (Segments_ListNamesByJobID E (j_id job) (j_tenant job)) (\<lambda>names.
     andthen (for_collect (\<lambda>name1. andthen (Segments_EnsureByName E (j_tenant job) name1)
         (\<lambda>sg. ret (s_id sg))) names)
       (\<lambda>ids. Segments_AttachVideoSegments E vid (j_tenant job) ids))"

text \<open>\<open>defer\<close>: the cleanup runs whatever the body returns.\<close>

definition deferred :: "('w \<Rightarrow> 'w) \<Rightarrow> ('e, 'w, 'a) io \<Rightarrow> ('e, 'w, 'a) io" where
  "deferred cleanup m w = (case m w of (r, w1) \<Rightarrow> (r, cleanup w1))"

definition upsert_transcript :: "environ \<Rightarrow> job \<Rightarrow> video \<Rightarrow> transcript \<Rightarrow> ('y, transcript) jact" where
  "upsert_transcript E job video tr0 =
     andthen (time_now E) (\<lambda>now.
       (let tr = tr0\<lparr>t_tenant := j_tenant job, t_video := v_id video, t_created := now\<rparr>
        in andthen (map_err (wrapf ''worker: upsert transcript'') (Transcripts_Upsert E tr)) (\<lambda>_. ret tr)))"

definition extract_from :: "environ \<Rightarrow> 'y pipeline \<Rightarrow> job \<Rightarrow> video \<Rightarrow> string \<Rightarrow> ('y, transcript) jact" where
  "extract_from E D job video dest =
     andthen (setStage E job ''downloading'') (\<lambda>_.
     andthen (map_err (wrapf ''worker: download'') (p_download D (j_file_key job) dest)) (\<lambda>_.
     andthen (validateMediaFile D dest (j_file_key job) (j_kind job) (p_max_bytes D)) (\<lambda>_.
       if j_kind job = ''video'' \<or> j_kind job = ''audio'' then
         andthen (setStage E job ''transcribing'') (\<lambda>_.
         andthen (map_err (wrapf ''worker: transcribe'') (p_transcribe D dest))
           (upsert_transcript E job video))
       else if j_kind job = ''pdf'' then
         andthen (setStage E job ''parsing'') (\<lambda>_.
         andthen (map_err (wrapf ''worker: detect content type'') (p_detect D dest)) (\<lambda>mt.
         andthen (map_err (wrapf ''worker: parse'') (p_parse D dest mt)) (\<lambda>text1.
           upsert_transcript E job video \<lparr>t_id = [], t_tenant = [], t_video = [], t_content = text1,
             t_language = None, t_model = None, t_created = zero_time\<rparr>)))
       else fail (Wrap [] ErrUnsupportedJobKind ('': '' @ j_kind job)))))"

definition extractTranscript :: "environ \<Rightarrow> 'y pipeline \<Rightarrow> job \<Rightarrow> video \<Rightarrow> ('y, transcript) jact" where
  "extractTranscript E D job video =
     andthen (map_err (wrapf ''worker: create temp dir'') (p_mkdir D)) (\<lambda>dir.
       deferred (p_rmdir D dir) (extract_from E D job video (dir @ ''/input'')))"

definition chunk_row :: "job \<Rightarrow> video \<Rightarrow> time \<Rightarrow> vec list \<Rightarrow> nat \<Rightarrow> nat \<times> string \<Rightarrow> string \<Rightarrow> chunk" where
  "chunk_row job video now embs n it u = \<lparr>c_id = u, c_tenant = j_tenant job, c_video = v_id video,
     c_index = int (n + fst it), c_content = snd it,
     c_embedding = (if fst it < length embs then embs ! fst it else []), c_created = now\<rparr>"

text \<open>\<open>n\<close>: the chunks made so far, the value of \<open>len(chunks)\<close> at the start of the batch.\<close>

fun embed_batches :: "environ \<Rightarrow> 'y pipeline \<Rightarrow> job \<Rightarrow> video \<Rightarrow> time \<Rightarrow> nat \<Rightarrow> string list list
    \<Rightarrow> ('y, chunk list) jact" where
  "embed_batches E D job video now n [] = ret []"
| "embed_batches E D job video now n (texts # rest) =
     andthen (map_err (wrapf ''worker: embed batch'') (p_embed D texts)) (\<lambda>embs.
     andthen (for_collect (\<lambda>it. andthen (newUUIDString E) (\<lambda>u. ret (chunk_row job video now embs n it u)))
         (enumerate 0 texts)) (\<lambda>cs.
     andthen (embed_batches E D job video now (n + length texts) rest) (\<lambda>more. ret (cs @ more))))"

definition embedSections :: "environ \<Rightarrow> 'y pipeline \<Rightarrow> job \<Rightarrow> video \<Rightarrow> string list \<Rightarrow> ('y, chunk list) jact" where
  "embedSections E D job video sections =
     andthen (time_now E) (\<lambda>now. embed_batches E D job video now 0
       (batches (nat (if p_batch D \<le> 0 then 16 else p_batch D)) sections))"

fun summarize_attempts :: "'y pipeline \<Rightarrow> string \<Rightarrow> nat \<Rightarrow> go_error \<Rightarrow> ('y, string) jact" where
  "summarize_attempts D content 0 e = fail e"
| "summarize_attempts D content (Suc n) e = (\<lambda>w.
     case Summarize (p_summarizer D) (p_llm D) content w of
       (Inl e', w1) \<Rightarrow> summarize_attempts D content n e' w1
     | (Inr s, w1) \<Rightarrow> (Inr s, w1))"

definition recordSummary :: "environ \<Rightarrow> job \<Rightarrow> video \<Rightarrow> summary \<Rightarrow> ('y, unit) jact" where
  "recordSummary E job video s =
     best_effort (Summaries_Upsert E (s\<lparr>m_tenant := j_tenant job, m_video := v_id video\<rparr>))"

definition summary_row :: "environ \<Rightarrow> string \<Rightarrow> string option \<Rightarrow> string option \<Rightarrow> string option
    \<Rightarrow> string option \<Rightarrow> ('y, summary) jact" where
  "summary_row E status content language model err =
     andthen (newUUIDString E) (\<lambda>u. andthen (time_now E) (\<lambda>t1. andthen (time_now E) (\<lambda>t2.
       ret \<lparr>m_id = u, m_tenant = [], m_video = [], m_status = status, m_content = content,
         m_language = language, m_model = model, m_error = err, m_created = t1, m_updated = t2\<rparr>)))"

definition generateSummary :: "environ \<Rightarrow> 'y pipeline \<Rightarrow> job \<Rightarrow> video \<Rightarrow> transcript \<Rightarrow> ('y, unit) jact" where
  "generateSummary E D job video tr =
     (if t_content tr = [] then ret ()
      else (\<lambda>w. case summarize_attempts D (t_content tr) summaryAttempts (Leaf []) w of
          (Inl e, w1) \<Rightarrow> andthen (summary_row E ''failed'' None None None (Some ''summary generation failed''))
             (recordSummary E job video) w1
        | (Inr content, w1) \<Rightarrow> andthen (summary_row E ''completed'' (Some content) (t_language tr)
             (Some summaryModelName) None) (recordSummary E job video) w1))"

text \<open>\<open>run\<close>, with its tail from the transcript on.\<close>

definition run_from :: "environ \<Rightarrow> 'y pipeline \<Rightarrow> job \<Rightarrow> video \<Rightarrow> transcript \<Rightarrow> ('y, unit) jact" where
  "run_from E D job video tr =
     andthen (setStage E job ''chunking'') (\<lambda>_.
     andthen (setStage E job ''embedding'') (\<lambda>_.
     andthen (embedSections E D job video (Chunk (t_content tr))) (\<lambda>cs.
     andthen (if cs \<noteq> [] then map_err (wrapf ''worker: insert chunks'') (Chunks_Insert E cs) else ret ()) (\<lambda>_.
     andthen (map_err (wrapf ''worker: complete job'')
         (Jobs_UpdateStatus E (j_id job) (j_tenant job) ''completed'' ''completed'' None)) (\<lambda>_.
     andthen (map_err (wrapf ''worker: complete video'')
         (Videos_UpdateStatus E (v_id video) (j_tenant job) ''completed'')) (\<lambda>_.
       generateSummary E D job video tr))))))"

definition run :: "environ \<Rightarrow> 'y pipeline \<Rightarrow> job \<Rightarrow> ('y, unit) jact" where
  "run E D job =
     andthen (map_err (wrapf ''worker: cleanup existing video'')
         (Videos_DeleteByJobID E (j_id job) (j_tenant job))) (\<lambda>_.
     andthen (time_now E) (\<lambda>now. andthen (newUUIDString E) (\<lambda>u.
       (let video = \<lparr>v_id = u, v_tenant = j_tenant job, v_job = j_id job, v_title = j_title job,
          v_kind = j_kind job, v_file_key = j_file_key job, v_status = ''processing'', v_duration = None,
          v_deleted = None, v_created = now, v_updated = now\<rparr>
        in andthen (map_err (wrapf ''worker: create video'') (Videos_Create E video)) (\<lambda>_.
           andthen (map_err (wrapf ''worker: copy job segments'') (copyJobSegments E job u)) (\<lambda>_.
           andthen (extractTranscript E D job video) (run_from E D job video)))))))"

definition sanitizeError :: "go_error \<Rightarrow> string" where
  "sanitizeError e = (if error_text e = [] then ''worker: job failed'' else error_text e)"

definition fail_job :: "environ \<Rightarrow> job \<Rightarrow> go_error \<Rightarrow> ('y, unit) jact" where
  "fail_job E job cause =
     andthen (\<lambda>w. best_effort (Jobs_UpdateStatus E (j_id job) (j_tenant job) ''failed'' (jw_stage w)
         (Some (sanitizeError cause))) w)
       (\<lambda>_. best_effort (Videos_FailByJobID E (j_id job) (j_tenant job)))"

definition ProcessJob :: "environ \<Rightarrow> 'y pipeline \<Rightarrow> string \<Rightarrow> 'y job_world_scheme \<Rightarrow> 'y job_world_scheme" where
  "ProcessJob E D job0 w =
     (case Jobs_GetByIDAllTenants E job0 w of
        (Inl e, w1) \<Rightarrow> w1
      | (Inr job, w1) \<Rightarrow>
         (case run E D job (w1\<lparr>jw_stage := j_stage job\<rparr>) of
            (Inr _, w2) \<Rightarrow> w2
          | (Inl e, w2) \<Rightarrow> snd (fail_job E job e w2)))"

section \<open>The claim loop\<close>

definition worker_concurrency :: "int \<Rightarrow> int" where
  "worker_concurrency n0 = (let n = (if n0 \<le> 0 then 3 else n0) in if 5 < n then 5 else n)"

text \<open>
  The inner loop of \<open>workerLoop\<close> after a wake: claim and process until nothing is pending or the
  context is done (\<open>stop\<close>). It may run for ever when claims keep failing, hence the fuel; the
  state after a sleep is that of the next claim.
\<close>

datatype 'w drain = Drained 'w | Stopped 'w | OutOfFuel 'w

fun drain_loop :: "environ \<Rightarrow> 'y pipeline \<Rightarrow> ('y job_world_scheme \<Rightarrow> bool) \<Rightarrow> nat \<Rightarrow> 'y job_world_scheme
    \<Rightarrow> 'y job_world_scheme drain" where
  "drain_loop E D stop 0 w = OutOfFuel w"
| "drain_loop E D stop (Suc n) w =
     (case Jobs_ClaimNextPending E w of
        (Inl e, w1) \<Rightarrow> (if stop w1 then Stopped w1 else drain_loop E D stop n w1)
      | (Inr None, w1) \<Rightarrow> Drained w1
      | (Inr (Some job), w1) \<Rightarrow>
          (if j_id job = [] then Drained w1
           else (let w2 = ProcessJob E D (j_id job) w1
                 in if stop w2 then Stopped w2 else drain_loop E D stop n w2)))"

section \<open>Listener and retention\<close>

definition listenReconnectDelay :: duration where "listenReconnectDelay = 1 * second"
definition listenMaxReconnectDelay :: duration where "listenMaxReconnectDelay = 30 * second"

definition next_backoff :: "duration \<Rightarrow> duration" where
  "next_backoff b = (let b' = wrap64 (b * 2) in if listenMaxReconnectDelay < b' then listenMaxReconnectDelay else b')"

text \<open>
  \<open>notifyListener\<close> on the outcomes of its sessions: for each, whether \<open>listenOnce\<close> asks to
  reconnect, and whether the wait that follows ends without a shutdown. The result is the list of
  waits.
\<close>

fun notifyListener :: "(bool \<times> bool) list \<Rightarrow> duration \<Rightarrow> duration list" where
  "notifyListener [] delay = []"
| "notifyListener ((reconnect, waited) # os) delay =
     (if \<not> reconnect then [] else if \<not> waited then [delay]
      else delay # notifyListener os (next_backoff delay))"

definition retentionAge :: duration where "retentionAge = 7 * 24 * hour"

definition runRetention :: "environ \<Rightarrow> 'y pipeline \<Rightarrow> ('y, unit) jact" where
  "runRetention E D =
     andthen (time_now E) (\<lambda>now. \<lambda>w.
       (case Jobs_ListForRetention E (now + - retentionAge) w of
          (Inl e, w1) \<Rightarrow> (Inr (), w1)
        | (Inr js, w1) \<Rightarrow> for_each (\<lambda>j. best_effort (p_delete D (rj_file_key j))) js w1))"

end
