(* ===== verification/DemoData.thy ===== *)
theory DemoData
  imports Tenancy
begin

text \<open>
  A concrete environment and database for the witnesses: a Postgres whose uuids are the non-empty
  strings, no faults, no other session, a constant clock, and a database with one tenant, one key
  per scope, an upload intent, a failed job and a completed video.
\<close>

definition demo_pg :: pg where
  "demo_pg = \<lparr>pg_uuid = (\<lambda>s. if s = [] then None else Some s), pg_lower = (\<lambda>s. s),
     pg_names = (\<lambda>ns. ns), pg_nearest = (\<lambda>e cs. cs), pg_error = (\<lambda>e. ''sql'')\<rparr>"

definition demo_env :: environ where
  "demo_env = \<lparr>e_pg = demo_pg, e_fault = (\<lambda>n. None), e_lost = (\<lambda>n. False), e_other = (\<lambda>n d. d),
     e_time = (\<lambda>n. 5000), e_uuid = (\<lambda>n. ''u''), e_locked = (\<lambda>n j. False),
     e_go_uuid = (\<lambda>s. if s = [] then None else Some s)\<rparr>"

definition demo_job :: job where
  "demo_job = \<lparr>j_id = ''j1'', j_tenant = ''t'', j_intent = None, j_file_key = ''f1'', j_title = ''T'',
     j_kind = ''pdf'', j_status = ''failed'', j_stage = ''parsing'', j_error = Some ''x'', j_retry = 0,
     j_started = Some 1000, j_finished = Some 2000, j_created = 1000, j_updated = 2000\<rparr>"

definition demo_intent :: upload_intent where
  "demo_intent = \<lparr>i_id = ''i'', i_tenant = ''t'', i_file_key = ''f'', i_content_type = ''application/pdf'',
     i_status = ''issued'', i_expires = 9000, i_consumed = None, i_created = 1000\<rparr>"

definition demo_video :: video where
  "demo_video = \<lparr>v_id = ''v'', v_tenant = ''t'', v_job = ''j1'', v_title = ''T'', v_kind = ''pdf'',
     v_file_key = ''f1'', v_status = ''completed'', v_duration = None, v_deleted = None,
     v_created = 1000, v_updated = 2000\<rparr>"

definition demo_chunk :: chunk where
  "demo_chunk = \<lparr>c_id = ''c'', c_tenant = ''t'', c_video = ''v'', c_index = 0, c_content = ''text'',
     c_embedding = replicate 1024 1, c_created = 1000\<rparr>"

definition demo_key :: "string \<Rightarrow> string \<Rightarrow> api_key" where
  "demo_key k scope = \<lparr>k_id = k, k_tenant = ''t'', k_name = k, k_hash = k, k_scope = scope,
     k_revoked = None, k_last_used = None, k_created = 0, k_updated = 0\<rparr>"

definition demo_db :: db where
  "demo_db = \<lparr>d_tenants = [''t''], d_keys = [demo_key ''ka'' ''admin'', demo_key ''kq'' ''query''],
     d_intents = [demo_intent], d_jobs = [demo_job], d_segments = [], d_job_segments = [],
     d_videos = [demo_video], d_video_segments = [], d_transcripts = [], d_chunks = [demo_chunk],
     d_summaries = [], d_audit = []\<rparr>"

definition demo_world :: world where
  "demo_world = \<lparr>w_db = demo_db, w_tick = 0\<rparr>"

text \<open>Whether a run returned a value.\<close>

fun answered :: "('e + 'a) \<times> 'w \<Rightarrow> bool" where
  "answered (Inr a, w) = True"
| "answered (Inl e, w) = False"

lemma answered_ok: "answered p \<Longrightarrow> \<exists>a w. p = (Inr a, w)"
  by (cases p rule: answered.cases) auto

end
