(* ===== verification/WorkerFrame.thy ===== *)
theory WorkerFrame
  imports Worker DemoData
begin

text \<open>
  Which parts of the database a computation leaves alone, and that the pipeline changes the jobs
  table only through the status updates of its own job.
\<close>

section \<open>Parts of the database that a computation leaves alone\<close>

text \<open>\<open>preserves g m\<close>: whatever \<open>m\<close> returns, the part \<open>g\<close> of the database is as it was.\<close>

definition preserves :: "(db \<Rightarrow> 'v) \<Rightarrow> ('z, 'a) act \<Rightarrow> bool" where
  "preserves g m \<longleftrightarrow> (\<forall>w. g (w_db (snd (m w))) = g (w_db w))"

lemma preservesD: "preserves g m \<Longrightarrow> m w = (r, w') \<Longrightarrow> g (w_db w') = g (w_db w)"
  by (metis preserves_def snd_conv)

named_theorems preserving \<open>computations that leave a part of the database alone\<close>

lemma preserves_basic [preserving]:
  "preserves g (ret a)" "preserves g (fail e)" "preserves g (time_now E)" "preserves g (newUUIDString E)"
  by (simp_all add: preserves_def ret_def fail_def time_now_def newUUIDString_def)

lemma preserves_andthen [preserving]:
  "preserves g m \<Longrightarrow> (\<And>a. preserves g (f a)) \<Longrightarrow> preserves g (andthen m f)"
  by (auto simp: preserves_def andthen_def split: prod.split sum.split) (metis snd_conv)+

lemma preserves_map_err [preserving]: "preserves g m \<Longrightarrow> preserves g (map_err h m)"
  by (simp add: preserves_def)

lemma preserves_for_collect [preserving]: "(\<And>x. preserves g (f x)) \<Longrightarrow> preserves g (for_collect f xs)"
  by (induction xs) (auto intro!: preserving)

lemma preserves_for_each [preserving]: "(\<And>x. preserves g (f x)) \<Longrightarrow> preserves g (for_each f xs)"
  by (induction xs) (auto intro!: preserving)

lemma preserves_best_effort [preserving]: "preserves g m \<Longrightarrow> preserves g (best_effort m)"
  by (simp add: preserves_def best_effort_def)

lemma preserves_if [preserving]: "preserves g m \<Longrightarrow> preserves g n \<Longrightarrow> preserves g (if b then m else n)"
  by simp

lemma preserves_stmt [preserving]: "(\<And>d. g (snd (q d)) = g d) \<Longrightarrow> preserves g (stmt E q)"
  by (auto simp: preserves_def stmt_def split: option.split prod.split) (metis snd_conv)

lemma preserves_tx [preserving]:
  assumes "quiet E" "\<And>now. preserves g (fn now)"
  shows "preserves g (WithTenantTx E t fn)"
  unfolding preserves_def
proof
  fix w :: "'b world_scheme"
  have "keeps_db (\<lambda>d. g d = g (w_db w)) (WithTenantTx E t fn)"
    by (rule tx_keeps [OF quiet_stable [OF assms(1)]]) (use assms(2) in \<open>simp add: preserves_def keeps_def\<close>)
  then show "g (w_db (snd (WithTenantTx E t fn w))) = g (w_db w)" by (simp add: keeps_def)
qed

lemma preserves_tail: "m w = (r, w') \<Longrightarrow> preserves g m \<Longrightarrow> g (w_db w') = v \<longleftrightarrow> g (w_db w) = v"
  by (simp add: preservesD)

text \<open>The statements of the pipeline that do not write the jobs table.\<close>

lemma jobs_same [simp]:
  "d_jobs (snd (EnsureSegmentByName P s d)) = d_jobs d"
  "d_jobs (snd (AttachVideoSegment P a b c d)) = d_jobs d"
  "d_jobs (snd (ListSegmentNamesByJobID P a b d)) = d_jobs d"
  "d_jobs (snd (CreateVideo_q P v d)) = d_jobs d"
  "d_jobs (snd (DeleteVideoByJobID_q P a b d)) = d_jobs d"
  "d_jobs (snd (FailVideoByJobID_q P now a b d)) = d_jobs d"
  "d_jobs (snd (UpdateVideoStatus_q P now a b s1 d)) = d_jobs d"
  "d_jobs (snd (UpsertTranscript P tr d)) = d_jobs d"
  "d_jobs (snd (UpsertSummary P now sm d)) = d_jobs d"
  "d_jobs (snd (InsertChunk_q P c1 d)) = d_jobs d"
  by (auto simp: EnsureSegmentByName_def AttachVideoSegment_def attach_def
      ListSegmentNamesByJobID_def CreateVideo_q_def DeleteVideoByJobID_q_def FailVideoByJobID_q_def
      UpdateVideoStatus_q_def UpsertTranscript_def UpsertSummary_def InsertChunk_q_def
      uuid_arg_def violation_def fail_def guarded_snd Let_def split: option.split)

text \<open>\<open>jobs_view g\<close>: \<open>g\<close> looks at the jobs table only.\<close>

definition jobs_view :: "(db \<Rightarrow> 'v) \<Rightarrow> bool" where
  "jobs_view g \<longleftrightarrow> (\<forall>d d'. d_jobs d = d_jobs d' \<longrightarrow> g d = g d')"

lemma jobs_viewD: "jobs_view g \<Longrightarrow> d_jobs (snd (q d)) = d_jobs d \<Longrightarrow> g (snd (q d)) = g d"
  unfolding jobs_view_def by blast

lemma preserves_jobs_view: "preserves d_jobs m \<Longrightarrow> jobs_view g \<Longrightarrow> preserves g m"
  unfolding preserves_def jobs_view_def by blast

lemma jobs_same_repos:
  assumes "quiet E"
  shows "preserves d_jobs (Videos_DeleteByJobID E a b)"
    "preserves d_jobs (Videos_Create E v)"
    "preserves d_jobs (Videos_FailByJobID E a b)"
    "preserves d_jobs (Videos_UpdateStatus E a b s1)"
    "preserves d_jobs (Segments_ListNamesByJobID E a b)"
    "preserves d_jobs (Segments_EnsureByName E a b)"
    "preserves d_jobs (Segments_AttachVideoSegments E a b ids)"
    "preserves d_jobs (Transcripts_Upsert E tr)"
    "preserves d_jobs (Summaries_Upsert E sm)"
    "preserves d_jobs (Chunks_Insert E cs)"
proof -
  show "preserves d_jobs (Chunks_Insert E cs)"
    unfolding Chunks_Insert_def by (cases cs; simp) (intro preserving assms jobs_same)+
qed (unfold Videos_DeleteByJobID_def Videos_Create_def Videos_FailByJobID_def Videos_UpdateStatus_def
    Segments_ListNamesByJobID_def Segments_EnsureByName_def Segments_AttachVideoSegments_def
    Transcripts_Upsert_def Summaries_Upsert_def,
  (intro preserving assms jobs_same)+)

lemmas view_repos [preserving] = jobs_same_repos [THEN preserves_jobs_view]

text \<open>
  The ports of the pipeline do not write the database; each theorem that needs it says so.
\<close>

definition inert :: "('y, 'a) jact \<Rightarrow> bool" where
  "inert m \<longleftrightarrow> (\<forall>w. w_db (snd (m w)) = w_db w)"

definition inert_ports :: "'y pipeline \<Rightarrow> bool" where
  "inert_ports D \<longleftrightarrow>
     (\<forall>k f. inert (p_download D k f)) \<and> (\<forall>k. inert (p_delete D k)) \<and> inert (p_mkdir D) \<and>
     (\<forall>x w. w_db (p_rmdir D x w) = w_db w) \<and> (\<forall>x. inert (p_stat D x)) \<and> (\<forall>x. inert (p_detect D x)) \<and>
     (\<forall>x. inert (p_transcribe D x)) \<and> (\<forall>x y. inert (p_parse D x y)) \<and> (\<forall>x. inert (p_embed D x)) \<and>
     (\<forall>x y. inert (p_llm D x y))"

lemma preserves_ports [preserving]:
  assumes "inert_ports D"
  shows "preserves g (p_download D k f)" "preserves g (p_mkdir D)" "preserves g (p_stat D x)"
    "preserves g (p_detect D x)" "preserves g (p_transcribe D x)" "preserves g (p_parse D x y)"
    "preserves g (p_embed D ts)" "preserves g (p_llm D x y)" "preserves g (p_delete D x)"
  using assms by (simp_all add: inert_ports_def inert_def preserves_def)

lemma preserves_deferred [preserving]:
  "preserves g m \<Longrightarrow> inert_ports D \<Longrightarrow> preserves g (deferred (p_rmdir D x) m)"
  by (simp add: preserves_def deferred_def inert_ports_def split_beta)

section \<open>The pipeline and the jobs table\<close>

text \<open>
  \<open>steady E j g\<close>: a status update of the job \<open>j\<close> does not show in the view \<open>g\<close> of the jobs table.
\<close>

definition steady :: "environ \<Rightarrow> job \<Rightarrow> (db \<Rightarrow> 'v) \<Rightarrow> bool" where
  "steady E job g \<longleftrightarrow> jobs_view g \<and> (\<forall>i t now status stage msg d.
     pg_uuid (e_pg E) (j_id job) = Some i \<longrightarrow> pg_uuid (e_pg E) (j_tenant job) = Some t \<longrightarrow>
     g (d\<lparr>d_jobs := update_rows (\<lambda>j. j_id j = i \<and> j_tenant j = t) (status_update now status stage msg) (d_jobs d)\<rparr>) = g d)"

lemma steady_view: "steady E job g \<Longrightarrow> jobs_view g"
  by (simp add: steady_def)

lemma steady_status [preserving]:
  assumes "quiet E" "steady E job g"
  shows "preserves g (Jobs_UpdateStatus E (j_id job) (j_tenant job) status stage msg)"
proof -
  have "g (snd (UpdateJobStatus_q (e_pg E) now (j_id job) (j_tenant job) status stage m d)) = g d" for now m d
    using assms(2) by (auto simp: UpdateJobStatus_q_def uuid_arg_def violation_def fail_def guarded_snd
        Let_def steady_def split: option.split)
  then show ?thesis unfolding Jobs_UpdateStatus_def by (intro preserving assms(1))
qed

lemma steady_setStage [preserving]:
  "quiet E \<Longrightarrow> steady E job g \<Longrightarrow> preserves g (setStage E job stage)"
  unfolding setStage_def by (intro preserving) (simp_all add: preserves_def)

lemma preserves_copy [preserving]: "quiet E \<Longrightarrow> jobs_view g \<Longrightarrow> preserves g (copyJobSegments E job vid)"
  unfolding copyJobSegments_def by (intro preserving)

lemma preserves_transcript [preserving]:
  "quiet E \<Longrightarrow> jobs_view g \<Longrightarrow> preserves g (upsert_transcript E job video tr)"
  unfolding upsert_transcript_def Let_def by (intro preserving)

lemma preserves_validate [preserving]: "inert_ports D \<Longrightarrow> preserves g (validateMediaFile D p k kd n)"
  unfolding validateMediaFile_def by (intro preserving)

lemma preserves_extract [preserving]:
  "quiet E \<Longrightarrow> inert_ports D \<Longrightarrow> steady E job g \<Longrightarrow> preserves g (extractTranscript E D job video)"
  unfolding extractTranscript_def extract_from_def by (intro preserving steady_view)

lemma preserves_batches [preserving]:
  "inert_ports D \<Longrightarrow> preserves g (embed_batches E D job video now n bs)"
  by (induction E D job video now n bs rule: embed_batches.induct) (simp_all, intro preserving; simp)+

lemma preserves_embed [preserving]: "inert_ports D \<Longrightarrow> preserves g (embedSections E D job video ss)"
  unfolding embedSections_def by (intro preserving)

lemma preserves_summarize [preserving]:
  "inert_ports D \<Longrightarrow> preserves g (Summarize (p_summarizer D) (p_llm D) c)"
  unfolding Summarize_def direct_def by (intro preserving)

lemma preserves_attempts [preserving]: "inert_ports D \<Longrightarrow> preserves g (summarize_attempts D c n e)"
proof (induction n arbitrary: e)
  case (Suc n)
  then show ?case using preserves_summarize [OF Suc.prems, of g c]
    by (auto simp: preserves_def split: prod.split sum.split) (metis snd_conv)+
qed (simp add: preserving)

lemma preserves_record [preserving]:
  "quiet E \<Longrightarrow> jobs_view g \<Longrightarrow> preserves g (recordSummary E job video s)"
  unfolding recordSummary_def by (intro preserving)

lemma preserves_generate_if:
  fixes D :: "'y pipeline"
  assumes "inert_ports D" "\<And>s. preserves g (recordSummary E job video s :: ('y, unit) jact)"
  shows "preserves g (generateSummary E D job video tr)"
proof -
  have r: "preserves g (andthen (summary_row E st c l m e) (recordSummary E job video) :: ('y, unit) jact)" for st c l m e
    unfolding summary_row_def by (intro preserving assms)
  show ?thesis unfolding preserves_def
  proof
    fix w :: "'y job_world_scheme"
    show "g (w_db (snd (generateSummary E D job video tr w))) = g (w_db w)"
    proof (cases "summarize_attempts D (t_content tr) summaryAttempts (Leaf []) w")
      case (Pair x w1)
      from preservesD [OF preserves_attempts [OF assms(1)] this]
      have "g (w_db w1) = g (w_db w)" .
      with r Pair show ?thesis
        by (auto simp: generateSummary_def preserves_def ret_def split: sum.split)
    qed
  qed
qed

lemma preserves_generate [preserving]:
  "quiet E \<Longrightarrow> inert_ports D \<Longrightarrow> jobs_view g \<Longrightarrow> preserves g (generateSummary E D job video tr)"
  by (intro preserves_generate_if preserves_record)

lemma preserves_run_from [preserving]:
  "quiet E \<Longrightarrow> inert_ports D \<Longrightarrow> steady E job g \<Longrightarrow> preserves g (run_from E D job video tr)"
  unfolding run_from_def by (intro preserving steady_view)

lemma preserves_run: "quiet E \<Longrightarrow> inert_ports D \<Longrightarrow> steady E job g \<Longrightarrow> preserves g (run E D job)"
  unfolding run_def Let_def by (intro preserving steady_view)

lemma preserves_fail: "quiet E \<Longrightarrow> steady E job g \<Longrightarrow> preserves g (fail_job E job e)"
  unfolding fail_job_def
  by (rule preserves_andthen)
    (simp add: preserves_def best_effort_def steady_status [unfolded preserves_def],
     intro preserving steady_view)

lemma pool_stmt_read: "quiet E \<Longrightarrow> (\<And>now. read_only (q now)) \<Longrightarrow> preserves g (pool_stmt E q)"
  by (auto simp: preserves_def pool_stmt_def stmt_def quiet_def read_only_def split: option.split prod.split)
    (metis snd_conv)

lemma preserves_get_all: "quiet E \<Longrightarrow> preserves g (Jobs_GetByIDAllTenants E job0)"
  unfolding Jobs_GetByIDAllTenants_def by (intro preserving pool_stmt_read reading)

text \<open>The two views of the jobs table the proofs use.\<close>

definition job_idents :: "db \<Rightarrow> (string \<times> string) list" where
  "job_idents d = map (\<lambda>j. (j_id j, j_tenant j)) (d_jobs d)"

definition other_jobs :: "string \<Rightarrow> string \<Rightarrow> db \<Rightarrow> job list" where
  "other_jobs i t d = filter (\<lambda>j. \<not> (j_id j = i \<and> j_tenant j = t)) (d_jobs d)"

lemma status_keys [simp]:
  "j_id (status_update now status stage msg j) = j_id j"
  "j_tenant (status_update now status stage msg j) = j_tenant j"
  by (simp_all add: status_update_def)

lemma steady_idents: "steady E job job_idents"
  by (auto simp: steady_def jobs_view_def job_idents_def update_rows_def)

lemma filter_update_out:
  "(\<And>r. hit r \<Longrightarrow> \<not> Q r) \<Longrightarrow> (\<And>r. hit r \<Longrightarrow> \<not> Q (f r)) \<Longrightarrow> filter Q (update_rows hit f rs) = filter Q rs"
  by (induction rs) (auto simp: update_rows_def)

lemma steady_others:
  "pg_uuid (e_pg E) (j_id job) = Some i \<Longrightarrow> pg_uuid (e_pg E) (j_tenant job) = Some t \<Longrightarrow>
   steady E job (other_jobs i t)"
  by (auto simp: steady_def jobs_view_def other_jobs_def intro!: filter_update_out)

end
