(* ===== verification/WorkerJobs.thy ===== *)
theory WorkerJobs
  imports WorkerFrame
begin

text \<open>
  What becomes of jobs: how one ends, that the claim loop drains the queue, and that claims are
  distinct; then a queue of two jobs on which the properties of the worker are exercised.
\<close>

section \<open>How a job ends\<close>

definition faultless :: "environ \<Rightarrow> bool" where
  "faultless E \<longleftrightarrow> (\<forall>n. e_fault E n = None)"

lemma update_status_ok:
  fixes w :: "'z world_scheme"
  assumes "Jobs_UpdateStatus E i0 t0 status stage msg w = (Inr u, w')" "quiet E"
    "pg_uuid (e_pg E) i0 = Some i" "pg_uuid (e_pg E) t0 = Some t"
  shows "d_jobs (w_db w') = update_rows (\<lambda>j. j_id j = i \<and> j_tenant j = t)
    (status_update (e_time E (w_tick w)) status stage msg) (d_jobs (w_db w))"
  using assms unfolding Jobs_UpdateStatus_def
  by (elim tx_ok) (auto simp: io_ok stmt_ok UpdateJobStatus_q_def uuid_arg_ok guarded_ok one_row_ok quiet_def
      Let_def fromStrPtr_def)

lemma tx_faultless:
  assumes "faultless E" "quiet E" "fn (e_time E (w_tick w)) (w\<lparr>w_tick := w_tick w + 2\<rparr>) = (Inr a, w2)"
  shows "WithTenantTx E u fn w = (Inr a, w2\<lparr>w_tick := w_tick w2 + 1\<rparr>)"
  using assms by (simp add: WithTenantTx_def faultless_def quiet_def Let_def)

lemma guarded_run: "list_all fst cs \<Longrightarrow> guarded P cs m d = m d"
  by (induction P cs m rule: guarded.induct) (simp_all add: guarded.simps)

lemma one_row_run: "rs \<noteq> [] \<Longrightarrow> one_row rs d = (Inr (hd rs), d)"
  by (cases rs) (simp_all add: one_row_def ret_def)

lemma update_status_runs:
  assumes "faultless E" "quiet E" "pg_uuid (e_pg E) i0 = Some i" "pg_uuid (e_pg E) t0 = Some t"
    "(i, t) \<in> set (job_idents (w_db w))" "status \<in> set job_statuses"
  shows "\<exists>w'. Jobs_UpdateStatus E i0 t0 status stage msg w = (Inr (), w')"
proof -
  let ?now = "e_time E (w_tick w)" and ?w = "w\<lparr>w_tick := w_tick w + 2\<rparr>"
  let ?q = "UpdateJobStatus_q (e_pg E) ?now i0 t0 status stage (fromStrPtr msg)"
  have "filter (\<lambda>j. j_id j = i \<and> j_tenant j = t) (d_jobs (w_db w)) \<noteq> []"
    using assms(5) by (auto simp: job_idents_def filter_empty_conv)
  then obtain j d where "?q (w_db w) = (Inr j, d)"
    using assms(3,4,6) by (simp add: UpdateJobStatus_q_def uuid_arg_def guarded_run one_row_run Let_def)
  then have "andthen (stmt E ?q) (\<lambda>_. ret ()) ?w = (Inr (), ?w\<lparr>w_db := d, w_tick := w_tick w + 3\<rparr>)"
    using assms(1) by (simp add: andthen_def stmt_def faultless_def ret_def)
  from tx_faultless [where fn = "\<lambda>now. andthen (stmt E (UpdateJobStatus_q (e_pg E) now i0 t0 status stage (fromStrPtr msg)))
      (\<lambda>_. ret ())", OF assms(1,2) this, of t0]
  show ?thesis unfolding Jobs_UpdateStatus_def by blast
qed

text \<open>\<open>ends i t P d\<close>: the rows of the job satisfy \<open>P\<close>.\<close>

definition ends :: "string \<Rightarrow> string \<Rightarrow> (job \<Rightarrow> bool) \<Rightarrow> db \<Rightarrow> bool" where
  "ends i t Q d \<longleftrightarrow> (\<forall>j \<in> set (d_jobs d). j_id j = i \<and> j_tenant j = t \<longrightarrow> Q j)"

lemma ends_view: "jobs_view (ends i t Q)"
  by (simp add: jobs_view_def ends_def)

lemma ends_update:
  "d_jobs d = update_rows (\<lambda>j. j_id j = i \<and> j_tenant j = t) (status_update now status stage msg) js \<Longrightarrow>
   ends i t (\<lambda>j. j_status j = status \<and> j_error j = msg) d"
  unfolding ends_def
proof (intro ballI impI)
  fix j
  assume d: "d_jobs d = update_rows (\<lambda>j. j_id j = i \<and> j_tenant j = t) (status_update now status stage msg) js"
    and j: "j \<in> set (d_jobs d)" "j_id j = i \<and> j_tenant j = t"
  from j(1) obtain r where "j = (if j_id r = i \<and> j_tenant r = t then status_update now status stage msg r else r)"
    unfolding d update_rows_def set_map by (rule imageE)
  with j(2) have "j = status_update now status stage msg r" by metis
  then show "j_status j = status \<and> j_error j = msg" by (simp add: status_update_def)
qed

lemma run_from_completes:
  fixes w :: "'y job_world_scheme"
  assumes "run_from E D job video tr w = (Inr u, w')" "quiet E" "inert_ports D"
    "pg_uuid (e_pg E) (j_id job) = Some i" "pg_uuid (e_pg E) (j_tenant job) = Some t"
  shows "ends i t (\<lambda>j. j_status j = ''completed'' \<and> j_error j = None) (w_db w')"
proof -
  from assms(1) obtain w1 w2 :: "'y job_world_scheme" where
    u: "Jobs_UpdateStatus E (j_id job) (j_tenant job) ''completed'' ''completed'' None w1 = (Inr (), w2)" and
    v: "andthen (map_err (wrapf ''worker: complete video'')
         (Videos_UpdateStatus E (v_id video) (j_tenant job) ''completed'')) (\<lambda>_.
       generateSummary E D job video tr) w2 = (Inr u, w')" (is "?m w2 = _")
    unfolding run_from_def by (force simp: andthen_ok map_err_ok)
  have "preserves (ends i t (\<lambda>j. j_status j = ''completed'' \<and> j_error j = None)) ?m"
    by (intro preserving assms(2,3) ends_view)
  from preservesD [OF this v] ends_update [OF update_status_ok [OF u assms(2,4,5)]]
  show ?thesis by simp
qed

lemma run_completes:
  fixes w :: "'y job_world_scheme"
  assumes "run E D job w = (Inr u, w')" "quiet E" "inert_ports D"
    "pg_uuid (e_pg E) (j_id job) = Some i" "pg_uuid (e_pg E) (j_tenant job) = Some t"
  shows "ends i t (\<lambda>j. j_status j = ''completed'' \<and> j_error j = None) (w_db w')"
proof -
  from assms(1) obtain video tr and w1 :: "'y job_world_scheme" where
    "run_from E D job video tr w1 = (Inr u, w')"
    unfolding run_def Let_def by (force simp: andthen_ok)
  then show ?thesis by (rule run_from_completes [OF _ assms(2-5)])
qed

lemma fail_job_fails:
  fixes w :: "'y job_world_scheme"
  assumes "quiet E" "faultless E"
    "pg_uuid (e_pg E) (j_id job) = Some i" "pg_uuid (e_pg E) (j_tenant job) = Some t"
    "(i, t) \<in> set (job_idents (w_db w))"
  shows "ends i t (\<lambda>j. j_status j = ''failed'' \<and> j_error j = Some (sanitizeError e)) (w_db (snd (fail_job E job e w)))"
proof -
  have "''failed'' \<in> set job_statuses" by (simp add: job_statuses_def)
  from update_status_runs [OF assms(2,1,3-5) this] obtain w1 :: "'y job_world_scheme" where
    u: "Jobs_UpdateStatus E (j_id job) (j_tenant job) ''failed'' (jw_stage w) (Some (sanitizeError e)) w = (Inr (), w1)"
    by blast
  have "preserves (ends i t (\<lambda>j. j_status j = ''failed'' \<and> j_error j = Some (sanitizeError e)))
      (best_effort (Videos_FailByJobID E (j_id job) (j_tenant job)) :: ('y, unit) jact)"
    by (intro preserving assms(1) ends_view)
  moreover have "fail_job E job e w = best_effort (Videos_FailByJobID E (j_id job) (j_tenant job)) w1"
    by (simp add: fail_job_def andthen_def best_effort_def u)
  ultimately show ?thesis using ends_update [OF update_status_ok [OF u assms(1,3,4)]]
    by (simp add: preserves_def)
qed

text \<open>
  The primary key of \<open>jobs\<close>, and that stored uuids are canonical: the text Postgres renders for a
  uuid column is what it reads back.
\<close>

definition keys_ok :: "environ \<Rightarrow> db \<Rightarrow> bool" where
  "keys_ok E d \<longleftrightarrow> distinct (map fst (job_idents d)) \<and>
     (\<forall>(i, t) \<in> set (job_idents d). i \<noteq> [] \<and> pg_uuid (e_pg E) i = Some i \<and> pg_uuid (e_pg E) t = Some t)"

lemma keys_okD:
  assumes "keys_ok E d" "job \<in> set (d_jobs d)"
  shows "j_id job \<noteq> []" "pg_uuid (e_pg E) (j_id job) = Some (j_id job)"
    "pg_uuid (e_pg E) (j_tenant job) = Some (j_tenant job)" "(j_id job, j_tenant job) \<in> set (job_idents d)"
  using assms by (auto simp: keys_ok_def job_idents_def)

lemma distinct_filter_key: "distinct (map f xs) \<Longrightarrow> x \<in> set xs \<Longrightarrow> filter (\<lambda>y. f y = f x) xs = [x]"
proof (induction xs)
  case (Cons a xs)
  have "f y \<noteq> f a" if "y \<in> set xs" for y using Cons.prems(1) that by (auto simp: image_iff)
  with Cons show ?case by (cases "x = a") (auto simp: filter_empty_conv)
qed simp

lemma keys_ok_distinct: "keys_ok E d \<Longrightarrow> distinct (map j_id (d_jobs d))"
  by (simp add: keys_ok_def job_idents_def comp_def)

lemma get_all_runs:
  fixes w :: "'z world_scheme"
  assumes "faultless E" "quiet E" "keys_ok E (w_db w)" "job \<in> set (d_jobs (w_db w))"
  shows "Jobs_GetByIDAllTenants E (j_id job) w = (Inr job, w\<lparr>w_tick := w_tick w + 1\<rparr>)"
proof -
  have "filter (\<lambda>j. j_id j = j_id job) (d_jobs (w_db w)) = [job]"
    by (rule distinct_filter_key [OF keys_ok_distinct [OF assms(3)] assms(4)])
  then show ?thesis using assms keys_okD [OF assms(3,4)]
    by (simp add: Jobs_GetByIDAllTenants_def map_err_def andthen_def pool_stmt_def stmt_def faultless_def quiet_def
        GetJobByIDAllTenants_q_def uuid_arg_def one_row_def ret_def mapJob_def uuidPtr_def toStrPtr_def
        toTimePtr_def toTime_def)
qed

definition settled :: "job \<Rightarrow> bool" where
  "settled j \<longleftrightarrow> j_status j = ''completed'' \<and> j_error j = None \<or>
     j_status j = ''failed'' \<and> (\<exists>msg. msg \<noteq> [] \<and> j_error j = Some msg)"

lemma sanitizeError_nonempty [simp]: "sanitizeError e \<noteq> []"
  by (simp add: sanitizeError_def)

lemma ends_mono: "ends i t Q d \<Longrightarrow> (\<And>j. Q j \<Longrightarrow> R j) \<Longrightarrow> ends i t R d"
  by (auto simp: ends_def)

lemma process_job_jobs:
  fixes w :: "'y job_world_scheme"
  assumes "quiet E" "faultless E" "inert_ports D" "keys_ok E (w_db w)" "job \<in> set (d_jobs (w_db w))"
  defines "d' \<equiv> w_db (ProcessJob E D (j_id job) w)"
  shows "job_idents d' = job_idents (w_db w)"
    "other_jobs (j_id job) (j_tenant job) d' = other_jobs (j_id job) (j_tenant job) (w_db w)"
    "ends (j_id job) (j_tenant job) settled d'"
proof -
  note k = keys_okD [OF assms(4,5)]
  let ?w = "w\<lparr>w_tick := Suc (w_tick w), jw_stage := j_stage job\<rparr>"
  note g = get_all_runs [OF assms(2,1,4,5)]
  obtain r w2 where r: "run E D job ?w = (r, w2)" by fastforce
  have p: "ProcessJob E D (j_id job) w = (case r of Inr _ \<Rightarrow> w2 | Inl e \<Rightarrow> snd (fail_job E job e w2))"
    by (cases r) (simp_all add: ProcessJob_def g r)
  have s: "f d' = f (w_db w)" if "steady E job f" for f :: "db \<Rightarrow> 'v"
  proof -
    have "preserves f (fail_job E job e :: ('y, unit) jact)" for e by (rule preserves_fail [OF assms(1) that])
    with preservesD [OF preserves_run [OF assms(1,3) that] r] show ?thesis
      by (cases r) (simp_all add: d'_def p preserves_def)
  qed
  show "job_idents d' = job_idents (w_db w)" by (rule s [OF steady_idents])
  show "other_jobs (j_id job) (j_tenant job) d' = other_jobs (j_id job) (j_tenant job) (w_db w)"
    by (rule s [OF steady_others [OF k(2,3)]])
  show "ends (j_id job) (j_tenant job) settled d'"
  proof (cases r)
    case (Inl e)
    have "job_idents (w_db w2) = job_idents (w_db w)"
      using preservesD [OF preserves_run [OF assms(1,3) steady_idents] r] by simp
    with k(4) have "(j_id job, j_tenant job) \<in> set (job_idents (w_db w2))" by simp
    from ends_mono [OF fail_job_fails [OF assms(1,2) k(2,3) this]] show ?thesis
      by (simp add: d'_def p Inl settled_def)
  next
    case (Inr u)
    from ends_mono [OF run_completes [OF r [unfolded Inr] assms(1,3) k(2,3)]] show ?thesis
      by (simp add: d'_def p Inr settled_def)
  qed
qed


section \<open>The claim loop\<close>

definition pending_jobs :: "db \<Rightarrow> job list" where
  "pending_jobs d = filter (\<lambda>j. j_status j = ''pending'') (d_jobs d)"

lemma claim_keys [simp]:
  "j_id (claim_update now j) = j_id j" "j_tenant (claim_update now j) = j_tenant j"
  "j_status (claim_update now j) = ''processing''"
  by (simp_all add: claim_update_def)

text \<open>What a claim does when nothing fails: the oldest pending job that no other session holds.\<close>

definition claimable :: "environ \<Rightarrow> 'z world_scheme \<Rightarrow> job list" where
  "claimable E w = sort_key j_created
     (filter (\<lambda>j. j_status j = ''pending'' \<and> \<not> e_locked E (w_tick w) j) (d_jobs (w_db w)))"

lemma claim_none:
  assumes "faultless E" "quiet E" "claimable E w = []"
  shows "Jobs_ClaimNextPending E w = (Inr None, w\<lparr>w_tick := w_tick w + 1\<rparr>)"
  using assms by (simp add: Jobs_ClaimNextPending_def pool_stmt_def stmt_def faultless_def quiet_def
      ClaimNextPendingJob_q_def claimable_def)

lemma claim_some:
  fixes w :: "'z world_scheme"
  assumes "faultless E" "quiet E" "keys_ok E (w_db w)" "claimable E w = n # rest"
  defines "now \<equiv> e_time E (w_tick w)"
  shows "Jobs_ClaimNextPending E w = (Inr (Some (claim_update now n)), w\<lparr>w_tick := w_tick w + 1,
    w_db := (w_db w)\<lparr>d_jobs := update_rows (\<lambda>j. j_id j = j_id n) (claim_update now) (d_jobs (w_db w))\<rparr>\<rparr>)"
proof -
  have "n \<in> set (claimable E w)" by (simp add: assms(4))
  then have "n \<in> set (d_jobs (w_db w))" by (simp add: claimable_def)
  then have "filter (\<lambda>j. j_id j = j_id n) (d_jobs (w_db w)) = [n]"
    by (rule distinct_filter_key [OF keys_ok_distinct [OF assms(3)]])
  then show ?thesis using assms(1,2) assms(4) [unfolded claimable_def]
    by (simp add: Jobs_ClaimNextPending_def pool_stmt_def stmt_def faultless_def quiet_def
        ClaimNextPendingJob_q_def one_row_def ret_def Let_def now_def)
qed

lemma claim_cases:
  fixes w :: "'z world_scheme"
  assumes "faultless E" "quiet E" "keys_ok E (w_db w)"
  obtains "claimable E w = []" "Jobs_ClaimNextPending E w = (Inr None, w\<lparr>w_tick := w_tick w + 1\<rparr>)"
  | n now and w1 :: "'z world_scheme" where "n \<in> set (claimable E w)" "n \<in> set (d_jobs (w_db w))"
    "Jobs_ClaimNextPending E w = (Inr (Some (claim_update now n)), w1)"
    "d_jobs (w_db w1) = update_rows (\<lambda>j. j_id j = j_id n) (claim_update now) (d_jobs (w_db w))"
proof (cases "claimable E w")
  case Nil
  then show ?thesis using claim_none [OF assms(1,2)] that(1) by blast
next
  case (Cons n rest)
  have n: "n \<in> set (claimable E w)" by (simp add: Cons)
  then have "n \<in> set (d_jobs (w_db w))" by (simp add: claimable_def)
  with that(2) n claim_some [OF assms Cons] show ?thesis by simp
qed

lemma claim_idents:
  "d_jobs d' = update_rows hit (claim_update now) (d_jobs d) \<Longrightarrow> job_idents d' = job_idents d"
  by (simp add: job_idents_def update_rows_def)

text \<open>\<open>outcome js d\<close>: a job of \<open>d\<close> is settled, or was in \<open>js\<close> and not pending there.\<close>

definition outcome :: "job list \<Rightarrow> db \<Rightarrow> bool" where
  "outcome js d \<longleftrightarrow> (\<forall>j \<in> set (d_jobs d). settled j \<or> j \<in> set js \<and> j_status j \<noteq> ''pending'')"

lemma not_settled_pending: "settled j \<Longrightarrow> j_status j \<noteq> ''pending''"
  by (auto simp: settled_def)

lemma ident_mem: "x \<in> set (d_jobs d) \<Longrightarrow> (j_id x, j_tenant x) \<in> set (job_idents d)"
  by (auto simp: job_idents_def)

text \<open>One round of the loop: the claimed job is settled, and the others are as they were.\<close>

lemma round_jobs:
  fixes w w1 :: "'y job_world_scheme"
  assumes "quiet E" "faultless E" "inert_ports D" "keys_ok E (w_db w)" "n \<in> set (d_jobs (w_db w))"
    and c: "d_jobs (w_db w1) = update_rows (\<lambda>j. j_id j = j_id n) (claim_update now) (d_jobs (w_db w))"
  defines "d' \<equiv> w_db (ProcessJob E D (j_id n) w1)"
  shows "job_idents d' = job_idents (w_db w)"
    "j \<in> set (d_jobs d') \<Longrightarrow> settled j \<or> j \<in> set (d_jobs (w_db w)) \<and> j_id j \<noteq> j_id n"
    "filter (\<lambda>j. j_id j \<noteq> j_id n) (d_jobs d') = filter (\<lambda>j. j_id j \<noteq> j_id n) (d_jobs (w_db w))"
proof -
  let ?m = "claim_update now n"
  have i1: "job_idents (w_db w1) = job_idents (w_db w)" by (rule claim_idents [OF c])
  then have k1: "keys_ok E (w_db w1)" using assms(4) by (simp add: keys_ok_def)
  have m: "?m \<in> set (d_jobs (w_db w1))" unfolding c update_rows_def set_map
    by (rule image_eqI [OF _ assms(5)]) simp
  note f = process_job_jobs [OF assms(1-3) k1 m, unfolded claim_keys, folded d'_def]
  show i: "job_idents d' = job_idents (w_db w)" using f(1) i1 by simp
  have u: "j_tenant x = j_tenant n" if "x \<in> set (d_jobs d)" "j_id x = j_id n" "job_idents d = job_idents (w_db w)"
    for x d
  proof -
    have "(j_id x, j_tenant x) \<in> set (job_idents (w_db w))" "(j_id n, j_tenant n) \<in> set (job_idents (w_db w))"
      using ident_mem [OF that(1)] ident_mem [OF assms(5)] that(3) by simp_all
    with assms(4) that(2) show ?thesis unfolding keys_ok_def by (metis eq_key_imp_eq_value)
  qed
  have o: "other_jobs (j_id n) (j_tenant n) d = filter (\<lambda>j. j_id j \<noteq> j_id n) (d_jobs d)"
    if "job_idents d = job_idents (w_db w)" for d
    unfolding other_jobs_def using u [OF _ _ that] by (intro filter_cong refl) blast
  have w1: "filter (\<lambda>j. j_id j \<noteq> j_id n) (d_jobs (w_db w1)) = filter (\<lambda>j. j_id j \<noteq> j_id n) (d_jobs (w_db w))"
    unfolding c by (rule filter_update_out) simp_all
  show r: "filter (\<lambda>j. j_id j \<noteq> j_id n) (d_jobs d') = filter (\<lambda>j. j_id j \<noteq> j_id n) (d_jobs (w_db w))"
    using f(2) unfolding o [OF i] o [OF i1] w1 .
  show "settled j \<or> j \<in> set (d_jobs (w_db w)) \<and> j_id j \<noteq> j_id n" if "j \<in> set (d_jobs d')"
  proof (cases "j_id j = j_id n")
    case True
    with f(3) u [OF that True i] that show ?thesis unfolding ends_def by blast
  next
    case False
    with that have "j \<in> set (filter (\<lambda>j. j_id j \<noteq> j_id n) (d_jobs d'))" by simp
    then show ?thesis unfolding r by simp
  qed
qed

lemma pending_decreases:
  assumes "n \<in> set js" "j_status n = ''pending''" "filter (\<lambda>j. j_id j \<noteq> j_id n) js' = filter (\<lambda>j. j_id j \<noteq> j_id n) js"
    "\<And>j. j \<in> set js' \<Longrightarrow> j_id j = j_id n \<Longrightarrow> j_status j \<noteq> ''pending''"
  shows "length (filter (\<lambda>j. j_status j = ''pending'') js') < length (filter (\<lambda>j. j_status j = ''pending'') js)"
proof -
  let ?p = "\<lambda>j. j_status j = ''pending''" and ?o = "\<lambda>j. j_id j \<noteq> j_id n"
  have "filter ?p js' = filter (\<lambda>j. ?p j \<and> ?o j) js'" using assms(4) by (intro filter_cong) auto
  also have "\<dots> = filter ?p (filter ?o js')" by (simp add: conj_commute)
  also have "\<dots> = filter ?p (filter ?o js)" by (simp only: assms(3))
  also have "\<dots> = filter ?o (filter ?p js)" by (simp add: conj_commute)
  finally show ?thesis using assms(1,2) length_filter_less [of n "filter ?p js" ?o] by simp
qed

lemma drain_outcome:
  fixes w :: "'y job_world_scheme"
  assumes "quiet E" "faultless E" "inert_ports D" "\<And>n j. \<not> e_locked E n j"
    and "keys_ok E (w_db w)" "length (pending_jobs (w_db w)) < fuel"
  shows "\<exists>w'. job_idents (w_db w') = job_idents (w_db w) \<and>
    (drain_loop E D stop fuel w = Drained w' \<and> outcome (d_jobs (w_db w)) (w_db w') \<or>
     drain_loop E D stop fuel w = Stopped w' \<and> stop w')"
  using assms(5,6)
proof (induction fuel arbitrary: w)
  case (Suc fuel)
  show ?case
  proof (rule claim_cases [OF assms(2,1) Suc.prems(1)])
    let ?w' = "w\<lparr>w_tick := w_tick w + 1\<rparr>"
    assume none: "claimable E w = []" "Jobs_ClaimNextPending E w = (Inr None, ?w')"
    then have "filter (\<lambda>j. j_status j = ''pending'') (d_jobs (w_db w)) = []"
      using assms(4) by (metis (no_types, lifting) claimable_def filter_cong set_empty set_sort)
    then have "outcome (d_jobs (w_db w)) (w_db ?w')"
      by (auto simp: outcome_def filter_empty_conv)
    with none(2) show ?thesis by (intro exI [of _ ?w']) simp
  next
    fix n now and w1 :: "'y job_world_scheme"
    assume n: "n \<in> set (claimable E w)" "n \<in> set (d_jobs (w_db w))" and
      cl: "Jobs_ClaimNextPending E w = (Inr (Some (claim_update now n)), w1)" and
      c: "d_jobs (w_db w1) = update_rows (\<lambda>j. j_id j = j_id n) (claim_update now) (d_jobs (w_db w))"
    let ?w2 = "ProcessJob E D (j_id n) w1"
    note r = round_jobs [OF assms(1-3) Suc.prems(1) n(2) c]
    have pn: "j_status n = ''pending''" using n(1) by (simp add: claimable_def)
    have loop: "drain_loop E D stop (Suc fuel) w = (if stop ?w2 then Stopped ?w2 else drain_loop E D stop fuel ?w2)"
      using keys_okD(1) [OF Suc.prems(1) n(2)] by (simp add: cl Let_def)
    have "j_status j \<noteq> ''pending''" if "j \<in> set (d_jobs (w_db ?w2))" "j_id j = j_id n" for j
      using r(2) [OF that(1)] that(2) not_settled_pending by blast
    from pending_decreases [OF n(2) pn r(3) this] Suc.prems(2)
    have "length (pending_jobs (w_db ?w2)) < fuel" by (simp add: pending_jobs_def)
    moreover have "keys_ok E (w_db ?w2)" using Suc.prems(1) r(1) by (simp add: keys_ok_def)
    ultimately obtain w' where w': "job_idents (w_db w') = job_idents (w_db ?w2)"
      "drain_loop E D stop fuel ?w2 = Drained w' \<and> outcome (d_jobs (w_db ?w2)) (w_db w') \<or>
       drain_loop E D stop fuel ?w2 = Stopped w' \<and> stop w'"
      using Suc.IH by blast
    have "outcome (d_jobs (w_db w)) (w_db w')" if "outcome (d_jobs (w_db ?w2)) (w_db w')"
      unfolding outcome_def using that r(2) unfolding outcome_def by blast
    with w' r(1) loop show ?thesis by (cases "stop ?w2") (metis, metis)
  qed
qed simp


text \<open>Consecutive claims.\<close>

lemma claim_ok:
  fixes w :: "'z world_scheme"
  assumes "Jobs_ClaimNextPending E w = (Inr r, w')" "quiet E" "keys_ok E (w_db w)"
  shows "job_idents (w_db w') = job_idents (w_db w) \<and> (r = None \<and> pending_jobs (w_db w') = pending_jobs (w_db w) \<or>
    (\<exists>n now. n \<in> set (pending_jobs (w_db w)) \<and> r = Some (claim_update now n) \<and>
      pending_jobs (w_db w') = filter (\<lambda>j. j_id j \<noteq> j_id n) (pending_jobs (w_db w))))"
proof -
  let ?now = "e_time E (w_tick w)" and ?L = "e_locked E (w_tick w)"
  let ?q = "ClaimNextPendingJob_q ?now ?L (w_db w)"
  have run: "e_fault E (w_tick w) = None \<and> w_db w' = snd ?q \<and>
      (fst ?q = Inl NoRows \<or> (\<exists>row. fst ?q = Inr row) \<or> (\<exists>e. fst ?q = Inl e)) \<and>
      (r = None \<and> (\<exists>e. fst ?q = Inl e) \<or> (\<exists>row. fst ?q = Inr row \<and> r = Some row)) \<or>
      (\<exists>e. e_fault E (w_tick w) = Some e \<and> r = None \<and> w_db w' = w_db w)"
    using assms(1,2) by (cases ?q; cases "fst ?q")
      (auto simp: Jobs_ClaimNextPending_def pool_stmt_def stmt_def quiet_def split: option.splits if_splits)
  show ?thesis
  proof (cases "claimable E w")
    case Nil
    then have "?q = (Inl NoRows, w_db w)" by (simp add: ClaimNextPendingJob_q_def claimable_def)
    with run show ?thesis by auto
  next
    case (Cons n rest)
    have n: "n \<in> set (claimable E w)" by (simp add: Cons)
    then have m: "n \<in> set (d_jobs (w_db w))" and pn: "n \<in> set (pending_jobs (w_db w))"
      by (simp_all add: claimable_def pending_jobs_def)
    have "filter (\<lambda>j. j_id j = j_id n) (d_jobs (w_db w)) = [n]"
      by (rule distinct_filter_key [OF keys_ok_distinct [OF assms(3)] m])
    then have q: "?q = (Inr (claim_update ?now n),
        (w_db w)\<lparr>d_jobs := update_rows (\<lambda>j. j_id j = j_id n) (claim_update ?now) (d_jobs (w_db w))\<rparr>)" (is "_ = (_, ?d)")
      using Cons by (simp add: ClaimNextPendingJob_q_def claimable_def one_row_def ret_def Let_def)
    have "filter (\<lambda>j. j_status j = ''pending'') (update_rows (\<lambda>j. j_id j = j_id n) (claim_update ?now) js) =
        filter (\<lambda>j. j_id j \<noteq> j_id n) (filter (\<lambda>j. j_status j = ''pending'') js)" for js
      by (induction js) (auto simp: update_rows_def)
    then have "pending_jobs ?d = filter (\<lambda>j. j_id j \<noteq> j_id n) (pending_jobs (w_db w))"
      by (simp add: pending_jobs_def)
    moreover have "job_idents ?d = job_idents (w_db w)" by (rule claim_idents) simp
    ultimately show ?thesis using run q pn by auto
  qed
qed

definition claimed :: "job option list \<Rightarrow> string list" where
  "claimed rs = map j_id (concat (map (case_option [] (\<lambda>j. [j])) rs))"

lemma claimed_simps [simp]:
  "claimed [] = []" "claimed (None # rs) = claimed rs" "claimed (Some j # rs) = j_id j # claimed rs"
  by (simp_all add: claimed_def)

lemma claims_distinct_aux:
  fixes w :: "'z world_scheme"
  assumes "for_collect (\<lambda>_. Jobs_ClaimNextPending E) workers w = (Inr rs, w')" "quiet E" "keys_ok E (w_db w)"
  shows "distinct (claimed rs) \<and> set (claimed rs) \<subseteq> j_id ` set (pending_jobs (w_db w))"
  using assms(1,3)
proof (induction workers arbitrary: w rs)
  case Nil
  then show ?case by (simp add: io_ok)
next
  case (Cons x workers)
  from Cons.prems(1) obtain r rs' and w1 :: "'z world_scheme" where
    c: "Jobs_ClaimNextPending E w = (Inr r, w1)" and
    l: "for_collect (\<lambda>_. Jobs_ClaimNextPending E) workers w1 = (Inr rs', w')" and rs: "rs = r # rs'"
    by (auto simp: io_ok)
  from claim_ok [OF c assms(2) Cons.prems(2)] have "keys_ok E (w_db w1)"
    using Cons.prems(2) by (simp add: keys_ok_def)
  note IH = Cons.IH [OF l this]
  from claim_ok [OF c assms(2) Cons.prems(2)] consider
      "r = None" "pending_jobs (w_db w1) = pending_jobs (w_db w)"
    | n now where "n \<in> set (pending_jobs (w_db w))" "r = Some (claim_update now n)"
      "pending_jobs (w_db w1) = filter (\<lambda>j. j_id j \<noteq> j_id n) (pending_jobs (w_db w))" by blast
  then show ?case
  proof cases
    case 1
    with IH rs show ?thesis by simp
  next
    case 2
    with IH have "distinct (claimed rs')" "set (claimed rs') \<subseteq> j_id ` {j \<in> set (pending_jobs (w_db w)). j_id j \<noteq> j_id n}"
      by simp_all
    with 2(1,2) rs show ?thesis by auto
  qed
qed

text \<open>
  No job is claimed twice: claims made one after the other by any workers, whatever rows are
  locked and whichever claims fail to find one, take different jobs, and each was pending before
  the first of them.
\<close>

theorem claims_distinct:
  assumes "for_collect (\<lambda>_. Jobs_ClaimNextPending E) workers w = (Inr rs, w')" "quiet E" "keys_ok E (w_db w)"
  shows "distinct (map j_id (concat (map (case_option [] (\<lambda>j. [j])) rs))) \<and>
    set (map j_id (concat (map (case_option [] (\<lambda>j. [j])) rs))) \<subseteq>
      j_id ` {j \<in> set (d_jobs (w_db w)). j_status j = ''pending''}"
  using claims_distinct_aux [OF assms] by (simp add: claimed_def pending_jobs_def)

section \<open>A queue of two jobs\<close>

definition queue_job :: "string \<Rightarrow> job" where
  "queue_job i = demo_job\<lparr>j_id := i, j_file_key := i @ ''.pdf'', j_status := ''pending'', j_stage := ''queued'', j_error := None,
     j_started := None, j_finished := None\<rparr>"

definition queue_world :: "string list job_world_scheme" where
  "queue_world = \<lparr>w_db = demo_db\<lparr>d_jobs := [queue_job ''a'', queue_job ''b'', demo_job\<lparr>j_finished := Some (- 1000000000000000)\<rparr>]\<rparr>,
     w_tick = 0, jw_stage = [], \<dots> = []\<rparr>"

text \<open>Ports that succeed; the store logs deletions in the rest of the world.\<close>

definition queue_pipe :: "string list pipeline" where
  "queue_pipe = \<lparr>p_download = (\<lambda>k f. ret ()), p_delete = (\<lambda>k w. (Inr (), job_world.more_update (\<lambda>l. l @ [k]) w)),
     p_mkdir = ret ''/tmp/x'', p_rmdir = (\<lambda>x w. w), p_stat = (\<lambda>p. ret 10), p_detect = (\<lambda>p. ret ''application/pdf''),
     p_transcribe = (\<lambda>p. ret (transcript_of ''text'' None ''m'')), p_parse = (\<lambda>p c. ret ''One. Two.''),
     p_embed = (\<lambda>ts. ret (map (\<lambda>_. replicate 1024 1) ts)), p_llm = (\<lambda>p u. ret ''summary''),
     p_summarizer = newSummarizer 0, p_max_bytes = 100, p_batch = 1\<rparr>"

lemma queue_facts:
  "quiet demo_env" "faultless demo_env" "inert_ports queue_pipe" "\<not> e_locked demo_env n j"
  "keys_ok demo_env (w_db queue_world)" "queue_job ''a'' \<in> set (d_jobs (w_db queue_world))"
  by (simp_all add: quiet_def faultless_def demo_env_def inert_ports_def inert_def queue_pipe_def ret_def
      keys_ok_def job_idents_def queue_world_def queue_job_def demo_job_def demo_pg_def)



theorem claims_distinct_witness:
  "\<exists>w'. for_collect (\<lambda>_. Jobs_ClaimNextPending demo_env) [1::nat, 2, 3] queue_world =
      (Inr [Some (claim_update 5000 (queue_job ''a'')), Some (claim_update 5000 (queue_job ''b'')), None], w') \<and>
    distinct (map j_id (concat (map (case_option [] (\<lambda>j. [j]))
      [Some (claim_update 5000 (queue_job ''a'')), Some (claim_update 5000 (queue_job ''b'')), None])))"
proof -
  have "\<exists>w'. for_collect (\<lambda>_. Jobs_ClaimNextPending demo_env) [1::nat, 2, 3] queue_world =
      (Inr [Some (claim_update 5000 (queue_job ''a'')), Some (claim_update 5000 (queue_job ''b'')), None], w')"
    by (simp add: Jobs_ClaimNextPending_def pool_stmt_def stmt_def ClaimNextPendingJob_q_def one_row_def ret_def andthen_def
        demo_env_def queue_world_def queue_job_def demo_job_def claim_update_def update_rows_def)
  then obtain w' where c: "for_collect (\<lambda>_. Jobs_ClaimNextPending demo_env) [1::nat, 2, 3] queue_world =
      (Inr [Some (claim_update 5000 (queue_job ''a'')), Some (claim_update 5000 (queue_job ''b'')), None], w')" by blast
  with claims_distinct [OF c queue_facts(1,5)] show ?thesis by blast
qed

end
