(* ===== verification/WorkerData.thy ===== *)
theory WorkerData
  imports WorkerJobs "HOL-Library.Multiset"
begin

text \<open>
  What the worker stores and deletes: the transcript row, the chunks, the files of old jobs; and
  the waits of its listener.
\<close>

section \<open>The transcript row\<close>

text \<open>A transcript without an id never reaches the database, so the pipeline stops there.\<close>

lemma upsert_transcript_ok:
  "upsert_transcript E job video tr0 w = (Inr tr, w') \<Longrightarrow> pg_uuid (e_pg E) (t_id tr0) \<noteq> None"
  by (auto simp: upsert_transcript_def io_ok Let_def Transcripts_Upsert_def elim!: tx_ok)
    (auto simp: io_ok stmt_ok UpsertTranscript_def uuid_arg_ok)

definition unnamed_transcripts :: "'y pipeline \<Rightarrow> bool" where
  "unnamed_transcripts D \<longleftrightarrow> (\<forall>p w tr w'. p_transcribe D p w = (Inr tr, w') \<longrightarrow> t_id tr = [])"

lemma extract_from_stuck:
  fixes w :: "'y job_world_scheme"
  assumes "pg_uuid (e_pg E) [] = None" "unnamed_transcripts D"
  shows "extract_from E D job video dest w \<noteq> (Inr tr, w')"
proof
  assume e: "extract_from E D job video dest w = (Inr tr, w')"
  have no: "upsert_transcript E job video tr0 w0 \<noteq> (Inr tr1, w1)" if "t_id tr0 = []" for tr0 tr1 and w0 w1 :: "'y job_world_scheme"
    using upsert_transcript_ok that assms(1) by fastforce
  from e consider (media) tr0 and w0 w1 w2 :: "'y job_world_scheme" where
      "p_transcribe D dest w0 = (Inr tr0, w1)" "upsert_transcript E job video tr0 w1 = (Inr tr, w2)"
    | (pdf) tr0 and w1 w2 :: "'y job_world_scheme" where "t_id tr0 = []" "upsert_transcript E job video tr0 w1 = (Inr tr, w2)"
    unfolding extract_from_def by (force simp: andthen_ok map_err_ok fail_ok split: if_splits)
  then show False
  proof cases
    case media
    with assms(2) no show False unfolding unnamed_transcripts_def by blast
  next
    case pdf
    with no show False by blast
  qed
qed

lemma deferred_ok [io_ok]: "deferred f m w = (Inr a, w') \<longleftrightarrow> (\<exists>w1. m w = (Inr a, w1) \<and> w' = f w1)"
  by (auto simp: deferred_def split: prod.splits)

lemma run_stuck:
  fixes w :: "'y job_world_scheme"
  assumes "pg_uuid (e_pg E) [] = None" "unnamed_transcripts D"
  shows "run E D job w \<noteq> (Inr u, w')"
proof
  assume "run E D job w = (Inr u, w')"
  then obtain video tr dest and w1 w2 :: "'y job_world_scheme" where
    "extract_from E D job video dest w1 = (Inr tr, w2)"
    unfolding run_def Let_def extractTranscript_def by (force simp: io_ok)
  then show False using extract_from_stuck [OF assms] by blast
qed

lemma unnamed_transcript_fails:
  fixes w :: "'y job_world_scheme"
  assumes "quiet E" "faultless E" "inert_ports D" "keys_ok E (w_db w)" "job \<in> set (d_jobs (w_db w))"
    and "pg_uuid (e_pg E) [] = None" "unnamed_transcripts D"
  shows "ends (j_id job) (j_tenant job) (\<lambda>j. j_status j = ''failed'') (w_db (ProcessJob E D (j_id job) w))"
proof -
  note k = keys_okD [OF assms(4,5)]
  let ?w = "w\<lparr>w_tick := Suc (w_tick w), jw_stage := j_stage job\<rparr>"
  obtain e w2 where r: "run E D job ?w = (Inl e, w2)"
    using run_stuck [OF assms(6,7)] by (metis prod.collapse obj_sumE)
  have p: "ProcessJob E D (j_id job) w = snd (fail_job E job e w2)"
    by (simp add: ProcessJob_def get_all_runs [OF assms(2,1,4,5)] r)
  have "(j_id job, j_tenant job) \<in> set (job_idents (w_db w2))"
    using preservesD [OF preserves_run [OF assms(1,3) steady_idents] r] k(4) by simp
  from ends_mono [OF fail_job_fails [OF assms(1,2) k(2,3) this]] show ?thesis by (simp add: p)
qed

section \<open>The chunks\<close>

lemma collect_rows:
  fixes w :: "'z world_scheme"
  assumes "for_collect (\<lambda>it. andthen (newUUIDString E) (\<lambda>u. ret (f it u))) its w = (Inr cs, w')"
  shows "\<exists>us. length us = length its \<and> cs = map2 f its us \<and> set us \<subseteq> range (e_uuid E)"
  using assms
proof (induction its arbitrary: w cs)
  case (Cons it its)
  from Cons.prems obtain u cs' and w1 w2 :: "'z world_scheme" where
    "newUUIDString E w = (Inr u, w1)" "for_collect (\<lambda>it. andthen (newUUIDString E) (\<lambda>u. ret (f it u))) its w2 = (Inr cs', w')"
    "cs = f it u # cs'" by (auto simp: io_ok)
  moreover then obtain us where "length us = length its" "cs' = map2 f its us" "set us \<subseteq> range (e_uuid E)"
    using Cons.IH by blast
  ultimately show ?case by (intro exI [of _ "u # us"]) (auto simp: newUUIDString_def)
qed (simp add: io_ok)

lemma enumerate_rows:
  fixes job :: job and video :: video and now :: time and n :: nat
  assumes "length us = length texts" "length embs = length texts"
  defines "cs \<equiv> map2 (chunk_row job video now embs n) (enumerate 0 texts) us"
  shows "map c_content cs = texts" "map c_index cs = map int [n..<n + length texts]" "map c_embedding cs = embs"
    "\<forall>c \<in> set cs. c_tenant c = j_tenant job \<and> c_video c = v_id video"
proof -
  have l: "length cs = length texts" using assms(1) by (simp add: cs_def)
  have c: "cs ! i = chunk_row job video now embs n (i, texts ! i) (us ! i)" if "i < length texts" for i
    using that assms(1) by (simp add: cs_def nth_enumerate_eq)
  show "map c_content cs = texts" "map c_index cs = map int [n..<n + length texts]" "map c_embedding cs = embs"
    by (rule nth_equalityI; simp add: l c assms(2) chunk_row_def)+
  show "\<forall>c \<in> set cs. c_tenant c = j_tenant job \<and> c_video c = v_id video"
    using l c by (auto simp: in_set_conv_nth chunk_row_def)
qed

lemma embed_batches_ok:
  fixes w :: "'y job_world_scheme"
  assumes "embed_batches E D job video now n bs w = (Inr cs, w')"
    "\<And>texts w vs w'. p_embed D texts w = (Inr vs, w') \<Longrightarrow> length vs = length texts"
  shows "map c_content cs = concat bs \<and> map c_index cs = map int [n..<n + length (concat bs)] \<and>
    (\<forall>c \<in> set cs. c_tenant c = j_tenant job \<and> c_video c = v_id video) \<and>
    (\<exists>vss. map c_embedding cs = concat vss \<and> list_all2 (\<lambda>b vs. \<exists>w w'. p_embed D b w = (Inr vs, w')) bs vss)"
  using assms(1)
proof (induction bs arbitrary: n w cs)
  case (Cons texts rest)
  from Cons.prems obtain embs cs1 cs2 and w1 w2 :: "'y job_world_scheme" where
    e: "p_embed D texts w = (Inr embs, w1)" and
    c1: "for_collect (\<lambda>it. andthen (newUUIDString E) (\<lambda>u. ret (chunk_row job video now embs n it u)))
         (enumerate 0 texts) w1 = (Inr cs1, w2)" and
    c2: "embed_batches E D job video now (n + length texts) rest w2 = (Inr cs2, w')" and cs: "cs = cs1 @ cs2"
    by (auto simp: io_ok)
  obtain us where us: "length us = length texts"
    "cs1 = map2 (chunk_row job video now embs n) (enumerate 0 texts) us"
    using collect_rows [OF c1] by (metis length_enumerate)
  have l: "length embs = length texts" by (rule assms(2) [OF e])
  note r = enumerate_rows [OF us(1) l, of job video now n, folded us(2)]
  from Cons.IH [OF c2] obtain vss where IH: "map c_content cs2 = concat rest"
    "map c_index cs2 = map int [n + length texts..<n + length texts + length (concat rest)]"
    "\<forall>c \<in> set cs2. c_tenant c = j_tenant job \<and> c_video c = v_id video"
    "map c_embedding cs2 = concat vss" "list_all2 (\<lambda>b vs. \<exists>w w'. p_embed D b w = (Inr vs, w')) rest vss" by blast
  let ?k = "length texts" and ?m = "length (concat rest)"
  have "[n..<n + (?k + ?m)] = [n..<n + ?k] @ [n + ?k..<n + ?k + ?m]"
    using upt_add_eq_append [of n "n + ?k" ?m] by (simp add: add.assoc)
  then have "map c_index cs = map int [n..<n + length (concat (texts # rest))]"
    using r(2) IH(2) by (simp add: cs)
  moreover have "map c_content cs = concat (texts # rest)" using r(1) IH(1) by (simp add: cs)
  moreover have "\<forall>c \<in> set cs. c_tenant c = j_tenant job \<and> c_video c = v_id video"
    using r(4) IH(3) unfolding cs set_append by blast
  moreover have "map c_embedding cs = concat (embs # vss)" using r(3) IH(4) by (simp add: cs)
  moreover have "list_all2 (\<lambda>b vs. \<exists>w w'. p_embed D b w = (Inr vs, w')) (texts # rest) (embs # vss)"
    unfolding list.rel_inject using e IH(5) by blast
  ultimately show ?case by blast
qed (simp add: io_ok)

text \<open>
  Every section becomes one chunk: when \<open>embedSections\<close> succeeds, its chunks carry the sections
  in order under the indices 0, 1, 2, and so on, across batches, all for the job's tenant and
  video; the vectors are the answers to the consecutive batches, so chunk \<open>i\<close> carries the vector
  that the embedder gave for section \<open>i\<close>, when the embedder gives one vector per text.
\<close>

theorem sections_embedded:
  assumes "embedSections E D job video sections w = (Inr cs, w')"
    "\<And>texts w vs w'. p_embed D texts w = (Inr vs, w') \<Longrightarrow> length vs = length texts"
  shows "map c_content cs = sections \<and> map c_index cs = map int [0..<length sections] \<and>
    (\<forall>c \<in> set cs. c_tenant c = j_tenant job \<and> c_video c = v_id video) \<and>
    (\<exists>vss. map c_embedding cs = concat vss \<and>
      list_all2 (\<lambda>b vs. \<exists>w w'. p_embed D b w = (Inr vs, w'))
        (batches (nat (if p_batch D \<le> 0 then 16 else p_batch D)) sections) vss)"
proof -
  let ?n = "nat (if p_batch D \<le> 0 then 16 else p_batch D)"
  have "concat (batches ?n sections) = sections" by (rule concat_batches) simp
  moreover obtain now and w1 :: "'a job_world_scheme" where
    "embed_batches E D job video now 0 (batches ?n sections) w1 = (Inr cs, w')"
    using assms(1) by (auto simp: embedSections_def io_ok)
  ultimately show ?thesis using embed_batches_ok [OF _ assms(2)] by fastforce
qed

section \<open>Retention\<close>

text \<open>\<open>logs D lg\<close>: the object store logs the keys it is asked to delete, whether it succeeds or not.\<close>

definition logs :: "'y pipeline \<Rightarrow> ('y job_world_scheme \<Rightarrow> string list) \<Rightarrow> bool" where
  "logs D lg \<longleftrightarrow> (\<forall>k w. lg (snd (p_delete D k w)) = lg w @ [k]) \<and> (\<forall>w n. lg (w\<lparr>w_tick := n\<rparr>) = lg w)"

lemma deletes_logged:
  fixes w :: "'y job_world_scheme"
  assumes "logs D lg"
  shows "\<exists>w'. for_each (\<lambda>j. best_effort (p_delete D (rj_file_key j))) js w = (Inr (), w') \<and>
    lg w' = lg w @ map rj_file_key js"
proof (induction js arbitrary: w)
  case Nil
  then show ?case by (simp add: ret_def)
next
  case (Cons j js)
  let ?w1 = "snd (p_delete D (rj_file_key j) w)"
  from Cons [of ?w1] obtain w' :: "'y job_world_scheme" where
    "for_each (\<lambda>j. best_effort (p_delete D (rj_file_key j))) js ?w1 = (Inr (), w')"
    "lg w' = lg ?w1 @ map rj_file_key js" by blast
  moreover have "lg ?w1 = lg w @ [rj_file_key j]" using assms by (simp add: logs_def)
  moreover have "best_effort (p_delete D (rj_file_key j)) w = (Inr (), ?w1)" by (simp add: best_effort_def)
  ultimately show ?case by (simp add: andthen_Inr)
qed

text \<open>
  C39. The retention pass: with the database reachable and no other session at work it asks the
  store to delete, oldest first, exactly the files of the jobs that completed or failed at least
  seven days ago (to the microsecond), each once and all of them, also when some deletions fail.
\<close>

theorem retention_deletes:
  fixes D :: "'y pipeline" and w :: "'y job_world_scheme"
  assumes "quiet E" "faultless E"
    "\<forall>k w. lg (snd (p_delete D k w)) = lg w @ [k]" "\<forall>w n. lg (w\<lparr>w_tick := n\<rparr>) = lg w"
  shows "\<exists>w' js. runRetention E D w = (Inr (), w') \<and> lg w' = lg w @ map j_file_key js \<and>
    sorted (map (\<lambda>j. the (j_finished j)) js) \<and>
    mset js = filter_mset (\<lambda>j. (j_status j = ''completed'' \<or> j_status j = ''failed'') \<and>
      (\<exists>f. j_finished j = Some f \<and> f \<le> fromTime (e_time E (w_tick w) - 7 * 24 * hour))) (mset (d_jobs (w_db w)))"
proof -
  let ?older = "fromTime (e_time E (w_tick w) + - retentionAge)"
  let ?Q = "\<lambda>j. (j_status j = ''completed'' \<or> j_status j = ''failed'') \<and> (\<exists>f. j_finished j = Some f \<and> f \<le> ?older)"
  let ?js = "sort_key (\<lambda>j. the (j_finished j)) (filter ?Q (d_jobs (w_db w)))"
  let ?rs = "map (\<lambda>j. \<lparr>rj_id = j_id j, rj_file_key = j_file_key j\<rparr>) ?js"
  have "(case x of None \<Rightarrow> False | Some f \<Rightarrow> f \<le> b) \<longleftrightarrow> (\<exists>f. x = Some f \<and> f \<le> b)" for x :: "time option" and b
    by (cases x) simp_all
  then have l: "runRetention E D w = for_each (\<lambda>j. best_effort (p_delete D (rj_file_key j))) ?rs (w\<lparr>w_tick := w_tick w + 2\<rparr>)"
    using assms(1,2) by (simp add: runRetention_def andthen_def time_now_def Jobs_ListForRetention_def
        pool_stmt_def stmt_def faultless_def quiet_def ListJobsForRetention_q_def ret_def)
  have "logs D lg" using assms(3,4) by (simp add: logs_def)
  from deletes_logged [OF this, of ?rs "w\<lparr>w_tick := w_tick w + 2\<rparr>"] obtain w' :: "'y job_world_scheme" where
    r: "runRetention E D w = (Inr (), w')" "lg w' = lg w @ map j_file_key ?js"
    unfolding l using assms(4) by (auto simp: comp_def)
  have s: "sorted (map (\<lambda>j. the (j_finished j)) ?js)" "mset ?js = filter_mset ?Q (mset (d_jobs (w_db w)))"
    by simp_all
  have e: "e_time E (w_tick w) - 7 * 24 * hour = e_time E (w_tick w) + - retentionAge"
    by (simp only: retentionAge_def diff_conv_add_uminus)
  show ?thesis unfolding e by (rule exI [of _ w'], rule exI [of _ ?js], intro conjI r s)
qed

section \<open>Reconnecting\<close>

definition backoff_at :: "nat \<Rightarrow> duration" where
  "backoff_at i = (if i < 5 then 2 ^ i * second else 30 * second)"

lemma next_backoff_at: "next_backoff (backoff_at i) = backoff_at (Suc i)"
proof -
  consider "i = 0" | "i = 1" | "i = 2" | "i = 3" | "i = 4" | "5 \<le> i" by linarith
  then show ?thesis
    by cases (simp_all add: next_backoff_def backoff_at_def Let_def wrap64_def listenMaxReconnectDelay_def second_def
        numeral_eq_Suc)
qed

text \<open>
  Reconnecting backs off: the listener waits one second before its first new session, twice as
  long before each further one, and never more than 30 seconds, without overflow however often
  it reconnects.
\<close>

theorem backoff_schedule:
  assumes "i < length (notifyListener outcomes listenReconnectDelay)"
  shows "notifyListener outcomes listenReconnectDelay ! i = (if i < 5 then 2 ^ i * second else 30 * second)"
proof -
  have "i < length (notifyListener os (backoff_at k)) \<Longrightarrow> notifyListener os (backoff_at k) ! i = backoff_at (k + i)" for os k
  proof (induction os arbitrary: i k)
    case (Cons o1 os)
    obtain reconnect waited where o1: "o1 = (reconnect, waited)" by fastforce
    from Cons.prems have "reconnect" by (auto simp: o1 split: if_splits)
    show ?case
    proof (cases i)
      case 0
      then show ?thesis using \<open>reconnect\<close> by (simp add: o1)
    next
      case (Suc m)
      then have "waited" "m < length (notifyListener os (backoff_at (Suc k)))"
        using Cons.prems \<open>reconnect\<close> by (simp_all add: o1 next_backoff_at split: if_splits)
      with Cons.IH [OF this(2)] Suc \<open>reconnect\<close> show ?thesis by (simp add: o1 next_backoff_at)
    qed
  qed simp
  from this [of outcomes 0] assms show ?thesis
    by (simp add: backoff_at_def listenReconnectDelay_def second_def split: if_splits)
qed

theorem sections_embedded_witness:
  "\<exists>cs w'. embedSections demo_env queue_pipe (queue_job ''a'') demo_video [''x'', ''y''] queue_world = (Inr cs, w') \<and>
     map c_content cs = [''x'', ''y''] \<and> map c_index cs = [0, 1]"
proof -
  have "answered (embedSections demo_env queue_pipe (queue_job ''a'') demo_video [''x'', ''y''] queue_world)"
    by (simp add: embedSections_def queue_pipe_def batches.simps andthen_def time_now_def newUUIDString_def ret_def map_err_def)
  then obtain cs w' where c: "embedSections demo_env queue_pipe (queue_job ''a'') demo_video [''x'', ''y''] queue_world = (Inr cs, w')"
    using answered_ok by blast
  have "length vs = length texts" if "p_embed queue_pipe texts w = (Inr vs, w'')" for texts w vs w''
    using that by (auto simp: queue_pipe_def ret_def)
  from sections_embedded [OF c this] c show ?thesis by (simp add: upt_rec)
qed

theorem retention_deletes_witness:
  "\<exists>w'. runRetention demo_env queue_pipe queue_world = (Inr (), w') \<and> job_world.more w' = [''f1'']"
proof -
  have "\<forall>k w. job_world.more (snd (p_delete queue_pipe k w)) = job_world.more w @ [k]"
    "\<forall>w n. job_world.more (w\<lparr>w_tick := n\<rparr>) = job_world.more (w :: string list job_world_scheme)"
    by (simp_all add: queue_pipe_def)
  from retention_deletes [OF queue_facts(1,2) this, of queue_world] obtain w' js where
    r: "runRetention demo_env queue_pipe queue_world = (Inr (), w')" "job_world.more w' = map j_file_key js"
      "mset js = filter_mset (\<lambda>j. (j_status j = ''completed'' \<or> j_status j = ''failed'') \<and>
        (\<exists>f. j_finished j = Some f \<and> f \<le> fromTime (5000 - 7 * 24 * hour))) (mset (d_jobs (w_db queue_world)))"
    by (auto simp: queue_world_def demo_env_def)
  have "mset js = {#demo_job\<lparr>j_finished := Some (- 1000000000000000)\<rparr>#}"
    unfolding r(3) by (simp add: queue_world_def queue_job_def demo_job_def fromTime_def hour_def minute_def second_def)
  then have "js = [demo_job\<lparr>j_finished := Some (- 1000000000000000)\<rparr>]" by (simp add: mset_single_iff)
  with r(1,2) show ?thesis by (simp add: demo_job_def)
qed

theorem backoff_schedule_witness:
  "notifyListener (replicate 7 (True, True)) listenReconnectDelay ! 6 = 30 * second"
proof -
  have "length (notifyListener (replicate n (True, True)) b) = n" for n b
    by (induction n arbitrary: b) simp_all
  then show ?thesis using backoff_schedule [of 6 "replicate 7 (True, True)"] by simp
qed

end
