(* ===== verification/TokenBucket.thy ===== *)
theory TokenBucket
  imports Complex_Main ApiErrors
begin

text \<open>
  \<open>internal/ratelimit/token_bucket.go\<close>. Tokens are \<open>float64\<close>: a float operation is the exact
  operation followed by the rounding \<open>rnd\<close>, a parameter of the model, and \<open>float_rounding rnd\<close>
  states what IEEE 754 rounding guarantees of finite values and the theorems use: monotone,
  idempotent, exact on 0 and 1. Infinities and NaN do not arise from the code's operations on
  finite limits and are not modelled. Proved: the token count stays in its bounds for every
  rounding, keys do not influence each other, a full bucket admits exactly its burst, and with
  exact arithmetic the number of requests admitted in any period is at most capacity plus refill
  times its length.
\<close>

section \<open>State and operations\<close>

record bucket =
  tokens :: real
  last_refill :: time

record token_bucket =
  capacity :: real
  refill :: real
  buckets :: "string \<Rightarrow> bucket option"

type_synonym rounding = "real \<Rightarrow> real"

definition NewTokenBucket :: "real \<Rightarrow> real \<Rightarrow> token_bucket" where
  "NewTokenBucket cap perSecond = \<lparr>capacity = cap, refill = perSecond, buckets = Map.empty\<rparr>"

text \<open>\<open>Duration.Seconds\<close>: whole seconds plus the nanosecond remainder over 1e9, in \<open>float64\<close>.\<close>

definition seconds :: "rounding \<Rightarrow> duration \<Rightarrow> real" where
  "seconds rnd d = rnd (rnd (of_int (quot_go d second)) +
     rnd (rnd (of_int (rem_go d second)) / 1000000000))"

definition refillBucket :: "rounding \<Rightarrow> token_bucket \<Rightarrow> bucket \<Rightarrow> time \<Rightarrow> bucket" where
  "refillBucket rnd tb b now =
     (let elapsed = seconds rnd (time_sub now (last_refill b))
      in if elapsed \<le> 0 then b
         else (let t = rnd (tokens b + rnd (elapsed * refill tb))
               in \<lparr>tokens = (if capacity tb < t then capacity tb else t), last_refill = now\<rparr>))"

definition Allow :: "rounding \<Rightarrow> time \<Rightarrow> string \<Rightarrow> token_bucket \<Rightarrow> bool \<times> token_bucket" where
  "Allow rnd now key tb =
     (let b0 = (case buckets tb key of Some b \<Rightarrow> b
                | None \<Rightarrow> \<lparr>tokens = capacity tb, last_refill = now\<rparr>);
          b = refillBucket rnd tb b0 now
      in if 1 \<le> tokens b
         then (True, tb\<lparr>buckets := (buckets tb)(key \<mapsto> b\<lparr>tokens := rnd (tokens b - 1)\<rparr>)\<rparr>)
         else (False, tb\<lparr>buckets := (buckets tb)(key \<mapsto> b)\<rparr>))"

definition Reset :: "token_bucket \<Rightarrow> token_bucket" where
  "Reset tb = tb\<lparr>buckets := Map.empty\<rparr>"

text \<open>A sequence of requests, each with the instant its critical section reads.\<close>

fun run_limiter :: "(time \<Rightarrow> string \<Rightarrow> 'l \<Rightarrow> bool \<times> 'l) \<Rightarrow> (time \<times> string) list \<Rightarrow> 'l
    \<Rightarrow> bool list \<times> 'l" where
  "run_limiter allow [] l = ([], l)"
| "run_limiter allow (r # rs) l =
     (let (ok, l1) = allow (fst r) (snd r) l; (oks, l2) = run_limiter allow rs l1 in (ok # oks, l2))"

abbreviation allow_all :: "rounding \<Rightarrow> (time \<times> string) list \<Rightarrow> token_bucket \<Rightarrow> bool list \<times> token_bucket" where
  "allow_all rnd \<equiv> run_limiter (Allow rnd)"

section \<open>Rounding\<close>

definition float_rounding :: "rounding \<Rightarrow> bool" where
  "float_rounding rnd \<longleftrightarrow> (\<forall>x y. x \<le> y \<longrightarrow> rnd x \<le> rnd y) \<and> (\<forall>x. rnd (rnd x) = rnd x) \<and>
     rnd 0 = 0 \<and> rnd 1 = 1"

definition exact :: rounding where "exact = (\<lambda>x. x)"

text \<open>A fixed-point rounding, to a multiple of 1/1024: one that really loses digits.\<close>

definition grid :: rounding where
  "grid x = of_int \<lfloor>x * 1024\<rfloor> / 1024"

lemma exact_rounding: "float_rounding exact"
  by (simp add: float_rounding_def exact_def)

lemma grid_rounding: "float_rounding grid"
  by (auto simp: float_rounding_def grid_def floor_mono divide_right_mono mult_right_mono)

lemma rnd_mono: "float_rounding rnd \<Longrightarrow> x \<le> y \<Longrightarrow> rnd x \<le> rnd y"
  unfolding float_rounding_def by blast

lemma rnd_rnd: "float_rounding rnd \<Longrightarrow> rnd (rnd x) = rnd x"
  unfolding float_rounding_def by blast

lemma rnd_0: "float_rounding rnd \<Longrightarrow> rnd 0 = 0"
  unfolding float_rounding_def by blast

lemma rnd_1: "float_rounding rnd \<Longrightarrow> rnd 1 = 1"
  unfolding float_rounding_def by blast

lemma rnd_nonneg: "float_rounding rnd \<Longrightarrow> 0 \<le> x \<Longrightarrow> 0 \<le> rnd x"
  by (metis rnd_0 rnd_mono)

section \<open>Bounds\<close>

definition bucket_ok :: "rounding \<Rightarrow> token_bucket \<Rightarrow> bucket \<Rightarrow> bool" where
  "bucket_ok rnd tb b \<longleftrightarrow> 0 \<le> tokens b \<and> tokens b \<le> capacity tb \<and> rnd (tokens b) = tokens b"

definition tb_inv :: "rounding \<Rightarrow> token_bucket \<Rightarrow> bool" where
  "tb_inv rnd tb \<longleftrightarrow> 0 \<le> capacity tb \<and> rnd (capacity tb) = capacity tb \<and> 0 \<le> refill tb \<and>
     (\<forall>k b. buckets tb k = Some b \<longrightarrow> bucket_ok rnd tb b)"

lemma refillBucket_ok:
  assumes "float_rounding rnd" "tb_inv rnd tb" "bucket_ok rnd tb b"
  shows "bucket_ok rnd tb (refillBucket rnd tb b now)"
proof -
  let ?e = "seconds rnd (time_sub now (last_refill b))"
  let ?t = "rnd (tokens b + rnd (?e * refill tb))"
  have "0 \<le> ?t" if "0 < ?e"
    using assms that
    by (auto simp: bucket_ok_def tb_inv_def intro!: rnd_nonneg [OF assms(1)] add_nonneg_nonneg)
  moreover have "rnd ?t = ?t" using assms(1) by (rule rnd_rnd)
  ultimately show ?thesis using assms
    by (auto simp: refillBucket_def bucket_ok_def tb_inv_def Let_def not_le)
qed

lemma refillBucket_mono:
  assumes "float_rounding rnd" "tb_inv rnd tb" "bucket_ok rnd tb b"
  shows "tokens b \<le> tokens (refillBucket rnd tb b now)"
proof -
  let ?e = "seconds rnd (time_sub now (last_refill b))"
  have "tokens b \<le> rnd (tokens b + rnd (?e * refill tb))" if "0 < ?e"
  proof -
    have "0 \<le> rnd (?e * refill tb)"
      using assms that by (auto simp: tb_inv_def intro!: rnd_nonneg [OF assms(1)])
    then have "rnd (tokens b) \<le> rnd (tokens b + rnd (?e * refill tb))"
      by (simp add: rnd_mono [OF assms(1)])
    then show ?thesis using assms(3) by (simp add: bucket_ok_def)
  qed
  with assms(3) show ?thesis by (auto simp: refillBucket_def bucket_ok_def Let_def)
qed

lemma spend_ok:
  assumes "float_rounding rnd" "bucket_ok rnd tb b" "1 \<le> tokens b"
  shows "bucket_ok rnd tb (b\<lparr>tokens := rnd (tokens b - 1)\<rparr>)"
proof -
  have "rnd (tokens b - 1) \<le> rnd (tokens b)" by (simp add: rnd_mono [OF assms(1)])
  with assms show ?thesis
    by (auto simp: bucket_ok_def rnd_rnd [OF assms(1)] intro!: rnd_nonneg [OF assms(1)])
qed

text \<open>The bucket a request works on: the stored one or a fresh full one.\<close>

definition current :: "token_bucket \<Rightarrow> time \<Rightarrow> string \<Rightarrow> bucket" where
  "current tb now key = (case buckets tb key of Some b \<Rightarrow> b
     | None \<Rightarrow> \<lparr>tokens = capacity tb, last_refill = now\<rparr>)"

lemma current_ok: "tb_inv rnd tb \<Longrightarrow> bucket_ok rnd tb (current tb now key)"
  by (auto simp: current_def tb_inv_def bucket_ok_def split: option.split)

lemma Allow_current:
  "Allow rnd now key tb =
     (let b = refillBucket rnd tb (current tb now key) now
      in if 1 \<le> tokens b
         then (True, tb\<lparr>buckets := (buckets tb)(key \<mapsto> b\<lparr>tokens := rnd (tokens b - 1)\<rparr>)\<rparr>)
         else (False, tb\<lparr>buckets := (buckets tb)(key \<mapsto> b)\<rparr>))"
  by (simp add: Allow_def current_def Let_def)

lemma Allow_inv:
  assumes "float_rounding rnd" "tb_inv rnd tb"
  shows "tb_inv rnd (snd (Allow rnd now key tb))"
proof -
  let ?b = "refillBucket rnd tb (current tb now key) now"
  have ok: "bucket_ok rnd tb ?b" using assms current_ok refillBucket_ok by blast
  show ?thesis
  proof (cases "1 \<le> tokens ?b")
    case True
    with spend_ok [OF assms(1) ok] assms(2) show ?thesis
      by (auto simp: Allow_current Let_def tb_inv_def bucket_ok_def)
  next
    case False
    with ok assms(2) show ?thesis by (auto simp: Allow_current Let_def tb_inv_def bucket_ok_def)
  qed
qed

lemma Allow_frame:
  "capacity (snd (Allow rnd now key tb)) = capacity tb \<and>
   refill (snd (Allow rnd now key tb)) = refill tb \<and>
   (k \<noteq> key \<longrightarrow> buckets (snd (Allow rnd now key tb)) k = buckets tb k)"
  by (simp add: Allow_current Let_def)

lemma tb_inv_new:
  "\<lbrakk> 0 \<le> cap; rnd cap = cap; 0 \<le> r \<rbrakk> \<Longrightarrow> tb_inv rnd (NewTokenBucket cap r)"
  by (simp add: tb_inv_def NewTokenBucket_def)

lemma allow_all_inv:
  assumes "float_rounding rnd" "tb_inv rnd tb"
  shows "tb_inv rnd (snd (allow_all rnd rs tb)) \<and> capacity (snd (allow_all rnd rs tb)) = capacity tb \<and>
    refill (snd (allow_all rnd rs tb)) = refill tb"
  using assms(2)
proof (induction rs arbitrary: tb)
  case (Cons r rs)
  obtain ok tb1 where a: "Allow rnd (fst r) (snd r) tb = (ok, tb1)" by fastforce
  have "tb_inv rnd tb1" "capacity tb1 = capacity tb" "refill tb1 = refill tb"
    using Allow_inv [OF assms(1) Cons.prems, of "fst r" "snd r"] Allow_frame [of rnd "fst r" "snd r" tb] a
    by simp_all
  with Cons.IH [of tb1] a show ?case by (cases "allow_all rnd rs tb1") simp
qed simp

section \<open>Keys are independent\<close>

text \<open>
  The interface the middleware uses: a limiter asked per key, where \<open>view k l\<close> is all that
  the verdicts for key \<open>k\<close> can depend on.
\<close>

locale keyed_limiter =
  fixes allow :: "time \<Rightarrow> string \<Rightarrow> 'l \<Rightarrow> bool \<times> 'l"
    and view :: "string \<Rightarrow> 'l \<Rightarrow> 'v"
  assumes verdict_local: "view k l = view k l' \<Longrightarrow> fst (allow now k l) = fst (allow now k l')"
    and view_local: "view k l = view k l' \<Longrightarrow> view k (snd (allow now k l)) = view k (snd (allow now k l'))"
    and view_other: "k \<noteq> k' \<Longrightarrow> view k (snd (allow now k' l)) = view k l"
begin

lemma verdicts_of_key:
  assumes "view k l = view k l'"
  shows "map snd (filter (\<lambda>p. snd (fst p) = k) (zip rs (fst (run_limiter allow rs l)))) =
    fst (run_limiter allow (filter (\<lambda>r. snd r = k) rs) l')"
  using assms
proof (induction rs arbitrary: l l')
  case (Cons r rs)
  show ?case
  proof (cases "snd r = k")
    case True
    have v: "fst (allow (fst r) k l) = fst (allow (fst r) k l')"
      "view k (snd (allow (fst r) k l)) = view k (snd (allow (fst r) k l'))"
      using verdict_local [OF Cons.prems] view_local [OF Cons.prems] by blast+
    with Cons.IH [OF v(2)] True show ?thesis
      by (simp add: Let_def split_beta)
  next
    case False
    then have "view k (snd (allow (fst r) (snd r) l)) = view k l'"
      using Cons.prems by (simp add: view_other)
    from Cons.IH [OF this] False show ?thesis by (simp add: Let_def split_beta)
  qed
qed simp

end

definition key_view :: "string \<Rightarrow> token_bucket \<Rightarrow> real \<times> real \<times> bucket option" where
  "key_view k tb = (capacity tb, refill tb, buckets tb k)"

interpretation tb: keyed_limiter "Allow rnd" key_view for rnd
  by unfold_locales
    (auto simp: key_view_def Allow_current Let_def current_def refillBucket_def split: option.splits)

section \<open>Rates\<close>

lemma seconds_exact: "seconds exact d = of_int d / 1000000000"
proof -
  have "d = second * quot_go d second + rem_go d second" by (simp add: rem_go_def)
  then have "of_int d = (1000000000 :: real) * of_int (quot_go d second) + of_int (rem_go d second)"
    by (metis of_int_add of_int_mult of_int_numeral second_def)
  then show ?thesis by (simp add: seconds_def exact_def)
qed

lemma refill_exact_le:
  assumes "tb_inv exact tb" "last_refill b \<le> now"
  shows "tokens (refillBucket exact tb b now) \<le>
      tokens b + refill tb * of_int (now - last_refill b) / 1000000000"
    and "last_refill (refillBucket exact tb b now) = now"
proof -
  let ?e = "of_int (time_sub now (last_refill b)) / 1000000000 :: real"
  have e: "?e \<le> of_int (now - last_refill b) / 1000000000"
    using assms(2) by (simp add: time_sub_def min_int64_def max_int64_def divide_right_mono)
  have "?e * refill tb \<le> refill tb * of_int (now - last_refill b) / 1000000000"
    using mult_left_mono [OF e, of "refill tb"] assms(1) by (simp add: tb_inv_def mult.commute)
  moreover have "0 \<le> refill tb * of_int (now - last_refill b) / 1000000000"
    using assms by (simp add: tb_inv_def)
  ultimately show "tokens (refillBucket exact tb b now) \<le>
      tokens b + refill tb * of_int (now - last_refill b) / 1000000000"
    by (auto simp: refillBucket_def Let_def seconds_exact) (simp_all add: exact_def)
  show "last_refill (refillBucket exact tb b now) = now"
    using assms(2) by (auto simp: refillBucket_def Let_def seconds_exact time_sub_def
        min_int64_def max_int64_def divide_le_0_iff)
qed

definition admitted :: "bool list \<Rightarrow> real" where
  "admitted oks = real (length (filter id oks))"

lemma admitted_simps [simp]:
  "admitted [] = 0" "admitted (ok # oks) = (if ok then 1 else 0) + admitted oks"
  by (simp_all add: admitted_def)

abbreviation for_key :: "string \<Rightarrow> time list \<Rightarrow> (time \<times> string) list" where
  "for_key k ts \<equiv> map (\<lambda>t. (t, k)) ts"

lemma rate_from_bucket:
  assumes "tb_inv exact tb" "buckets tb k = Some b" "last_refill b \<le> end_t"
    "sorted ts" "\<forall>t \<in> set ts. last_refill b \<le> t \<and> t \<le> end_t"
  shows "admitted (fst (allow_all exact (for_key k ts) tb)) \<le>
    tokens b + refill tb * of_int (end_t - last_refill b) / 1000000000"
  using assms
proof (induction ts arbitrary: tb b)
  case Nil
  then show ?case by (auto simp: tb_inv_def bucket_ok_def)
next
  case (Cons t ts)
  obtain ok tb1 where a: "Allow exact t k tb = (ok, tb1)" by fastforce
  let ?r = "refillBucket exact tb b t"
  have cur: "current tb t k = b" using Cons.prems(2) by (simp add: current_def)
  have r: "tokens ?r \<le> tokens b + refill tb * of_int (t - last_refill b) / 1000000000"
    "last_refill ?r = t" using refill_exact_le [OF Cons.prems(1), of b t] Cons.prems(5) by auto
  define b1 where "b1 = (if ok then ?r\<lparr>tokens := tokens ?r - 1\<rparr> else ?r)"
  have b1: "buckets tb1 k = Some b1" "last_refill b1 = t"
    "(if ok then 1 else 0) + tokens b1 = tokens ?r"
    using a r(2) by (auto simp: Allow_current cur Let_def b1_def exact_def split: if_splits)
  have tb1: "tb_inv exact tb1" "refill tb1 = refill tb"
    using Allow_inv [OF exact_rounding Cons.prems(1), of t k] Allow_frame [of exact t k tb] a by simp_all
  have "admitted (fst (allow_all exact (for_key k ts) tb1)) \<le>
      tokens b1 + refill tb1 * of_int (end_t - last_refill b1) / 1000000000"
    using Cons.prems b1 tb1 by (intro Cons.IH) auto
  moreover have "refill tb * of_int (t - last_refill b) / 1000000000 +
      refill tb * of_int (end_t - t) / 1000000000 =
      refill tb * of_int (end_t - last_refill b) / (1000000000 :: real)"
    by (simp add: field_simps)
  ultimately show ?case using a b1 tb1 r(1) by (auto simp: Let_def split_beta)
qed

lemma rate_from_current:
  assumes "tb_inv exact tb" "\<forall>b. buckets tb k = Some b \<longrightarrow> last_refill b \<le> t"
    "sorted (t # ts)" "\<forall>t' \<in> set (t # ts). t' \<le> end_t"
  shows "admitted (fst (allow_all exact (for_key k (t # ts)) tb)) \<le>
    capacity tb + refill tb * of_int (end_t - t) / 1000000000"
proof -
  obtain ok tb1 where a: "Allow exact t k tb = (ok, tb1)" by fastforce
  let ?b = "current tb t k"
  let ?r = "refillBucket exact tb ?b t"
  have l: "last_refill ?b \<le> t" using assms(2) by (auto simp: current_def split: option.split)
  have r: "last_refill ?r = t" "tokens ?r \<le> capacity tb"
    using refill_exact_le(2) [OF assms(1) l]
      refillBucket_ok [OF exact_rounding assms(1) current_ok [OF assms(1)], of t k t]
    by (auto simp: bucket_ok_def)
  define b1 where "b1 = (if ok then ?r\<lparr>tokens := tokens ?r - 1\<rparr> else ?r)"
  have b1: "buckets tb1 k = Some b1" "last_refill b1 = t"
    "(if ok then 1 else 0) + tokens b1 = tokens ?r"
    using a r(1) by (auto simp: Allow_current Let_def b1_def exact_def split: if_splits)
  have tb1: "tb_inv exact tb1" "refill tb1 = refill tb"
    using Allow_inv [OF exact_rounding assms(1), of t k] Allow_frame [of exact t k tb] a by simp_all
  have "admitted (fst (allow_all exact (for_key k ts) tb1)) \<le>
      tokens b1 + refill tb1 * of_int (end_t - last_refill b1) / 1000000000"
    using assms b1 by (intro rate_from_bucket [OF tb1(1) b1(1)]) auto
  with a b1 tb1 r show ?thesis by (auto simp: Let_def split_beta)
qed

lemma Allow_last_refill:
  assumes "buckets (snd (Allow exact now key tb)) k = Some b"
    "\<forall>b. buckets tb k = Some b \<longrightarrow> last_refill b \<le> t" "now \<le> t"
  shows "last_refill b \<le> t"
  using assms
  by (auto simp: Allow_current Let_def refillBucket_def current_def split: if_splits option.splits)

lemma allow_all_last_refill:
  assumes "\<forall>b. buckets tb k = Some b \<longrightarrow> last_refill b \<le> t" "\<forall>r \<in> set rs. fst r \<le> t"
  shows "\<forall>b. buckets (snd (allow_all exact rs tb)) k = Some b \<longrightarrow> last_refill b \<le> t"
  using assms
proof (induction rs arbitrary: tb)
  case (Cons r rs)
  have "\<forall>b. buckets (snd (Allow exact (fst r) (snd r) tb)) k = Some b \<longrightarrow> last_refill b \<le> t"
    using Cons.prems by (auto intro: Allow_last_refill)
  from Cons.IH [OF this] Cons.prems show ?case by (simp add: Let_def split_beta)
qed simp

lemma filter_key_for_key: "filter (\<lambda>r. snd r = k) rs = for_key k (map fst (filter (\<lambda>r. snd r = k) rs))"
  by (induction rs) auto

definition admitted_for :: "string \<Rightarrow> (time \<times> string) list \<Rightarrow> bool list \<Rightarrow> real" where
  "admitted_for k rs oks = admitted (map snd (filter (\<lambda>p. snd (fst p) = k) (zip rs oks)))"

lemma admitted_for_key:
  "admitted_for k rs (fst (allow_all exact rs tb)) =
   admitted (fst (allow_all exact (for_key k (map fst (filter (\<lambda>r. snd r = k) rs))) tb))"
  by (simp only: admitted_for_def tb.verdicts_of_key [OF refl] filter_key_for_key [symmetric])

lemma burst_step:
  assumes "1 \<le> c" "buckets tb k = Some \<lparr>tokens = c, last_refill = t\<rparr>" "rnd 0 = 0"
  shows "Allow rnd t k tb = (True, tb\<lparr>buckets := (buckets tb)(k \<mapsto> \<lparr>tokens = rnd (c - 1), last_refill = t\<rparr>)\<rparr>)"
  using assms
  by (simp add: Allow_def refillBucket_def seconds_def quot_go_def rem_go_def)

lemma burst_from:
  assumes "rnd 0 = 0" "\<forall>m \<le> n. rnd (real m) = real m"
    "buckets tb k = Some \<lparr>tokens = real n, last_refill = t\<rparr>"
  shows "fst (allow_all rnd (replicate m (t, k)) tb) = replicate (min m n) True @ replicate (m - n) False"
  using assms(2,3)
proof (induction m arbitrary: n tb)
  case (Suc m)
  show ?case
  proof (cases n)
    case 0
    have "Allow rnd t k tb = (False, tb\<lparr>buckets := (buckets tb)(k \<mapsto> \<lparr>tokens = 0, last_refill = t\<rparr>)\<rparr>)"
      using Suc.prems assms(1) 0
      by (simp add: Allow_def refillBucket_def seconds_def quot_go_def rem_go_def)
    moreover have "buckets (tb\<lparr>buckets := (buckets tb)(k \<mapsto> \<lparr>tokens = 0, last_refill = t\<rparr>)\<rparr>) k =
        Some \<lparr>tokens = real 0, last_refill = t\<rparr>" by simp
    ultimately show ?thesis
      using Suc.IH [of 0 "tb\<lparr>buckets := (buckets tb)(k \<mapsto> \<lparr>tokens = 0, last_refill = t\<rparr>)\<rparr>"] 0 assms(1)
      by (simp add: Let_def split_beta)
  next
    case (Suc n')
    then have c: "real n - 1 = real n'" "rnd (real n') = real n'" using Suc.prems(1) by auto
    have "Allow rnd t k tb = (True, tb\<lparr>buckets := (buckets tb)(k \<mapsto> \<lparr>tokens = real n', last_refill = t\<rparr>)\<rparr>)"
      using burst_step [of "real n" tb k t rnd] Suc.prems(2) assms(1) Suc c by simp
    moreover have "\<forall>m \<le> n'. rnd (real m) = real m" using Suc Suc.prems(1) by auto
    ultimately show ?thesis
      using Suc.IH [of n' "tb\<lparr>buckets := (buckets tb)(k \<mapsto> \<lparr>tokens = real n', last_refill = t\<rparr>)\<rparr>"] Suc
      by (simp add: Let_def split_beta)
  qed
qed simp

section \<open>Properties\<close>

text \<open>
  Whatever the rounding of the float arithmetic and whatever sequence of requests (clock
  jumps included), every stored bucket of a limiter made by \<open>NewTokenBucket\<close> holds between 0
  and \<open>capacity\<close> tokens, and the limits themselves never change.
\<close>

theorem tokens_bounded:
  assumes "float_rounding rnd" "0 \<le> cap" "rnd cap = cap" "0 \<le> r"
    and "tb = snd (allow_all rnd rs (NewTokenBucket cap r))" and "buckets tb k = Some b"
  shows "0 \<le> tokens b \<and> tokens b \<le> cap \<and> capacity tb = cap \<and> refill tb = r"
proof -
  have "tb_inv rnd tb" "capacity tb = cap" "refill tb = r"
    using allow_all_inv [OF assms(1) tb_inv_new [of cap rnd r, OF assms(2,3,4)], of rs] assms(5)
    by (simp_all add: NewTokenBucket_def)
  with assms(6) show ?thesis by (auto simp: tb_inv_def bucket_ok_def)
qed

lemma tokens_bounded_witness:
  "\<exists>b. buckets (snd (allow_all grid [(0, ''u''), (5, ''v''), (2, ''u'')] (NewTokenBucket 2 1))) ''u'' = Some b
     \<and> 0 \<le> tokens b \<and> tokens b \<le> 2"
proof -
  let ?tb = "snd (allow_all grid [(0, ''u''), (5, ''v''), (2, ''u'')] (NewTokenBucket 2 1))"
  have "buckets ?tb ''u'' \<noteq> None" by (simp add: Let_def split_beta Allow_current)
  then obtain b where b: "buckets ?tb ''u'' = Some b" by blast
  have "grid 2 = 2" by (simp add: grid_def)
  from tokens_bounded [OF grid_rounding _ this _ refl b] b show ?thesis by simp
qed

text \<open>
  Users do not share quota: in any interleaving of requests, the verdicts that key \<open>k\<close>
  receives are the verdicts it would receive if it were the only caller of the limiter.
\<close>

theorem keys_independent:
  "map snd (filter (\<lambda>p. snd (fst p) = k) (zip rs (fst (allow_all rnd rs tb)))) =
   fst (allow_all rnd (filter (\<lambda>r. snd r = k) rs) tb)"
  by (rule tb.verdicts_of_key) simp

text \<open>
  A burst at one instant: a fresh key with a capacity of \<open>n\<close> tokens (the integers up to
  \<open>n\<close> being representable) is admitted exactly \<open>n\<close> times, and every further request at that
  instant is refused.
\<close>

theorem burst_is_capacity:
  assumes "\<forall>m \<le> n. rnd (real m) = real m"
  shows "fst (allow_all rnd (replicate m (t, k)) (NewTokenBucket (real n) r)) =
    replicate (min m n) True @ replicate (m - n) False"
proof (cases m)
  case 0
  then show ?thesis by simp
next
  case (Suc m')
  let ?fresh = "NewTokenBucket (real n) r"
  let ?tb = "?fresh\<lparr>buckets := [k \<mapsto> \<lparr>tokens = real n, last_refill = t\<rparr>]\<rparr>"
  have r0: "rnd 0 = 0" using assms [rule_format, of 0] by simp
  have "Allow rnd t k ?tb = Allow rnd t k ?fresh"
    by (simp add: Allow_def NewTokenBucket_def refillBucket_def Let_def)
  then have "fst (allow_all rnd (replicate m (t, k)) ?fresh) = fst (allow_all rnd (replicate m (t, k)) ?tb)"
    using Suc by simp
  then show ?thesis
    by (rule trans) (rule burst_from [where rnd = rnd, OF r0 assms], simp)
qed

lemma burst_is_capacity_witness:
  "fst (allow_all grid (replicate 4 (7, ''u'')) (NewTokenBucket (real 3) 1)) = [True, True, True, False]"
proof -
  have "\<forall>m \<le> 3. grid (real m) = real m"
  proof (intro allI impI)
    fix m :: nat
    have "real m * 1024 = of_int (int m * 1024)" by simp
    then show "grid (real m) = real m" unfolding grid_def by (simp only: floor_of_int)
  qed
  from burst_is_capacity [OF this, of 4 7 "''u''" 1] show ?thesis by (simp add: numeral_eq_Suc)
qed

text \<open>Admissions within a window of any time-ordered traffic.\<close>

lemma window_rate:
  assumes "0 \<le> cap" "0 \<le> r" "sorted (map fst (pre @ win))" "win \<noteq> []"
  shows "admitted_for k win (fst (allow_all exact win (snd (allow_all exact pre (NewTokenBucket cap r))))) \<le>
    cap + r * of_int (fst (last win) - fst (hd win)) / 1000000000"
proof -
  define tb where "tb = snd (allow_all exact pre (NewTokenBucket cap r))"
  have tb: "tb_inv exact tb" "capacity tb = cap" "refill tb = r"
    using allow_all_inv [OF exact_rounding tb_inv_new, of cap r pre] assms(1,2)
    by (simp_all add: tb_def NewTokenBucket_def exact_def)
  define ts where "ts = map fst (filter (\<lambda>r. snd r = k) win)"
  have win: "sorted (map fst win)" using assms(3) by (simp add: sorted_append)
  have hdl: "\<forall>t \<in> set ts. fst (hd win) \<le> t \<and> t \<le> fst (last win)"
  proof
    fix t assume "t \<in> set ts"
    then obtain i where i: "i < length win" "fst (win ! i) = t"
      by (auto simp: ts_def in_set_conv_nth)
    then have "map fst win ! 0 \<le> map fst win ! i" "map fst win ! i \<le> map fst win ! (length win - 1)"
      using win by (auto simp: sorted_iff_nth_mono simp del: nth_map)
    with i assms(4) show "fst (hd win) \<le> t \<and> t \<le> fst (last win)"
      by (simp add: hd_conv_nth last_conv_nth)
  qed
  have srt: "sorted ts" using win by (simp add: ts_def sorted_filter)
  have pre: "\<forall>t \<in> set ts. \<forall>r \<in> set pre. fst r \<le> t"
    using assms(3) by (auto simp: ts_def sorted_append)
  have old: "\<forall>b. buckets tb k = Some b \<longrightarrow> last_refill b \<le> t" if "t \<in> set ts" for t
    unfolding tb_def using pre that
    by (intro allow_all_last_refill) (auto simp: NewTokenBucket_def)
  have len: "0 \<le> r * of_int (fst (last win) - fst (hd win)) / 1000000000"
    using assms(2,4) win by (auto simp: sorted_iff_nth_mono hd_conv_nth last_conv_nth intro!: mult_nonneg_nonneg divide_nonneg_nonneg)
  show ?thesis
  proof (cases ts)
    case Nil
    with assms(1) len show ?thesis
      unfolding tb_def [symmetric] admitted_for_key ts_def [symmetric] by simp
  next
    case (Cons t ts')
    have "r * of_int (fst (last win) - t) / 1000000000 \<le> r * of_int (fst (last win) - fst (hd win)) / (1000000000 :: real)"
      using hdl Cons assms(2) by (intro divide_right_mono mult_left_mono) auto
    moreover have "admitted (fst (allow_all exact (for_key k (t # ts')) tb)) \<le>
        capacity tb + refill tb * of_int (fst (last win) - t) / 1000000000"
      using old [of t] srt hdl Cons by (intro rate_from_current [OF tb(1)]) auto
    ultimately show ?thesis
      unfolding tb_def [symmetric] admitted_for_key ts_def [symmetric] Cons using tb by simp
  qed
qed

text \<open>The same for the requests between two instants.\<close>

lemma allow_all_append:
  "fst (allow_all rnd (xs @ ys) tb) = fst (allow_all rnd xs tb) @ fst (allow_all rnd ys (snd (allow_all rnd xs tb)))"
  by (induction xs arbitrary: tb) (simp_all add: Let_def split_beta)

lemma allow_all_length: "length (fst (allow_all rnd xs tb)) = length xs"
  by (induction xs arbitrary: tb) (simp_all add: Let_def split_beta)

lemma rate_between:
  assumes "0 \<le> cap" "0 \<le> r" "sorted (map fst rs)" "t0 \<le> t1"
  shows "real (length (filter (\<lambda>((t, b), v). v \<and> b = k \<and> t0 \<le> t \<and> t \<le> t1)
      (zip rs (fst (allow_all exact rs (NewTokenBucket cap r)))))) \<le> cap + r * of_int (t1 - t0) / 1000000000"
proof -
  let ?tb = "NewTokenBucket cap r" and ?P = "\<lambda>((t, b), v). v \<and> b = k \<and> t0 \<le> t \<and> t \<le> t1"
  define pre rest win post where "pre = takeWhile (\<lambda>x. fst x < t0) rs" "rest = dropWhile (\<lambda>x. fst x < t0) rs"
    "win = takeWhile (\<lambda>x. fst x \<le> t1) rest" "post = dropWhile (\<lambda>x. fst x \<le> t1) rest"
  note d = this
  have rs': "rs = pre @ rest" and rs: "rs = pre @ win @ post" by (simp_all add: d)
  define tb1 where "tb1 = snd (allow_all exact pre ?tb)"
  define tb2 where "tb2 = snd (allow_all exact win tb1)"
  have late: "t1 < fst x" if "x \<in> set post" for x
  proof (cases post)
    case (Cons y ys)
    then have "t1 < fst y" using hd_dropWhile [of "\<lambda>x. fst x \<le> t1" rest] by (force simp: d)
    moreover have "sorted (map fst post)" using assms(3) rs by (simp add: sorted_append)
    ultimately show ?thesis using that Cons by auto
  qed (use that in simp)
  have early: "fst x < t0" if "x \<in> set pre" for x using set_takeWhileD [of x "\<lambda>x. fst x < t0" rs] that by (simp add: d)
  have none: "filter ?P (zip xs vs) = []" if "\<And>x. x \<in> set xs \<Longrightarrow> fst x < t0 \<or> t1 < fst x" for xs :: "(time \<times> string) list" and vs
    using that by (fastforce simp: filter_empty_conv dest: set_zip_leftD)
  have eq: "filter ?P (zip rs (fst (allow_all exact rs ?tb))) = filter ?P (zip win (fst (allow_all exact win tb1)))"
    unfolding rs by (simp add: allow_all_append allow_all_length tb1_def none early late)
  have le: "real (length (filter ?P (zip win vs))) \<le> admitted_for k win vs" for vs
    unfolding admitted_for_def admitted_def by (induction win vs rule: list_induct2') auto
  have "admitted_for k win (fst (allow_all exact win tb1)) \<le> cap + r * of_int (t1 - t0) / 1000000000"
  proof (cases "win = []")
    case True
    then show ?thesis using assms(1,2,4) by (simp add: admitted_for_def)
  next
    case False
    have w: "t0 \<le> fst x \<and> fst x \<le> t1" if "x \<in> set win" for x
    proof -
      have "x \<in> set rest" "fst x \<le> t1" using that set_takeWhileD [of x "\<lambda>x. fst x \<le> t1" rest] by (simp_all add: d)
      moreover have "t0 \<le> fst x" if "x \<in> set rest"
      proof (cases rest)
        case (Cons y ys)
        then have "t0 \<le> fst y" using hd_dropWhile [of "\<lambda>x. fst x < t0" rs] by (force simp: d)
        moreover have "sorted (map fst rest)" using assms(3) unfolding rs' by (simp add: sorted_append)
        ultimately show ?thesis using that Cons by auto
      qed (use that in simp)
      ultimately show ?thesis by blast
    qed
    have "r * of_int (fst (last win) - fst (hd win)) / 1000000000 \<le> r * of_int (t1 - t0) / (1000000000 :: real)"
      using w [OF last_in_set [OF False]] w [OF hd_in_set [OF False]] assms(2)
      by (intro divide_right_mono mult_left_mono) auto
    moreover have "sorted (map fst (pre @ win))" using assms(3) rs by (simp add: sorted_append)
    ultimately show ?thesis using window_rate [OF assms(1,2) _ False, of pre k] unfolding tb1_def by linarith
  qed
  with le show ?thesis unfolding eq by (rule order_trans)
qed

text \<open>
  The rate limit: with exact arithmetic, in any window \<open>win\<close> of any time-ordered traffic,
  a key is admitted at most \<open>capacity\<close> plus \<open>refill\<close> times the length of the window in
  seconds, whatever happened before and whatever the other keys do.
\<close>

theorem rate_limit:
  assumes "0 \<le> cap" "0 \<le> r" "sorted (map fst (pre @ win))" "win \<noteq> []"
  shows "admitted_for k win (fst (allow_all exact win (snd (allow_all exact pre (NewTokenBucket cap r))))) \<le>
    cap + r * of_int (fst (last win) - fst (hd win)) / 1000000000"
  using window_rate [OF assms] .

lemma rate_limit_witness:
  "admitted_for ''u'' [(0, ''u''), (0, ''u''), (1000000000, ''u'')]
     (fst (allow_all exact [(0, ''u''), (0, ''u''), (1000000000, ''u'')]
        (snd (allow_all exact [] (NewTokenBucket 1 1))))) \<le> 2"
  using rate_limit [of 1 1 "[]" "[(0, ''u''), (0, ''u''), (1000000000, ''u'')]" "''u''"] by simp

end
