(* ===== verification/Http.thy ===== *)
theory Http
  imports TokenBucket Rager
begin

text \<open>
  \<open>internal/httpapi\<close>: the handlers, the authentication, scope and rate-limit middlewares, and the
  order in which the router applies them. Routing, JSON decoding and encoding, SHA-256 and
  presigning are gin's, the standard library's and the AWS SDK's: a request arrives with its
  route and its decoded body, and the rest are fields of \<open>handler\<close>. The world is the database
  world extended by the two token buckets.
\<close>

section \<open>Requests and replies\<close>

record create_job_request =
  cr_file_key :: string
  cr_title :: string
  cr_segments :: "string list"

record query_request =
  qq_question :: string
  qq_segment :: string

text \<open>A route with its path parameter and, where it has one, the result of \<open>ShouldBindJSON\<close>.\<close>

datatype route =
    RHealth
  | RCreateUploadIntent "go_error + string"
  | RCreateJob "go_error + create_job_request"
  | RListJobs
  | RGetJob string
  | RRetryJob string
  | RListVideos
  | RGetVideo string
  | RDeleteVideo string
  | RQuery "go_error + query_request"

record api_request =
  ar_route :: route
  ar_key :: string
  ar_ip :: string
  ar_query :: "string \<Rightarrow> string"

record job_response =
  jr_job :: job
  jr_segments :: "string list"

record page_meta =
  pm_page :: int
  pm_limit :: int
  pm_total :: int

record upload_response =
  ur_id :: string
  ur_tenant :: string
  ur_file_key :: string
  ur_content_type :: string
  ur_status :: string
  ur_url :: string
  ur_expires :: time

datatype reply_body =
    ErrorBody string string
  | JobBody job_response
  | JobsBody "job_response list" page_meta
  | UploadBody upload_response
  | VideosBody "material list" page_meta
  | VideoBody material "summary option"
  | DeletedBody string time
  | QueryBody query_result
  | HealthBody string string string string

record reply =
  rp_status :: int
  rp_body :: reply_body

definition writeError :: "go_error \<Rightarrow> reply" where
  "writeError e = \<lparr>rp_status = api_http_status (Some e),
     rp_body = ErrorBody (api_code (Some e)) (api_message (Some e))\<rparr>"

definition ok_reply :: "int \<Rightarrow> reply_body \<Rightarrow> reply" where
  "ok_reply s b = \<lparr>rp_status = s, rp_body = b\<rparr>"

text \<open>\<open>if err != nil { writeError(c, err); return }\<close> at the end of a handler's computation.\<close>

definition respond :: "('z, reply) act \<Rightarrow> 'z world_scheme \<Rightarrow> reply \<times> 'z world_scheme" where
  "respond m w = (case m w of (Inl e, w1) \<Rightarrow> (writeError e, w1) | (Inr r, w1) \<Rightarrow> (r, w1))"

text \<open>The identity that authentication stores on the request context.\<close>

record identity =
  id_tenant :: string
  id_key :: string
  id_scope :: string

record 'z handler =
  h_ttl_minutes :: int
  h_result_k :: int
  h_presign :: "string \<Rightarrow> string \<Rightarrow> time \<Rightarrow> ('z, string) act"
  h_embed :: "string list \<Rightarrow> ('z, vec list) act"
  h_llm :: "string \<Rightarrow> string \<Rightarrow> ('z, string) act"
  h_ping :: "('z, unit) act"
  h_rfc3339 :: "time \<Rightarrow> string"
  h_json :: "(string \<times> string option) list option \<Rightarrow> go_error + string"
  h_sha256_hex :: "string \<Rightarrow> string"

section \<open>Handlers\<close>

text \<open>Audit records are written best-effort: the error is dropped by the callers.\<close>

definition insertAudit :: "environ \<Rightarrow> 'z handler \<Rightarrow> identity \<Rightarrow> string \<Rightarrow> string option
    \<Rightarrow> (string \<times> string option) list option \<Rightarrow> ('z, unit) act" where
  "insertAudit E H i action obj meta =
     andthen (newUUIDString E) (\<lambda>u. andthen (time_now E) (\<lambda>ts.
       InsertAudit E \<lparr>a_id = u, a_tenant = id_tenant i,
         a_actor = (if id_key i \<noteq> [] then Some (id_key i) else None), a_action = action,
         a_object = obj, a_metadata = [], a_created = ts\<rparr> (h_json H meta)))"

definition Health :: "environ \<Rightarrow> 'z handler \<Rightarrow> ('z, reply) act" where
  "Health E H =
     andthen (map_err (\<lambda>_. Api ErrInternal) (h_ping H)) (\<lambda>_. andthen (time_now E) (\<lambda>t.
       ret (ok_reply 200 (HealthBody ''ok'' ''api'' (h_rfc3339 H t) ''up''))))"

text \<open>\<open>dto.AllowedContentTypes\<close>: MIME type to extension and kind.\<close>

definition AllowedContentTypes :: "string \<Rightarrow> (string \<times> string) option" where
  "AllowedContentTypes = map_of
     [(''video/mp4'', (''.mp4'', ''video'')), (''video/quicktime'', (''.mov'', ''video'')),
      (''audio/mpeg'', (''.mp3'', ''audio'')), (''audio/wav'', (''.wav'', ''audio'')),
      (''application/pdf'', (''.pdf'', ''pdf''))]"

definition maxContentTypeLength :: nat where "maxContentTypeLength = 128"

definition CreateUploadIntent_h :: "environ \<Rightarrow> 'z handler \<Rightarrow> identity \<Rightarrow> (go_error + string) \<Rightarrow> ('z, reply) act" where
  "CreateUploadIntent_h E H i body =
     (case body of
        Inl _ \<Rightarrow> fail (Api ErrInvalidRequest)
      | Inr ct \<Rightarrow>
         (if length ct = 0 \<or> maxContentTypeLength < length ct then fail (Api ErrInvalidRequest)
          else (case AllowedContentTypes ct of
             None \<Rightarrow> fail (Api ErrUnsupportedContentType)
           | Some (ext, kind) \<Rightarrow>
               andthen (newUUIDString E) (\<lambda>intentID. andthen (newUUIDString E) (\<lambda>obj. andthen (time_now E) (\<lambda>now.
                 (let t = id_tenant i; key = t @ ''/'' @ intentID @ ''/'' @ obj @ ext;
                      expires = now + wrap64 (h_ttl_minutes H * minute)
                  in andthen (Intents_Create E \<lparr>i_id = intentID, i_tenant = t, i_file_key = key,
                        i_content_type = ct, i_status = ''issued'', i_expires = expires,
                        i_consumed = None, i_created = now\<rparr>) (\<lambda>_.
                     andthen (h_presign H key ct expires) (\<lambda>url.
                     andthen (best_effort (insertAudit E H i ''upload_intent.create'' (Some intentID) None)) (\<lambda>_.
                       ret (ok_reply 201 (UploadBody \<lparr>ur_id = intentID, ur_tenant = t, ur_file_key = key,
                         ur_content_type = ct, ur_status = ''issued'', ur_url = url,
                         ur_expires = expires\<rparr>))))))))))))"

definition maxJobTitleLength :: nat where "maxJobTitleLength = 255"
definition maxSegmentsCount :: nat where "maxSegmentsCount = 50"
definition maxSegmentNameLength :: nat where "maxSegmentNameLength = 100"

definition validateCreateJob :: "create_job_request \<Rightarrow> go_error option" where
  "validateCreateJob req =
     (if cr_file_key req = [] then Some (Api ErrInvalidFileKey)
      else if trim_space (cr_title req) = [] \<or> maxJobTitleLength < length (trim_space (cr_title req))
        then Some (Api ErrInvalidRequest)
      else if maxSegmentsCount < length (cr_segments req) then Some (Api ErrInvalidRequest)
      else if list_ex (\<lambda>s. maxSegmentNameLength < length s) (cr_segments req)
        then Some (Api ErrInvalidRequest)
      else None)"

definition mapNoRows :: "go_error \<Rightarrow> go_error \<Rightarrow> go_error" where
  "mapNoRows fallback e = (if error_is e NoRows then fallback else e)"

text \<open>The transaction of \<open>CreateJob\<close>; \<open>txnow\<close> is the transaction's \<open>now()\<close>.\<close>

definition ensure_segment :: "environ \<Rightarrow> string \<Rightarrow> string \<Rightarrow> ('z, string) act" where
  "ensure_segment E t name =
     andthen (newUUIDString E) (\<lambda>u. andthen (time_now E) (\<lambda>ts.
       andthen (stmt E (EnsureSegmentByName (e_pg E)
           \<lparr>s_id = u, s_tenant = t, s_name = name, s_created = fromTime ts\<rparr>))
         (\<lambda>seg. ret (s_id seg))))"

definition insert_job :: "environ \<Rightarrow> string \<Rightarrow> create_job_request \<Rightarrow> upload_intent \<Rightarrow> string
    \<Rightarrow> string list \<Rightarrow> ('z, job_response) act" where
  "insert_job E t req intent kind segs =
     andthen (time_now E) (\<lambda>now. andthen (newUUIDString E) (\<lambda>u.
       andthen (stmt E (CreateJob_q (e_pg E)
           \<lparr>j_id = u, j_tenant = t, j_intent = e_go_uuid E (i_id intent), j_file_key = cr_file_key req,
            j_title = cr_title req, j_kind = kind, j_status = ''pending'', j_stage = ''queued'',
            j_error = None, j_retry = 0, j_started = None, j_finished = None,
            j_created = fromTime now, j_updated = fromTime now\<rparr>)) (\<lambda>job.
       andthen (for_each (\<lambda>sid. stmt E (AttachJobSegment (e_pg E) (j_id job) sid t)) segs) (\<lambda>_.
       andthen (stmt E (ListSegmentNamesByJobID (e_pg E) (j_id job) t)) (\<lambda>names.
         ret \<lparr>jr_job = job\<lparr>j_intent := Some (i_id intent)\<rparr>, jr_segments = names\<rparr>)))))"

definition create_job_tx :: "environ \<Rightarrow> string \<Rightarrow> create_job_request \<Rightarrow> time \<Rightarrow> ('z, job_response) act" where
  "create_job_tx E t req txnow =
     andthen (map_err (mapNoRows (Api ErrNotFound))
         (stmt E (GetUploadIntentByFileKeyForUpdate (e_pg E) (cr_file_key req) t))) (\<lambda>intent.
       if i_status intent \<noteq> ''issued'' then fail (Api ErrUploadIntentConsumed)
       else andthen (time_now E) (\<lambda>now.
         if \<not> now < i_expires intent then fail (Api ErrExpiredUploadIntent)
         else andthen (stmt E (MarkUploadIntentConsumed (e_pg E) txnow (cr_file_key req) t)) (\<lambda>_.
           case AllowedContentTypes (i_content_type intent) of
             None \<Rightarrow> fail (Api ErrUnsupportedContentType)
           | Some (ext, kind) \<Rightarrow>
               andthen (for_collect (ensure_segment E t) (cr_segments req))
                 (insert_job E t req intent kind))))"

definition CreateJob :: "environ \<Rightarrow> 'z handler \<Rightarrow> identity \<Rightarrow> (go_error + create_job_request) \<Rightarrow> ('z, reply) act" where
  "CreateJob E H i body =
     (case body of
        Inl _ \<Rightarrow> fail (Api ErrInvalidRequest)
      | Inr req \<Rightarrow>
         (case validateCreateJob req of
            Some e \<Rightarrow> fail e
          | None \<Rightarrow>
              andthen (WithTenantTx E (id_tenant i) (create_job_tx E (id_tenant i) req)) (\<lambda>resp.
              andthen (best_effort (insertAudit E H i ''job.create'' (Some (j_id (jr_job resp)))
                  (Some [(''upload_intent_id'', j_intent (jr_job resp))]))) (\<lambda>_.
                ret (ok_reply 201 (JobBody resp))))))"

definition currentPageDefault :: int where "currentPageDefault = 1"
definition listLimitDefault :: int where "listLimitDefault = 10"
definition listLimitMax :: int where "listLimitMax = 100"

definition pagination :: "(string \<Rightarrow> string) \<Rightarrow> go_error + int \<times> int" where
  "pagination q =
     (let page = (if q ''page'' = [] then Some currentPageDefault
                  else (case atoi (q ''page'') of None \<Rightarrow> None | Some p \<Rightarrow> if p < 1 then None else Some p));
          limit = (if q ''limit'' = [] then Some listLimitDefault
                   else (case atoi (q ''limit'') of None \<Rightarrow> None
                         | Some l \<Rightarrow> if l < 1 then None
                             else Some (if listLimitMax < l then listLimitMax else l)))
      in case page of None \<Rightarrow> Inl (Api ErrInvalidRequest)
         | Some p \<Rightarrow> (case limit of None \<Rightarrow> Inl (Api ErrInvalidRequest) | Some l \<Rightarrow> Inr (p, l)))"

definition lift_sum :: "(go_error + 'a) \<Rightarrow> ('z, 'a) act" where
  "lift_sum r = (case r of Inl e \<Rightarrow> fail e | Inr a \<Rightarrow> ret a)"

definition toJobResponse :: "job \<Rightarrow> string list \<Rightarrow> job_response" where
  "toJobResponse j segs = \<lparr>jr_job = j, jr_segments = segs\<rparr>"

definition ListJobs :: "environ \<Rightarrow> 'z handler \<Rightarrow> identity \<Rightarrow> (string \<Rightarrow> string) \<Rightarrow> ('z, reply) act" where
  "ListJobs E H i q =
     andthen (lift_sum (pagination q)) (\<lambda>(page, limit).
     andthen (Jobs_List E (id_tenant i) (q ''status'') page limit) (\<lambda>jobs.
     andthen (Jobs_Count E (id_tenant i) (q ''status'')) (\<lambda>total.
     andthen (for_collect (\<lambda>job. andthen (Segments_ListNamesByJobID E (j_id job) (id_tenant i))
         (\<lambda>names. ret (toJobResponse job names))) jobs) (\<lambda>data.
       ret (ok_reply 200 (JobsBody data \<lparr>pm_page = page, pm_limit = limit, pm_total = total\<rparr>))))))"

definition GetJob :: "environ \<Rightarrow> 'z handler \<Rightarrow> identity \<Rightarrow> string \<Rightarrow> ('z, reply) act" where
  "GetJob E H i job0 =
     andthen (Jobs_GetByID E job0 (id_tenant i)) (\<lambda>job.
     andthen (Segments_ListNamesByJobID E (j_id job) (id_tenant i)) (\<lambda>names.
       ret (ok_reply 200 (JobBody (toJobResponse job names)))))"

definition RetryJob :: "environ \<Rightarrow> 'z handler \<Rightarrow> identity \<Rightarrow> string \<Rightarrow> ('z, reply) act" where
  "RetryJob E H i job0 =
     andthen (Jobs_GetByID E job0 (id_tenant i)) (\<lambda>job.
       if j_status job \<noteq> ''failed'' then fail (Api ErrJobNotFailed)
       else andthen (Jobs_Retry E job0 (id_tenant i)) (\<lambda>_.
         andthen (Jobs_GetByID E job0 (id_tenant i)) (\<lambda>retried.
         andthen (Segments_ListNamesByJobID E (j_id job) (id_tenant i)) (\<lambda>names.
         andthen (best_effort (insertAudit E H i ''job.retry'' (Some job0) None)) (\<lambda>_.
           ret (ok_reply 200 (JobBody (toJobResponse retried names))))))))"

definition ListVideos :: "environ \<Rightarrow> 'z handler \<Rightarrow> identity \<Rightarrow> (string \<Rightarrow> string) \<Rightarrow> ('z, reply) act" where
  "ListVideos E H i q =
     andthen (lift_sum (pagination q)) (\<lambda>(page, limit).
     andthen (Videos_List E (id_tenant i) (q ''segment'') (q ''status'') page limit) (\<lambda>videos.
     andthen (Videos_Count E (id_tenant i) (q ''segment'') (q ''status'')) (\<lambda>total.
       ret (ok_reply 200 (VideosBody videos \<lparr>pm_page = page, pm_limit = limit, pm_total = total\<rparr>)))))"

text \<open>A missing summary is not an error: the video is returned without one.\<close>

definition optional_summary :: "environ \<Rightarrow> string \<Rightarrow> string \<Rightarrow> ('z, summary option) act" where
  "optional_summary E vid t w =
     (case Summaries_GetByVideoID E vid t w of
        (Inl e, w1) \<Rightarrow> (if error_is e (Api ErrNotFound) then (Inr None, w1) else (Inl e, w1))
      | (Inr s, w1) \<Rightarrow> (Inr (Some s), w1))"

definition GetVideo :: "environ \<Rightarrow> 'z handler \<Rightarrow> identity \<Rightarrow> string \<Rightarrow> ('z, reply) act" where
  "GetVideo E H i vid =
     andthen (Videos_GetByID E vid (id_tenant i)) (\<lambda>v.
     andthen (optional_summary E vid (id_tenant i)) (\<lambda>s. ret (ok_reply 200 (VideoBody v s))))"

definition DeleteVideo :: "environ \<Rightarrow> 'z handler \<Rightarrow> identity \<Rightarrow> string \<Rightarrow> ('z, reply) act" where
  "DeleteVideo E H i vid =
     andthen (Videos_SoftDelete E vid (id_tenant i)) (\<lambda>ts.
     andthen (best_effort (insertAudit E H i ''video.delete'' (Some vid) None)) (\<lambda>_.
       ret (ok_reply 200 (DeletedBody vid ts))))"

definition maxQuestionLength :: nat where "maxQuestionLength = 1000"

definition rag_of :: "environ \<Rightarrow> 'z handler \<Rightarrow> 'z world_scheme rag_service" where
  "rag_of E H = \<lparr>rag_embed = h_embed H, rag_llm = h_llm H, rag_search = Chunks_Search E,
     rag_names = Segments_ListNamesByVideoID E\<rparr>"

definition Query :: "environ \<Rightarrow> 'z handler \<Rightarrow> identity \<Rightarrow> (go_error + query_request) \<Rightarrow> ('z, reply) act" where
  "Query E H i body =
     (case body of
        Inl _ \<Rightarrow> fail (Api ErrInvalidRequest)
      | Inr req \<Rightarrow>
         (let question = trim_space (qq_question req)
          in if question = [] then fail (Api ErrQuestionRequired)
             else if maxQuestionLength < length question then fail (Api ErrInvalidRequest)
             else andthen (Answer (rag_of E H) (id_tenant i) question (qq_segment req) (h_result_k H))
               (\<lambda>result. ret (ok_reply 200 (QueryBody result)))))"

section \<open>Router\<close>

definition dispatch :: "environ \<Rightarrow> 'z handler \<Rightarrow> identity \<Rightarrow> api_request \<Rightarrow> ('z, reply) act" where
  "dispatch E H i req =
     (case ar_route req of
        RHealth \<Rightarrow> Health E H
      | RCreateUploadIntent b \<Rightarrow> CreateUploadIntent_h E H i b
      | RCreateJob b \<Rightarrow> CreateJob E H i b
      | RListJobs \<Rightarrow> ListJobs E H i (ar_query req)
      | RGetJob j \<Rightarrow> GetJob E H i j
      | RRetryJob j \<Rightarrow> RetryJob E H i j
      | RListVideos \<Rightarrow> ListVideos E H i (ar_query req)
      | RGetVideo v \<Rightarrow> GetVideo E H i v
      | RDeleteVideo v \<Rightarrow> DeleteVideo E H i v
      | RQuery b \<Rightarrow> Query E H i b)"

text \<open>The scope its group requires: \<open>None\<close> for the public route.\<close>

fun route_scope :: "route \<Rightarrow> string option" where
  "route_scope RHealth = None"
| "route_scope (RQuery b) = Some ''query''"
| "route_scope _ = Some ''admin''"

text \<open>
  \<open>authenticate\<close>. The update of \<open>last_used_at\<close> runs in a goroutine of its own; here it runs when
  it is started, later moments being among the actions of other sessions.
\<close>

definition authenticate :: "environ \<Rightarrow> 'z handler \<Rightarrow> string \<Rightarrow> ('z, identity) act" where
  "authenticate E H plain =
     (if plain = [] then fail (Api ErrUnauthorized)
      else andthen (map_err (\<lambda>_. Api ErrUnauthorized) (GetByHash E (h_sha256_hex H plain))) (\<lambda>key.
        if k_revoked key \<noteq> None then fail (Api ErrUnauthorized)
        else andthen (best_effort (TouchLastUsed E (k_id key)))
          (\<lambda>_. ret \<lparr>id_tenant = k_tenant key, id_key = k_id key, id_scope = k_scope key\<rparr>)))"

definition RequireScope :: "string \<Rightarrow> identity \<Rightarrow> ('z, unit) act" where
  "RequireScope scope i = (if id_scope i \<noteq> scope then fail (Api ErrForbidden) else ret ())"

definition adminQuotaPerMinute :: real where "adminQuotaPerMinute = 5"
definition queryQuotaPerMinute :: real where "queryQuotaPerMinute = 10"

definition adminKey :: "identity \<Rightarrow> string \<Rightarrow> string" where
  "adminKey i ip = (if id_key i \<noteq> [] then ''admin:'' @ id_key i else ''admin:ip:'' @ ip)"

definition queryKey :: "identity \<Rightarrow> string \<Rightarrow> string" where
  "queryKey i ip = (if id_key i \<noteq> [] then ''query:'' @ id_key i else ''query:ip:'' @ ip)"

record api_world = world +
  aw_admin :: token_bucket
  aw_query :: token_bucket

text \<open>The middleware \<open>Limit\<close> of each group, with the group's bucket and key function.\<close>

definition limit_admin :: "rounding \<Rightarrow> environ \<Rightarrow> identity \<Rightarrow> string
    \<Rightarrow> (go_error, 'y api_world_scheme, unit) io" where
  "limit_admin rnd E i ip w =
     (case Allow rnd (e_time E (w_tick w)) (adminKey i ip) (aw_admin w) of
        (ok, tb) \<Rightarrow> (if ok then Inr () else Inl (Api ErrRateLimited),
          w\<lparr>w_tick := w_tick w + 1, aw_admin := tb\<rparr>))"

definition limit_query :: "rounding \<Rightarrow> environ \<Rightarrow> identity \<Rightarrow> string
    \<Rightarrow> (go_error, 'y api_world_scheme, unit) io" where
  "limit_query rnd E i ip w =
     (case Allow rnd (e_time E (w_tick w)) (queryKey i ip) (aw_query w) of
        (ok, tb) \<Rightarrow> (if ok then Inr () else Inl (Api ErrRateLimited),
          w\<lparr>w_tick := w_tick w + 1, aw_query := tb\<rparr>))"

definition new_api_world :: "rounding \<Rightarrow> db \<Rightarrow> api_world" where
  "new_api_world rnd d = \<lparr>w_db = d, w_tick = 0,
     aw_admin = NewTokenBucket adminQuotaPerMinute (rnd (adminQuotaPerMinute / 60)),
     aw_query = NewTokenBucket queryQuotaPerMinute (rnd (queryQuotaPerMinute / 60))\<rparr>"

definition guarded_route :: "rounding \<Rightarrow> environ \<Rightarrow> 'y api_world_ext handler \<Rightarrow> api_request
    \<Rightarrow> (go_error, 'y api_world_scheme, reply) io" where
  "guarded_route rnd E H req =
     (case route_scope (ar_route req) of
        None \<Rightarrow> dispatch E H \<lparr>id_tenant = [], id_key = [], id_scope = []\<rparr> req
      | Some scope \<Rightarrow>
          andthen (authenticate E H (ar_key req)) (\<lambda>i.
          andthen (RequireScope scope i) (\<lambda>_.
          andthen (if scope = ''admin'' then limit_admin rnd E i (ar_ip req) else limit_query rnd E i (ar_ip req))
            (\<lambda>_. dispatch E H i req))))"

definition serve :: "rounding \<Rightarrow> environ \<Rightarrow> 'y api_world_ext handler \<Rightarrow> api_request
    \<Rightarrow> 'y api_world_scheme \<Rightarrow> reply \<times> 'y api_world_scheme" where
  "serve rnd E H req w = respond (guarded_route rnd E H req) w"

end
