(* ===== verification/Demo.thy ===== *)
theory Demo
  imports HttpFacts DemoData
begin

text \<open>
  A concrete API server on the database of \<open>DemoData\<close>, and requests that the witnesses send it.
\<close>

definition demo_handler :: "'z handler" where
  "demo_handler = \<lparr>h_ttl_minutes = 10, h_result_k = 5, h_presign = (\<lambda>k c x. ret ''url''),
     h_embed = (\<lambda>ts. ret (map (\<lambda>_. replicate 1024 1) ts)), h_llm = (\<lambda>p u. ret ''answer''),
     h_ping = ret (), h_rfc3339 = (\<lambda>t. ''now''), h_json = (\<lambda>m. Inr ''{}''), h_sha256_hex = (\<lambda>s. s)\<rparr>"

definition demo_admin :: identity where
  "demo_admin = \<lparr>id_tenant = ''t'', id_key = ''ka'', id_scope = ''admin''\<rparr>"

lemma demo_calm: "calm demo_env t" by (simp add: calm_def demo_env_def)
lemma demo_canon [simp]: "canon (e_pg demo_env) (id_tenant demo_admin) = ''t''"
  by (simp add: canon_def demo_env_def demo_pg_def demo_admin_def)
lemma demo_inert: "ports_inert demo_handler" by (simp add: ports_inert_def demo_handler_def ret_def)

definition job_body :: "string \<Rightarrow> create_job_request" where
  "job_body k = \<lparr>cr_file_key = k, cr_title = ''Title'', cr_segments = [''s'']\<rparr>"

definition demo_request :: "route \<Rightarrow> string \<Rightarrow> api_request" where
  "demo_request rt k = \<lparr>ar_route = rt, ar_key = k, ar_ip = ''ip'', ar_query = (\<lambda>_. [])\<rparr>"

lemmas demo_defs = demo_env_def demo_pg_def demo_handler_def demo_db_def demo_key_def demo_request_def
  demo_intent_def demo_video_def demo_job_def demo_chunk_def demo_admin_def demo_world_def

lemma demo_auth:
  assumes "w_db w = demo_db"
  shows "authenticate demo_env demo_handler ''ka'' w = (Inr demo_admin,
    w\<lparr>w_db := demo_db\<lparr>d_keys := [demo_key ''ka'' ''admin''\<lparr>k_last_used := Some 5000, k_updated := 5000\<rparr>,
      demo_key ''kq'' ''query'']\<rparr>, w_tick := w_tick w + 2\<rparr>)"
  using assms by (simp add: authenticate_def GetByHash_def pool_stmt_def stmt_def GetAPIKeyByHash_def
      TouchLastUsed_def andthen_def map_err_def demo_defs one_row_def ret_def best_effort_def
      TouchAPIKeyLastUsed_def uuid_arg_def update_rows_def)

lemma demo_limit:
  assumes "aw_admin w = NewTokenBucket adminQuotaPerMinute (exact (adminQuotaPerMinute / 60))"
  shows "\<exists>w'. limit_admin exact demo_env demo_admin ip w = (Inr (), w') \<and> w_db w' = w_db w"
  using assms by (simp add: limit_admin_def Allow_def NewTokenBucket_def adminQuotaPerMinute_def exact_def
      Let_def split_beta refillBucket_def)

lemma demo_get:
  assumes "d_videos (w_db w) = [demo_video]" "d_summaries (w_db w) = []"
  shows "answered (dispatch demo_env demo_handler demo_admin (demo_request (RGetVideo ''v'') ''ka'') w)"
  using assms by (simp add: dispatch_def demo_defs GetVideo_def Videos_GetByID_def WithTenantTx_def stmt_def
      GetVideoByID_q_def one_row_def uuid_arg_def andthen_def map_err_def ret_def withSegments_def
      ListSegmentNamesByVideoID_def optional_summary_def Summaries_GetByVideoID_def GetSummaryByVideoID_q_def
      fail_def not_found_def Let_def)

lemma demo_gate:
  "answered (guarded_route exact demo_env demo_handler (demo_request (RGetVideo ''v'') ''ka'')
     (new_api_world exact demo_db))"
proof -
  let ?w = "new_api_world exact demo_db"
  obtain w1 where a: "authenticate demo_env demo_handler ''ka'' ?w = (Inr demo_admin, w1)"
    "d_videos (w_db w1) = [demo_video]" "d_summaries (w_db w1) = []"
    "aw_admin w1 = NewTokenBucket adminQuotaPerMinute (exact (adminQuotaPerMinute / 60))"
    using demo_auth [of ?w] by (simp add: new_api_world_def demo_db_def)
  obtain w2 where "limit_admin exact demo_env demo_admin ''ip'' w1 = (Inr (), w2)" "w_db w2 = w_db w1"
    using demo_limit [OF a(4)] by blast
  with a demo_get [of w2] show ?thesis
    by (simp add: guarded_route_def demo_request_def andthen_def RequireScope_def demo_admin_def ret_def)
qed

lemma failed_run: "\<not> answered p \<Longrightarrow> \<exists>e w. p = (Inl e, w)"
  by (cases p rule: answered.cases) auto

lemma demo_create_none:
  "\<not> answered (CreateJob demo_env demo_handler demo_admin (Inr (job_body ''none'')) demo_world)"
  by code_simp

lemma demo_create: "answered (CreateJob demo_env demo_handler demo_admin (Inr (job_body ''f'')) demo_world)"
  by code_simp

lemma demo_retry: "answered (RetryJob demo_env demo_handler demo_admin ''j1'' demo_world)"
  by code_simp

lemma demo_list: "answered (dispatch demo_env demo_handler demo_admin (demo_request RListJobs []) demo_world)"
  by code_simp

end
