(* ===== verification/HttpProps.thy ===== *)
theory HttpProps
  imports Demo
begin

text \<open>The properties of the HTTP API.\<close>

section \<open>Tenants\<close>

text \<open>
  C5. Tenant isolation: whatever a handler does for an identity, and however it ends, every row of
  every table that belongs to another tenant is as it was, when no other session changes one
  meanwhile and presigning, embedding, LLM and ping do not write the database.
\<close>

theorem tenant_isolation:
  assumes "calm E t" "canon (e_pg E) (id_tenant i) = t" "ports_inert H"
  shows "outside t (w_db (snd (dispatch E H i req w))) = outside t (w_db w)"
  using acts_dispatch [OF assms] by (simp add: acts_for_iff)

theorem tenant_isolation_witness:
  "outside ''t'' (w_db (snd (dispatch demo_env demo_handler demo_admin
     (demo_request (RDeleteVideo ''v'') []) demo_world))) = outside ''t'' demo_db"
  using tenant_isolation [OF demo_calm demo_canon demo_inert,
      of "demo_request (RDeleteVideo ''v'') []" demo_world] by (simp add: demo_world_def)

lemma for_collect_map:
  assumes "for_collect (\<lambda>x. andthen (f x) (\<lambda>n. ret (g x n))) xs w = (Inr ys, w')" "\<And>x n. x \<in> set xs \<Longrightarrow> Q (g x n)"
  shows "\<forall>y \<in> set ys. Q y"
  by (rule for_collect_all [OF assms(1)]) (use assms(2) in \<open>auto simp: io_ok\<close>)

lemma lift_sum_ok [io_ok]: "lift_sum r w = (Inr a, w') \<longleftrightarrow> r = Inr a \<and> w' = w"
  by (cases r) (auto simp: lift_sum_def io_ok)

lemma create_job_tx_tenant:
  "create_job_tx E u req now w = (Inr jr, w') \<Longrightarrow> pg_uuid (e_pg E) u = Some (j_tenant (jr_job jr))"
  by (erule create_job_tx_ok) (erule insert_job_tenant)

lemma CreateJob_tenant:
  "CreateJob E H i b w = (Inr r, w') \<Longrightarrow> pg_uuid (e_pg E) (id_tenant i) = Some t \<Longrightarrow> body_tenant t (rp_body r)"
proof (cases b)
  case (Inr req)
  moreover assume "CreateJob E H i b w = (Inr r, w')" "pg_uuid (e_pg E) (id_tenant i) = Some t"
  ultimately show ?thesis by (auto elim!: CreateJob_ok dest!: create_job_tx_tenant)
qed (simp add: CreateJob_def io_ok)

lemma ListJobs_tenant:
  fixes w :: "'z world_scheme"
  assumes "ListJobs E H i q w = (Inr r, w')" "pg_uuid (e_pg E) (id_tenant i) = Some t"
  shows "body_tenant t (rp_body r)"
proof -
  from assms(1) obtain page limit js data total and w1 w2 w3 :: "'z world_scheme" where
    js: "Jobs_List E (id_tenant i) (q ''status'') page limit w = (Inr js, w1)" and
    d: "for_collect (\<lambda>job. andthen (Segments_ListNamesByJobID E (j_id job) (id_tenant i))
          (\<lambda>names. ret (toJobResponse job names))) js w2 = (Inr data, w3)" and
    r: "r = ok_reply 200 (JobsBody data \<lparr>pm_page = page, pm_limit = limit, pm_total = total\<rparr>)"
    by (auto simp: ListJobs_def io_ok split: prod.splits)
  have "\<forall>y \<in> set data. j_tenant (jr_job y) = t"
    by (rule for_collect_map [OF d]) (use Jobs_List_tenant [OF js] assms(2) in \<open>auto simp: toJobResponse_def\<close>)
  with r show ?thesis by (simp add: ok_reply_def)
qed

lemma optional_summary_tenant:
  "optional_summary E v t w = (Inr s, w') \<Longrightarrow> pg_uuid (e_pg E) t = Some u \<Longrightarrow> s = Some m \<Longrightarrow> m_tenant m = u"
  by (auto dest!: optional_summary_ok Summaries_GetByVideoID_tenant)

lemma dispatch_tenant:
  assumes "dispatch E H i req w = (Inr r, w')" "pg_uuid (e_pg E) (id_tenant i) = Some (id_tenant i)"
  shows "body_tenant (id_tenant i) (rp_body r)"
proof (cases "ar_route req")
  case RHealth
  with assms show ?thesis by (auto simp: dispatch_def Health_def io_ok ok_reply_def)
next
  case (RCreateUploadIntent b)
  with assms show ?thesis
    by (auto simp: dispatch_def CreateUploadIntent_h_def io_ok ok_reply_def Let_def
        split: sum.splits if_splits option.splits)
next
  case (RCreateJob b)
  with assms show ?thesis by (auto simp: dispatch_def intro: CreateJob_tenant)
next
  case RListJobs
  with assms show ?thesis by (auto simp: dispatch_def intro: ListJobs_tenant)
next
  case (RGetJob j)
  with assms show ?thesis
    by (auto simp: dispatch_def GetJob_def io_ok ok_reply_def toJobResponse_def dest!: Jobs_GetByID_tenant)
next
  case (RRetryJob j)
  with assms show ?thesis
    by (auto simp: dispatch_def RetryJob_def io_ok ok_reply_def toJobResponse_def dest!: Jobs_GetByID_tenant
        split: if_splits)
next
  case RListVideos
  with assms show ?thesis
    by (auto simp: dispatch_def ListVideos_def io_ok ok_reply_def split: prod.splits)
      (metis Videos_List_tenant option.inject)
next
  case (RGetVideo v)
  with assms show ?thesis
    by (auto simp: dispatch_def GetVideo_def io_ok ok_reply_def
        dest!: Videos_GetByID_tenant dest: optional_summary_tenant)
next
  case (RDeleteVideo v)
  with assms show ?thesis by (auto simp: dispatch_def DeleteVideo_def io_ok ok_reply_def)
next
  case (RQuery b)
  with assms show ?thesis
    by (auto simp: dispatch_def Query_def io_ok ok_reply_def Let_def split: sum.splits if_splits)
qed

text \<open>
  C15. What a handler returns for an identity is that tenant's: every job, video, summary and
  upload intent in a successful reply carries the tenant of the identity.
\<close>

theorem replies_own_rows:
  assumes "dispatch E H i req w = (Inr r, w')" "pg_uuid (e_pg E) (id_tenant i) = Some (id_tenant i)"
  shows "body_tenant (id_tenant i) (rp_body r)"
  using assms by (rule dispatch_tenant)

theorem replies_own_rows_witness:
  "\<exists>r w'. dispatch demo_env demo_handler demo_admin (demo_request RListJobs []) demo_world = (Inr r, w') \<and>
     body_tenant ''t'' (rp_body r)"
proof -
  obtain r w' where d: "dispatch demo_env demo_handler demo_admin (demo_request RListJobs []) demo_world = (Inr r, w')"
    using answered_ok [OF demo_list] by blast
  from replies_own_rows [OF this] have "body_tenant ''t'' (rp_body r)"
    by (simp add: demo_env_def demo_pg_def demo_admin_def)
  with d show ?thesis by blast
qed

section \<open>Authentication\<close>

lemma authenticate_ok:
  assumes "authenticate E H p w = (Inr i, w')"
  obtains k where "k \<in> set (d_keys (e_other E (w_tick w) (w_db w)))" "k_hash k = h_sha256_hex H p"
    "k_revoked k = None" "i = \<lparr>id_tenant = k_tenant k, id_key = k_id k, id_scope = k_scope k\<rparr>" "p \<noteq> []"
  using assms
  by (auto simp: authenticate_def io_ok GetByHash_def pool_stmt_def stmt_ok GetAPIKeyByHash_def one_row_ok
      split: if_splits dest!: filter_Cons_prop)

lemma RequireScope_ok [io_ok]: "RequireScope scope i w = (Inr u, w') \<longleftrightarrow> id_scope i = scope \<and> w' = w"
  by (auto simp: RequireScope_def io_ok)

text \<open>
  C14. The gate before the handlers: a protected route answers only for a plain key whose hash is
  stored, not revoked and of the scope of the route's group, and the handler runs with the tenant,
  key and scope of that row and no others.
\<close>

theorem auth_gate:
  assumes "guarded_route rnd E H req w = (Inr r, w')" "route_scope (ar_route req) = Some scope"
  shows "ar_key req \<noteq> [] \<and> (\<exists>k w1. k \<in> set (d_keys (e_other E (w_tick w) (w_db w))) \<and>
    k_hash k = h_sha256_hex H (ar_key req) \<and> k_revoked k = None \<and> k_scope k = scope \<and>
    dispatch E H \<lparr>id_tenant = k_tenant k, id_key = k_id k, id_scope = k_scope k\<rparr> req w1 = (Inr r, w'))"
proof -
  from assms obtain i w1 w2 where a: "authenticate E H (ar_key req) w = (Inr i, w1)" and
    "id_scope i = scope" "dispatch E H i req w2 = (Inr r, w')"
    by (auto simp: guarded_route_def io_ok)
  with authenticate_ok [OF a] show ?thesis by (metis identity.select_convs(3))
qed

theorem auth_gate_witness:
  "\<exists>k \<in> set (d_keys demo_db). k_hash k = ''ka'' \<and> k_scope k = ''admin''"
proof -
  obtain r w' where "guarded_route exact demo_env demo_handler (demo_request (RGetVideo ''v'') ''ka'')
     (new_api_world exact demo_db) = (Inr r, w')"
    using answered_ok [OF demo_gate] by blast
  from auth_gate [OF this, of "''admin''"] show ?thesis
    by (auto simp: demo_request_def demo_handler_def new_api_world_def demo_env_def)
qed

text \<open>
  A request without a live key gets 401 and nothing happens: when no stored key that is not
  revoked has the hash of the presented one, a protected route fails with \<open>ErrUnauthorized\<close> and
  the database is untouched, also when the lookup itself fails.
\<close>

theorem unauthenticated_rejected:
  assumes "route_scope (ar_route req) = Some scope" "\<And>n d. e_other E n d = d"
    "\<And>k. k \<in> set (d_keys (w_db w)) \<Longrightarrow> k_hash k = h_sha256_hex H (ar_key req) \<Longrightarrow> k_revoked k \<noteq> None"
  shows "rp_status (fst (serve rnd E H req w)) = 401 \<and> w_db (snd (serve rnd E H req w)) = w_db w \<and>
    fst (serve rnd E H req w) = writeError (Api ErrUnauthorized)"
proof -
  have none: "filter (\<lambda>k. k_hash k = h_sha256_hex H (ar_key req) \<and> k_revoked k = None) (d_keys (w_db w)) = []"
    using assms(3) by (auto simp: filter_empty_conv)
  have "\<exists>w1. authenticate E H (ar_key req) w = (Inl (Api ErrUnauthorized), w1) \<and> w_db w1 = w_db w"
    by (auto simp: authenticate_def fail_def andthen_def map_err_def GetByHash_def pool_stmt_def stmt_def
        assms(2) GetAPIKeyByHash_def one_row_def none split: option.split)
  then obtain w1 where "authenticate E H (ar_key req) w = (Inl (Api ErrUnauthorized), w1)" "w_db w1 = w_db w"
    by blast
  then have "serve rnd E H req w = (writeError (Api ErrUnauthorized), w1)"
    by (simp add: serve_def respond_def guarded_route_def assms(1) andthen_def)
  then show ?thesis using \<open>w_db w1 = w_db w\<close>
    by (simp add: writeError_def api_http_status_def ErrUnauthorized_def newAPIError_def)
qed

theorem unauthenticated_rejected_witness:
  "rp_status (fst (serve exact demo_env demo_handler (demo_request RListJobs ''no'')
     (new_api_world exact demo_db))) = 401"
  by (rule unauthenticated_rejected [where scope = "''admin''", THEN conjunct1])
    (auto simp: demo_request_def demo_env_def demo_handler_def new_api_world_def demo_db_def demo_key_def)

section \<open>Upload intents\<close>

abbreviation intents_kept :: "upload_intent list \<Rightarrow> 'a sql \<Rightarrow> bool" where
  "intents_kept X \<equiv> keeps (\<lambda>d. d_intents d = X)"

lemma intents_kept_sql:
  "intents_kept X (EnsureSegmentByName P s)"
  "intents_kept X (CreateJob_q P j)"
  "intents_kept X (AttachJobSegment P a b c)"
  "intents_kept X (ListSegmentNamesByJobID P a b)"
  "intents_kept X (InsertAuditLog P l)"
  by (auto simp: keeps_def EnsureSegmentByName_def CreateJob_q_def AttachJobSegment_def attach_def
      ListSegmentNamesByJobID_def InsertAuditLog_def uuid_arg_def violation_def fail_def guarded_snd Let_def
      split: option.split)

lemma intents_kept_ensure: "keeps_db (\<lambda>d. d_intents d = X) (ensure_segment E t n)"
  unfolding ensure_segment_def by (intro io_inv_rules stmt_keeps intents_kept_sql)

lemma intents_kept_insert: "keeps_db (\<lambda>d. d_intents d = X) (insert_job E t req intent kind segs)"
  unfolding insert_job_def by (intro io_inv_rules stmt_keeps intents_kept_sql)

lemma insertAudit_keeps:
  assumes "stable E Q" "\<And>a. keeps Q (InsertAuditLog (e_pg E) a)"
  shows "keeps_db Q (insertAudit E H i action obj meta)"
  unfolding insertAudit_def
proof (intro io_inv_rules)
  fix u ts
  let ?a = "\<lparr>a_id = u, a_tenant = id_tenant i, a_actor = if id_key i \<noteq> [] then Some (id_key i) else None,
    a_action = action, a_object = obj, a_metadata = [], a_created = ts\<rparr>"
  show "keeps_db Q (InsertAudit E ?a (h_json H meta))"
  proof (cases "h_json H meta")
    case (Inr m)
    then show ?thesis unfolding InsertAudit_def
      by (simp only: sum.case) (intro io_inv_rules tx_keeps [OF assms(1)] stmt_keeps assms(2))
  qed (simp add: InsertAudit_def io_inv_rules)
qed

lemma mark_consumed:
  assumes "MarkUploadIntentConsumed P now key t d = (Inr row, d')" "pg_uuid P t = Some u"
    "i \<in> set (d_intents d')" "i_file_key i = key" "i_tenant i = u"
  shows "i_status i \<noteq> ''issued''"
proof -
  define hit :: "upload_intent \<Rightarrow> bool" where "hit = (\<lambda>i. i_file_key i = key \<and> i_tenant i = u \<and> i_status i = ''issued'')"
  define f :: "upload_intent \<Rightarrow> upload_intent" where "f = (\<lambda>i. i\<lparr>i_status := ''consumed'', i_consumed := Some now\<rparr>)"
  have "d_intents d' = update_rows hit f (d_intents d)"
    using assms(1,2) by (simp add: MarkUploadIntentConsumed_def uuid_arg_def Let_def one_row_ok hit_def f_def)
  with assms(3) have "i \<in> (\<lambda>r. if hit r then f r else r) ` set (d_intents d)" by (simp only: update_rows_def set_map)
  then obtain j where "i = (if hit j then f j else j)" by (rule imageE)
  then consider "i = f j" | "i = j" "\<not> hit j" by (auto split: if_splits)
  then show ?thesis using assms(4,5) by cases (simp_all add: hit_def f_def)
qed

lemma create_job_tx_consumes:
  assumes "create_job_tx E t req now w = (Inr jr, w')" "pg_uuid (e_pg E) t = Some u"
    "i \<in> set (d_intents (w_db w'))" "i_file_key i = cr_file_key req" "i_tenant i = u"
  shows "i_status i \<noteq> ''issued''"
proof -
  from create_job_tx_ok [OF assms(1)] obtain intent segs kind row w2 w3 where
    m: "MarkUploadIntentConsumed (e_pg E) now (cr_file_key req) t (w_db w) = (Inr row, w_db w2)" and
    s: "for_collect (ensure_segment E t) (cr_segments req) w2 = (Inr segs, w3)" and
    j: "insert_job E t req intent kind segs w3 = (Inr jr, w')" by metis
  have "d_intents (w_db w3) = d_intents (w_db w2)"
    by (rule keepsD [OF keeps_for_collect [OF intents_kept_ensure] refl s])
  moreover have "d_intents (w_db w') = d_intents (w_db w3)"
    by (rule keepsD [OF intents_kept_insert refl j])
  ultimately have "d_intents (w_db w') = d_intents (w_db w2)" by simp
  with assms(3) have "i \<in> set (d_intents (w_db w2))" by simp
  from mark_consumed [OF m assms(2) this assms(4,5)] show ?thesis .
qed

lemma jobs_kept_sql:
  "keeps (\<lambda>d. d_jobs d = X) (AttachJobSegment P a b c)"
  "keeps (\<lambda>d. d_jobs d = X) (ListSegmentNamesByJobID P a b)"
  "keeps (\<lambda>d. d_jobs d = X) (InsertAuditLog P l)"
  by (auto simp: keeps_def AttachJobSegment_def attach_def ListSegmentNamesByJobID_def InsertAuditLog_def
      uuid_arg_def violation_def fail_def guarded_snd Let_def split: option.split)

lemma insert_job_row:
  fixes w :: "'z world_scheme"
  assumes "insert_job E t req intent kind segs w = (Inr jr, w')"
  obtains row where "row \<in> set (d_jobs (w_db w'))" "jr_job jr = row\<lparr>j_intent := Some (i_id intent)\<rparr>"
    "j_file_key row = cr_file_key req" "j_title row = cr_title req" "j_kind row = kind"
    "j_status row = ''pending''" "j_stage row = ''queued''" "j_retry row = 0" "j_error row = None"
    "d_jobs (w_db w') = d_jobs (w_db w) @ [row]" "j_id row \<notin> j_id ` set (d_jobs (w_db w))"
    "\<exists>u. pg_uuid (e_pg E) u = Some (j_id row)" "pg_uuid (e_pg E) t = Some (j_tenant row)"
proof -
  from assms obtain now u row names and w1 w2 w3 :: "'z world_scheme" where
    c: "stmt E (CreateJob_q (e_pg E)
           \<lparr>j_id = u, j_tenant = t, j_intent = e_go_uuid E (i_id intent), j_file_key = cr_file_key req,
            j_title = cr_title req, j_kind = kind, j_status = ''pending'', j_stage = ''queued'',
            j_error = None, j_retry = 0, j_started = None, j_finished = None,
            j_created = fromTime now, j_updated = fromTime now\<rparr>) w1 = (Inr row, w2)" and
    a: "for_each (\<lambda>sid. stmt E (AttachJobSegment (e_pg E) (j_id row) sid t)) segs w2 = (Inr (), w3)" and
    n: "stmt E (ListSegmentNamesByJobID (e_pg E) (j_id row) t) w3 = (Inr names, w')" and
    r: "jr = \<lparr>jr_job = row\<lparr>j_intent := Some (i_id intent)\<rparr>, jr_segments = names\<rparr>" and
    d: "w_db w1 = w_db w"
    by (auto simp: insert_job_def io_ok time_now_def newUUIDString_def)
  have "d_jobs (w_db w3) = d_jobs (w_db w2)"
    by (rule keepsD [OF keeps_for_each [OF stmt_keeps [OF jobs_kept_sql(1)]] refl a])
  moreover have "d_jobs (w_db w') = d_jobs (w_db w3)"
    by (rule keepsD [OF stmt_keeps [OF jobs_kept_sql(2)] refl n])
  ultimately show ?thesis
    using c r d by (intro that [of row]) (auto simp: stmt_ok CreateJob_q_def uuid_arg_ok guarded_ok Let_def)
qed

lemma CreateJob_run:
  fixes w :: "'z world_scheme"
  assumes "CreateJob E H i (Inr req) w = (Inr r, w')" "quiet E"
  obtains jr and w1 w2 :: "'z world_scheme" where "validateCreateJob req = None"
    "create_job_tx E (id_tenant i) req (e_time E (w_tick w)) w1 = (Inr jr, w2)" "w_db w1 = w_db w"
    "d_intents (w_db w') = d_intents (w_db w2)" "d_jobs (w_db w') = d_jobs (w_db w2)"
    "r = \<lparr>rp_status = 201, rp_body = JobBody jr\<rparr>"
proof -
  from CreateJob_ok [OF assms(1)] obtain jr and w1 w2 w3 :: "'z world_scheme" where c: "validateCreateJob req = None"
    "create_job_tx E (id_tenant i) req (e_time E (w_tick w)) w1 = (Inr jr, w2)"
    "w_db w1 = e_other E (w_tick w) (w_db w)" "w_db w2 = w_db w3" "rp_body r = JobBody jr" "rp_status r = 201" and
    w': "w' = snd (insertAudit E H i ''job.create'' (Some (j_id (jr_job jr)))
        (Some [(''upload_intent_id'', j_intent (jr_job jr))]) w3)"
    by metis
  have k: "Q (w_db w')" if "\<And>a. keeps Q (InsertAuditLog (e_pg E) a)" "Q (w_db w2)" for Q
    using insertAudit_keeps [OF quiet_stable [OF assms(2), of Q] that(1)] that(2) c(4)
    unfolding w' keeps_def by metis
  have "d_intents (w_db w') = d_intents (w_db w2)" "d_jobs (w_db w') = d_jobs (w_db w2)"
    by (rule k [where Q = "\<lambda>d. d_intents d = d_intents (w_db w2)"], rule intents_kept_sql, rule refl)
      (rule k [where Q = "\<lambda>d. d_jobs d = d_jobs (w_db w2)"], rule jobs_kept_sql, rule refl)
  with c assms(2) that [where jr = jr and ?w1.0 = w1 and ?w2.0 = w2] show ?thesis by (cases r) (simp add: quiet_def)
qed

lemma get_intent_ok:
  "GetUploadIntentByFileKeyForUpdate P key t d = (Inr i, d') \<Longrightarrow> pg_uuid P t = Some u \<Longrightarrow>
   i \<in> set (d_intents d) \<and> i_file_key i = key \<and> i_tenant i = u"
  by (auto simp: GetUploadIntentByFileKeyForUpdate_def uuid_arg_ok one_row_ok dest!: filter_Cons_prop)

text \<open>
  C12. What a successful \<open>CreateJob\<close> did, with no other session at work: the request is valid, an
  issued, unexpired intent of the tenant with this file key existed, and now no intent of the
  tenant with this key is issued; the reply is 201 with a pending, queued job of the intent's
  kind that is stored with the file key and title of the request.
\<close>

theorem create_job_effect:
  assumes "CreateJob E H i (Inr req) w = (Inr r, w')" "quiet E" "pg_uuid (e_pg E) (id_tenant i) = Some t"
  shows "\<exists>intent jr row n ext kind. validateCreateJob req = None \<and> rp_status r = 201 \<and> rp_body r = JobBody jr \<and>
    intent \<in> set (d_intents (w_db w)) \<and> i_file_key intent = cr_file_key req \<and> i_tenant intent = t \<and>
    i_status intent = ''issued'' \<and> e_time E n < i_expires intent \<and>
    AllowedContentTypes (i_content_type intent) = Some (ext, kind) \<and>
    (\<forall>k \<in> set (d_intents (w_db w')). i_file_key k = cr_file_key req \<and> i_tenant k = t \<longrightarrow> i_status k \<noteq> ''issued'') \<and>
    row \<in> set (d_jobs (w_db w')) \<and> jr_job jr = row\<lparr>j_intent := Some (i_id intent)\<rparr> \<and> j_tenant row = t \<and>
    j_file_key row = cr_file_key req \<and> j_title row = cr_title req \<and> j_kind row = kind \<and>
    j_status row = ''pending'' \<and> j_stage row = ''queued'' \<and> j_retry row = 0 \<and> j_error row = None"
proof -
  obtain jr and w1 w2 :: "'a world_scheme" where v: "validateCreateJob req = None"
    and tx: "create_job_tx E (id_tenant i) req (e_time E (w_tick w)) w1 = (Inr jr, w2)" and db: "w_db w1 = w_db w"
    and kept: "d_intents (w_db w') = d_intents (w_db w2)" "d_jobs (w_db w') = d_jobs (w_db w2)"
    and r: "r = \<lparr>rp_status = 201, rp_body = JobBody jr\<rparr>"
    by (rule CreateJob_run [OF assms(1,2)])
  obtain intent segs kind ext and w3 w4 :: "'a world_scheme" where
    g: "GetUploadIntentByFileKeyForUpdate (e_pg E) (cr_file_key req) (id_tenant i) (w_db w1) = (Inr intent, w_db w1)"
    "i_status intent = ''issued''" "e_time E (w_tick w1 + 1) < i_expires intent"
    "AllowedContentTypes (i_content_type intent) = Some (ext, kind)" and
    ins: "insert_job E (id_tenant i) req intent kind segs w4 = (Inr jr, w2)"
    by (rule create_job_tx_ok [OF tx])
  obtain row where row: "row \<in> set (d_jobs (w_db w2))" "jr_job jr = row\<lparr>j_intent := Some (i_id intent)\<rparr>"
    "j_file_key row = cr_file_key req" "j_title row = cr_title req" "j_kind row = kind"
    "j_status row = ''pending''" "j_stage row = ''queued''" "j_retry row = 0" "j_error row = None"
    using insert_job_row [OF ins] by metis
  have "j_tenant row = t" using insert_job_tenant [OF ins] row(2) assms(3) by simp
  moreover have "\<forall>k \<in> set (d_intents (w_db w')). i_file_key k = cr_file_key req \<and> i_tenant k = t \<longrightarrow> i_status k \<noteq> ''issued''"
    using create_job_tx_consumes [OF tx assms(3)] kept by simp
  ultimately show ?thesis using v r g row get_intent_ok [OF g(1) assms(3)] db kept
    by (intro exI [of _ intent] exI [of _ jr] exI [of _ row] exI [of _ "w_tick w1 + 1"] exI [of _ ext] exI [of _ kind]) simp
qed

lemma demo_quiet: "quiet demo_env" by (simp add: quiet_def demo_env_def)
lemma demo_tenant: "pg_uuid (e_pg demo_env) (id_tenant demo_admin) = Some ''t''"
  by (simp add: demo_env_def demo_pg_def demo_admin_def)

theorem create_job_effect_witness:
  "\<exists>r w' row. CreateJob demo_env demo_handler demo_admin (Inr (job_body ''f'')) demo_world = (Inr r, w') \<and>
     row \<in> set (d_jobs (w_db w')) \<and> j_file_key row = ''f'' \<and> j_kind row = ''pdf''"
proof -
  obtain r w' where c: "CreateJob demo_env demo_handler demo_admin (Inr (job_body ''f'')) demo_world = (Inr r, w')"
    using answered_ok [OF demo_create] by blast
  from create_job_effect [OF this demo_quiet demo_tenant] obtain intent row ext kind where
    "intent \<in> set (d_intents (w_db demo_world))" "AllowedContentTypes (i_content_type intent) = Some (ext, kind)"
    "row \<in> set (d_jobs (w_db w'))" "j_file_key row = cr_file_key (job_body ''f'')" "j_kind row = kind" by metis
  with c show ?thesis by (auto simp: demo_world_def demo_db_def demo_intent_def job_body_def AllowedContentTypes_def)
qed





section \<open>Retry\<close>

lemma filter_update_kept:
  "(\<And>r. Q (f r) = Q r) \<Longrightarrow> filter Q (update_rows hit f rs) = map (\<lambda>r. if hit r then f r else r) (filter Q rs)"
  by (induction rs) (auto simp: update_rows_def)

lemma Jobs_GetByID_ok:
  fixes w :: "'z world_scheme"
  assumes "Jobs_GetByID E job0 t0 w = (Inr j, w')" "quiet E"
  shows "\<exists>i t rs. pg_uuid (e_pg E) job0 = Some i \<and> pg_uuid (e_pg E) t0 = Some t \<and>
    filter (\<lambda>j. j_id j = i \<and> j_tenant j = t) (d_jobs (w_db w)) = j # rs \<and> w_db w' = w_db w"
  using assms unfolding Jobs_GetByID_def map_err_ok
  by (elim tx_ok) (auto simp: io_ok stmt_ok GetJobByID_q_def uuid_arg_ok one_row_ok quiet_def)

lemma Jobs_Retry_ok:
  fixes w :: "'z world_scheme"
  assumes "Jobs_Retry E job0 t0 w = (Inr u, w')" "quiet E" "pg_uuid (e_pg E) job0 = Some i" "pg_uuid (e_pg E) t0 = Some t"
  shows "d_jobs (w_db w') = update_rows (\<lambda>j. j_id j = i \<and> j_tenant j = t \<and> j_status j = ''failed'')
    (retry_update (e_time E (w_tick w))) (d_jobs (w_db w))"
  using assms unfolding Jobs_Retry_def
  by (elim tx_ok) (auto simp: io_ok stmt_ok RetryJob_q_def uuid_arg_ok guarded_ok one_row_ok quiet_def Let_def)

text \<open>
  C29. Retry is for failed jobs: a successful \<open>RetryJob\<close>, with no other session at work, returns the
  tenant's job of that id, which was failed, reset to pending and queued with its error and times
  cleared and its retry count one higher.
\<close>

theorem retry_only_failed:
  assumes "RetryJob E H i job0 w = (Inr r, w')" "quiet E"
  shows "\<exists>j now segs. j \<in> set (d_jobs (w_db w)) \<and> pg_uuid (e_pg E) job0 = Some (j_id j) \<and>
    pg_uuid (e_pg E) (id_tenant i) = Some (j_tenant j) \<and> j_status j = ''failed'' \<and>
    rp_body r = JobBody \<lparr>jr_job = j\<lparr>j_status := ''pending'', j_stage := ''queued'', j_error := None,
      j_retry := j_retry j + 1, j_started := None, j_finished := None, j_updated := now\<rparr>, jr_segments = segs\<rparr>"
proof -
  let ?t = "id_tenant i"
  from assms(1) obtain j j' segs and w1 w2 w3 :: "'a world_scheme" where
    g: "Jobs_GetByID E job0 ?t w = (Inr j, w1)" and f: "j_status j = ''failed''" and
    u: "Jobs_Retry E job0 ?t w1 = (Inr (), w2)" and g': "Jobs_GetByID E job0 ?t w2 = (Inr j', w3)" and
    r: "rp_body r = JobBody \<lparr>jr_job = j', jr_segments = segs\<rparr>"
    by (auto simp: RetryJob_def io_ok ok_reply_def toJobResponse_def split: if_splits)
  from Jobs_GetByID_ok [OF g assms(2)] obtain id1 t rs where
    p: "pg_uuid (e_pg E) job0 = Some id1" "pg_uuid (e_pg E) ?t = Some t"
    "filter (\<lambda>j. j_id j = id1 \<and> j_tenant j = t) (d_jobs (w_db w)) = j # rs" "w_db w1 = w_db w" by blast
  let ?now = "e_time E (w_tick w1)"
  have j: "j \<in> set (d_jobs (w_db w)) \<and> j_id j = id1 \<and> j_tenant j = t" using filter_Cons_prop [OF p(3)] by simp
  have "filter (\<lambda>j. j_id j = id1 \<and> j_tenant j = t) (d_jobs (w_db w2)) = retry_update ?now j #
      map (\<lambda>r. if j_id r = id1 \<and> j_tenant r = t \<and> j_status r = ''failed'' then retry_update ?now r else r) rs"
    unfolding Jobs_Retry_ok [OF u assms(2) p(1,2)] p(4)
    by (subst filter_update_kept) (simp_all add: p(3) retry_update_def f j)
  with Jobs_GetByID_ok [OF g' assms(2)] p(1,2) have "j' = retry_update ?now j" by auto
  with r p(1,2) j f show ?thesis by (auto simp: retry_update_def)
qed

theorem retry_only_failed_witness:
  "\<exists>r w' now segs. RetryJob demo_env demo_handler demo_admin ''j1'' demo_world = (Inr r, w') \<and>
     rp_body r = JobBody \<lparr>jr_job = demo_job\<lparr>j_status := ''pending'', j_stage := ''queued'', j_error := None,
        j_retry := j_retry demo_job + 1, j_started := None, j_finished := None, j_updated := now\<rparr>, jr_segments = segs\<rparr>"
proof -
  obtain r w' where c: "RetryJob demo_env demo_handler demo_admin ''j1'' demo_world = (Inr r, w')"
    using answered_ok [OF demo_retry] by blast
  with retry_only_failed [OF this demo_quiet] show ?thesis by (auto simp: demo_world_def demo_db_def)
qed

section \<open>Lists\<close>

lemma pagination_bounds_error: "pagination q = Inl e \<Longrightarrow> e = Api ErrInvalidRequest"
  by (auto simp: pagination_def Let_def split: option.splits if_splits)

text \<open>
  Paging parameters: \<open>pagination\<close> accepts exactly an absent or well-formed positive page and
  limit, and returns a page of at least 1 and a limit between 1 and 100.
\<close>

theorem pagination_bounds:
  "(\<forall>p l. pagination q = Inr (p, l) \<longrightarrow> 1 \<le> p \<and> p \<le> max_int64 \<and> 1 \<le> l \<and> l \<le> 100) \<and>
   ((\<exists>pl. pagination q = Inr pl) \<longleftrightarrow>
      (q ''page'' = [] \<or> (\<exists>n. atoi (q ''page'') = Some n \<and> 1 \<le> n)) \<and>
      (q ''limit'' = [] \<or> (\<exists>n. atoi (q ''limit'') = Some n \<and> 1 \<le> n))) \<and>
   (\<forall>e. pagination q = Inl e \<longrightarrow> e = Api ErrInvalidRequest)"
proof -
  have "n \<le> max_int64" if "atoi s = Some n" for s n using atoi_is_int64 [OF that] by (simp add: is_int64_def)
  moreover have "1 \<le> max_int64" by (simp add: max_int64_def)
  ultimately show ?thesis
    by (auto simp: pagination_def Let_def currentPageDefault_def listLimitDefault_def listLimitMax_def
        split: option.splits if_splits)
qed

theorem pagination_bounds_witness:
  "\<exists>p l. pagination (\<lambda>k. if k = ''page'' then ''3'' else if k = ''limit'' then ''500'' else []) = Inr (p, l) \<and> l \<le> 100"
proof -
  let ?q = "\<lambda>k. if k = ''page'' then ''3'' else if k = ''limit'' then ''500'' else []"
  have "pagination ?q = Inr (3, 100)"
    by (simp add: pagination_def atoi_def is_int64_def min_int64_def max_int64_def listLimitMax_def)
  with pagination_bounds [of ?q] show ?thesis by blast
qed

lemma Jobs_List_ok:
  assumes "Jobs_List E t0 status p l w = (Inr js, w')" "quiet E" "pg_uuid (e_pg E) t0 = Some t"
    "1 \<le> p" "1 \<le> l" "l \<le> 100" "(p - 1) * l < 2 ^ 31"
  shows "js = take (nat l) (drop (nat ((p - 1) * l))
      (sort_key (\<lambda>j. - j_created j) (jobs_of t (optionalText status) (w_db w)))) \<and> w_db w' = w_db w"
proof -
  have pl: "0 \<le> (p - 1) * l" using assms(4,5) by simp
  have "p - 1 \<le> (p - 1) * l" using mult_left_mono [of 1 l "p - 1"] assms(4,5) by simp
  then have "wrap64 (p - 1) = p - 1" using assms(4,7) by (intro wrap64_small) simp_all
  moreover have "wrap64 ((p - 1) * l) = (p - 1) * l" using pl assms(7) by (intro wrap64_small) simp_all
  moreover have "wrap32 ((p - 1) * l) = (p - 1) * l" using pl assms(7) by (intro wrap32_small) simp_all
  moreover have "wrap32 l = l" using assms(5,6) by (intro wrap32_small) simp_all
  ultimately have "wrap32 (wrap64 (wrap64 (p - 1) * l)) = (p - 1) * l" "wrap32 l = l" by simp_all
  with assms(1-3) show ?thesis unfolding Jobs_List_def
    by (elim tx_ok) (auto simp: io_ok stmt_ok ListJobs_q_def uuid_arg_ok limit_offset_ok quiet_def cong: map_cong)
qed

lemma Jobs_Count_ok:
  "Jobs_Count E t0 status w = (Inr n, w') \<Longrightarrow> quiet E \<Longrightarrow> pg_uuid (e_pg E) t0 = Some t \<Longrightarrow>
   n = int (length (jobs_of t (optionalText status) (w_db w)))"
  unfolding Jobs_Count_def by (elim tx_ok) (auto simp: stmt_ok CountJobs_q_def uuid_arg_ok quiet_def)

lemma for_collect_jobs:
  "for_collect (\<lambda>job. andthen (f job) (\<lambda>names. ret (toJobResponse job names))) js w = (Inr data, w') \<Longrightarrow>
   map jr_job data = js"
  by (induction js arbitrary: data w) (auto simp: io_ok toJobResponse_def)

lemma pagination_range: "pagination q = Inr (p, l) \<Longrightarrow> 1 \<le> p \<and> 1 \<le> l \<and> l \<le> 100"
  by (auto simp: pagination_def Let_def currentPageDefault_def listLimitDefault_def listLimitMax_def
      split: option.splits if_splits)



section \<open>Search\<close>

text \<open>
  C22. Vector search stays in the tenant: every hit is a stored chunk of the tenant, its title is
  that of a completed, non-deleted video it belongs to, there are at most \<open>limit\<close> of them, and the
  embedding is not returned, when the index returns rows it was given.
\<close>

theorem search_own_completed:
  assumes "Chunks_Search E t0 emb name1 limit w = (Inr hits, w')" "quiet E" "pg_uuid (e_pg E) t0 = Some t"
    "\<And>e cs. set (pg_nearest (e_pg E) e cs) \<subseteq> set cs" "0 \<le> limit" "limit < 2 ^ 31"
  shows "length hits \<le> nat limit \<and> (\<forall>h \<in> set hits. \<exists>c \<in> set (d_chunks (w_db w)). \<exists>v \<in> set (d_videos (w_db w)).
    c_tenant c = t \<and> c_video c = v_id v \<and> v_status v = ''completed'' \<and> v_deleted v = None \<and>
    sr_title h = v_title v \<and> c_content (sr_chunk h) = c_content c \<and> c_index (sr_chunk h) = c_index c \<and>
    c_video (sr_chunk h) = c_video c \<and> c_tenant (sr_chunk h) = t \<and> c_embedding (sr_chunk h) = [])"
proof -
  have l: "wrap32 limit = limit" using assms(5,6) by (intro wrap32_small) simp_all
  let ?rows = "take (nat limit) (pg_nearest (e_pg E) emb (search_rows (e_pg E) t (optionalText name1) (w_db w)))"
  have hits: "hits = map (\<lambda>(c, v). \<lparr>sr_chunk = c\<lparr>c_embedding := [], c_created := toTime (c_created c)\<rparr>,
      sr_title = v_title v\<rparr>) ?rows"
    using assms(1-3) unfolding Chunks_Search_def l
    by (elim tx_ok) (auto simp: io_ok stmt_ok SearchChunks_q_def uuid_arg_ok guarded_ok limit_offset_ok quiet_def)
  have "set ?rows \<subseteq> set (search_rows (e_pg E) t (optionalText name1) (w_db w))"
    using assms(4) set_take_subset by (meson order_trans)
  then have rows: "c \<in> set (d_chunks (w_db w)) \<and> v \<in> set (d_videos (w_db w)) \<and>
      v_id v = c_video c \<and> c_tenant c = t \<and> v_status v = ''completed'' \<and> v_deleted v = None"
    if "(c, v) \<in> set ?rows" for c v
    using that by (fastforce simp: search_rows_def)
  show ?thesis
  proof (intro conjI ballI)
    show "length hits \<le> nat limit" by (simp add: hits)
    fix h
    assume "h \<in> set hits"
    then obtain c v where "(c, v) \<in> set ?rows" and
      h: "h = \<lparr>sr_chunk = c\<lparr>c_embedding := [], c_created := toTime (c_created c)\<rparr>, sr_title = v_title v\<rparr>"
      by (auto simp: hits)
    from rows [OF this(1)] show "\<exists>c \<in> set (d_chunks (w_db w)). \<exists>v \<in> set (d_videos (w_db w)).
      c_tenant c = t \<and> c_video c = v_id v \<and> v_status v = ''completed'' \<and> v_deleted v = None \<and>
      sr_title h = v_title v \<and> c_content (sr_chunk h) = c_content c \<and> c_index (sr_chunk h) = c_index c \<and>
      c_video (sr_chunk h) = c_video c \<and> c_tenant (sr_chunk h) = t \<and> c_embedding (sr_chunk h) = []"
      by (intro bexI [of _ c] bexI [of _ v]) (simp_all add: h)
  qed
qed

lemma demo_page: "pagination (\<lambda>_. []) = Inr (1, 10)"
  by (simp add: pagination_def currentPageDefault_def listLimitDefault_def)


lemma demo_search:
  "answered (Chunks_Search demo_env ''t'' (replicate 1024 1) [] 5 demo_world)"
  by (simp add: demo_defs Chunks_Search_def WithTenantTx_def stmt_def SearchChunks_q_def uuid_arg_def guarded_snd
      guarded.simps limit_offset_def wrap32_def optionalText_def search_rows_def in_segment_def andthen_def ret_def
      vector_dims_def)

theorem search_own_completed_witness:
  "\<exists>hits w'. Chunks_Search demo_env ''t'' (replicate 1024 1) [] 5 demo_world = (Inr hits, w') \<and>
     length hits \<le> 5 \<and> (\<forall>h \<in> set hits. c_tenant (sr_chunk h) = ''t'')"
proof -
  obtain hits w' where c: "Chunks_Search demo_env ''t'' (replicate 1024 1) [] 5 demo_world = (Inr hits, w')"
    using answered_ok [OF demo_search] by blast
  have "pg_uuid (e_pg demo_env) ''t'' = Some ''t''" "\<And>e cs. set (pg_nearest (e_pg demo_env) e cs) \<subseteq> set cs"
    by (simp_all add: demo_env_def demo_pg_def)
  from search_own_completed [OF c demo_quiet this] c show ?thesis by auto
qed

end
