(* ===== verification/ClientErrors.thy ===== *)
theory ClientErrors
  imports HttpProps
begin

text \<open>
  What a client sees of a failure. \<open>honest m\<close>: every API error in the chain of an error that \<open>m\<close>
  returns is one of the twelve sentinels; it holds of the statements, the repositories, the
  middlewares and the handlers, provided it holds of the errors that come from outside.
\<close>

section \<open>Honest computations\<close>

definition honest :: "(go_error, 'w, 'a) io \<Rightarrow> bool" where
  "honest m \<longleftrightarrow> (\<forall>w e w'. m w = (Inl e, w') \<longrightarrow> from_sentinels e)"

lemma honestI: "(\<And>w e w'. m w = (Inl e, w') \<Longrightarrow> from_sentinels e) \<Longrightarrow> honest m"
  by (auto simp: honest_def)

lemma honestD: "honest m \<Longrightarrow> m w = (Inl e, w') \<Longrightarrow> from_sentinels e"
  by (auto simp: honest_def)

named_theorems honesty \<open>computations whose errors carry sentinels only\<close>

lemma honest_ret [honesty]: "honest (ret a)"
  by (simp add: honest_def ret_def)

lemma honest_fail [honesty]: "from_sentinels e \<Longrightarrow> honest (fail e)"
  by (simp add: honest_def fail_def)

lemma honest_andthen [honesty]: "honest m \<Longrightarrow> (\<And>a. honest (f a)) \<Longrightarrow> honest (andthen m f)"
  by (rule honestI, erule andthen_cases) (auto dest: honestD)

lemma honest_map_err [honesty]:
  "honest m \<Longrightarrow> (\<And>e. from_sentinels e \<Longrightarrow> from_sentinels (g e)) \<Longrightarrow> honest (map_err g m)"
  by (fastforce simp: honest_def map_err_def split: prod.splits sum.splits)

lemma honest_map_const: "from_sentinels e \<Longrightarrow> honest (map_err (\<lambda>_. e) m)"
  by (auto simp: honest_def map_err_def split: prod.splits sum.splits)

lemma honest_for_collect [honesty]: "(\<And>x. honest (f x)) \<Longrightarrow> honest (for_collect f xs)"
  by (induction xs) (auto intro!: honesty)

lemma honest_for_each [honesty]: "(\<And>x. honest (f x)) \<Longrightarrow> honest (for_each f xs)"
  by (induction xs) (auto intro!: honesty)

lemma honest_time [honesty]: "honest (time_now E)" "honest (newUUIDString E)"
  by (simp_all add: honest_def time_now_def newUUIDString_def)

lemma honest_best_effort [honesty]: "honest (best_effort m)"
  by (simp add: honest_def best_effort_def)

lemma sentinel_errors [simp]:
  "ErrInvalidRequest \<in> set sentinels" "ErrUnsupportedContentType \<in> set sentinels" "ErrInvalidFileKey \<in> set sentinels"
  "ErrExpiredUploadIntent \<in> set sentinels" "ErrUploadIntentConsumed \<in> set sentinels" "ErrJobNotFailed \<in> set sentinels"
  "ErrQuestionRequired \<in> set sentinels" "ErrNotFound \<in> set sentinels" "ErrUnauthorized \<in> set sentinels"
  "ErrForbidden \<in> set sentinels" "ErrRateLimited \<in> set sentinels" "ErrInternal \<in> set sentinels"
  by (simp_all add: sentinels_def)

section \<open>Statements and transactions\<close>

lemma uuid_arg_err:
  "uuid_arg P s f d = (Inl e, d') \<Longrightarrow> from_sentinels e \<or> (\<exists>u. pg_uuid P s = Some u \<and> f u d = (Inl e, d'))"
  by (auto simp: uuid_arg_def violation_def fail_def split: option.splits)

lemma guarded_err: "guarded P cs m d = (Inl e, d') \<Longrightarrow> from_sentinels e \<or> m d = (Inl e, d')"
  by (induction P cs m rule: guarded.induct) (auto simp: guarded.simps violation_def fail_def split: if_splits)

lemma one_row_err: "one_row rs d = (Inl e, d') \<Longrightarrow> from_sentinels e"
  by (auto simp: one_row_def ret_def fail_def split: list.splits)

lemma limit_offset_err: "limit_offset P n k rs d = (Inl e, d') \<Longrightarrow> from_sentinels e"
  unfolding limit_offset_def by (drule guarded_err) (auto simp: ret_def)

lemmas sql_errs = uuid_arg_err guarded_err one_row_err limit_offset_err

lemma honest_queries [honesty]:
  "honest (GetAPIKeyByHash hash)"
  "honest (GetUploadIntentByFileKeyForUpdate P key t)"
  "honest (MarkUploadIntentConsumed P now key t)"
  "honest (CreateUploadIntent P a)"
  "honest (CreateJob_q P j)"
  "honest (ListJobs_q P t status k n)"
  "honest (CountJobs_q P t status)"
  "honest (GetJobByID_q P i t)"
  "honest (RetryJob_q P now i t)"
  "honest (EnsureSegmentByName P s)"
  "honest (AttachJobSegment P job sg t)"
  "honest (ListSegmentNamesByJobID P job t)"
  "honest (ListSegmentNamesByVideoID P vid t)"
  "honest (GetVideoByID_q P i t)"
  "honest (ListVideos_q P t status name1 k n)"
  "honest (CountVideos_q P t status name1)"
  "honest (SoftDeleteVideo_q P now i t)"
  "honest (GetSummaryByVideoID_q P vid t)"
  "honest (SearchChunks_q P t name1 emb n)"
  unfolding honest_def GetAPIKeyByHash_def GetUploadIntentByFileKeyForUpdate_def MarkUploadIntentConsumed_def
    CreateUploadIntent_def CreateJob_q_def ListJobs_q_def CountJobs_q_def GetJobByID_q_def RetryJob_q_def
    EnsureSegmentByName_def AttachJobSegment_def attach_def ListSegmentNamesByJobID_def
    ListSegmentNamesByVideoID_def GetVideoByID_q_def ListVideos_q_def CountVideos_q_def SoftDeleteVideo_q_def
    GetSummaryByVideoID_q_def SearchChunks_q_def Let_def
  by (auto dest!: sql_errs split: if_splits)

definition honest_env :: "environ \<Rightarrow> bool" where
  "honest_env E \<longleftrightarrow> (\<forall>n e. e_fault E n = Some e \<longrightarrow> from_sentinels e)"

lemma honest_stmt [honesty]: "honest_env E \<Longrightarrow> honest q \<Longrightarrow> honest (stmt E q)"
  by (rule honestI) (auto simp: honest_env_def stmt_def dest: honestD split: option.splits prod.splits)

lemma honest_pool_stmt [honesty]: "honest_env E \<Longrightarrow> (\<And>now. honest (q now)) \<Longrightarrow> honest (pool_stmt E q)"
  by (rule honestI) (auto simp: pool_stmt_def dest: honestD [OF honest_stmt])

lemma honest_tx [honesty]: "honest_env E \<Longrightarrow> (\<And>now. honest (fn now)) \<Longrightarrow> honest (WithTenantTx E t fn)"
  by (rule honestI)
    (auto simp: honest_env_def WithTenantTx_def Let_def dest: honestD
      split: option.splits prod.splits sum.splits if_splits)

lemma not_found_honest [simp]: "from_sentinels e \<Longrightarrow> from_sentinels (not_found e)"
  by (simp add: not_found_def)

lemma honest_repositories [honesty]:
  assumes "honest_env E"
  shows "honest (Intents_Create E a)"
    "honest (Jobs_List E t status page limit)"
    "honest (Jobs_Count E t status)"
    "honest (Jobs_GetByID E id0 t)"
    "honest (Jobs_Retry E id0 t)"
    "honest (Segments_ListNamesByJobID E id0 t)"
    "honest (Segments_ListNamesByVideoID E id0 t)"
    "honest (Videos_List E t name1 status page limit)"
    "honest (Videos_Count E t name1 status)"
    "honest (Videos_GetByID E id0 t)"
    "honest (Videos_SoftDelete E id0 t)"
    "honest (Summaries_GetByVideoID E id0 t)"
    "honest (Chunks_Search E t emb name1 limit)"
  unfolding Intents_Create_def Jobs_List_def Jobs_Count_def Jobs_GetByID_def Jobs_Retry_def
    Segments_ListNamesByJobID_def Segments_ListNamesByVideoID_def Videos_List_def Videos_Count_def
    Videos_GetByID_def Videos_SoftDelete_def Summaries_GetByVideoID_def Chunks_Search_def withSegments_def
  by (intro honesty assms not_found_honest; assumption)+

section \<open>Handlers\<close>

definition honest_ports :: "'z handler \<Rightarrow> bool" where
  "honest_ports H \<longleftrightarrow> (\<forall>k c x. honest (h_presign H k c x)) \<and> (\<forall>ts. honest (h_embed H ts)) \<and>
     (\<forall>p u. honest (h_llm H p u))"

lemma honest_if: "(b \<Longrightarrow> honest m) \<Longrightarrow> (\<not> b \<Longrightarrow> honest n) \<Longrightarrow> honest (if b then m else n)"
  by simp

lemma honest_optional_summary: "honest_env E \<Longrightarrow> honest (optional_summary E vid t)"
  using honest_repositories(12) [of E vid t]
  by (intro honestI) (auto simp: optional_summary_def dest: honestD split: prod.splits sum.splits if_splits)

lemma honest_collect_hits: "(\<And>v t. honest (rag_names s v t)) \<Longrightarrow> honest (collect_hits s u hits refs doc)"
  by (induction hits arbitrary: refs doc) (auto intro!: honesty)

lemma honest_answer:
  assumes "honest_env E" "honest_ports H"
  shows "honest (Answer (rag_of E H) t q seg k)"
proof -
  have p: "honest (rag_embed (rag_of E H) ts)" "honest (rag_llm (rag_of E H) a b)"
    "honest (rag_search (rag_of E H) t' emb n' l)" "honest (rag_names (rag_of E H) v u)" for ts a b t' emb n' l v u
    using assms by (simp_all add: rag_of_def honest_ports_def honest_repositories)
  show ?thesis unfolding Answer_def answer_hits_def
    by (intro honesty honest_if honest_collect_hits p) (simp_all add: errNoEmbedding_def)
qed

lemma honest_create_job_tx:
  assumes "honest_env E"
  shows "honest (create_job_tx E t req now)"
proof -
  have seg: "honest (ensure_segment E t name1)" for name1
    unfolding ensure_segment_def by (intro honesty assms)
  have ins: "honest (insert_job E t req intent kind segs)" for intent kind segs
    unfolding insert_job_def by (intro honesty assms)
  have rest: "honest (case AllowedContentTypes ct of None \<Rightarrow> fail (Api ErrUnsupportedContentType)
      | Some (ext, kind) \<Rightarrow> andthen (for_collect (ensure_segment E t) (cr_segments req)) (insert_job E t req intent kind))"
    for ct intent
    by (auto intro!: honest_andthen honest_for_collect seg ins honest_fail split: option.split)
  show ?thesis unfolding create_job_tx_def
    by (intro honesty honest_if assms rest) (simp_all add: mapNoRows_def)
qed

lemma honest_lift_pagination: "honest (lift_sum (pagination q))"
  using pagination_bounds_error [of q]
  by (intro honestI) (auto simp: lift_sum_def fail_def ret_def split: sum.splits)

lemma honest_prod: "(\<And>a b. honest (f a b)) \<Longrightarrow> honest (case p of (a, b) \<Rightarrow> f a b)"
  by (cases p) simp

lemma honest_handlers:
  assumes "honest_env E" "honest_ports H"
  shows "honest (dispatch E H i req)"
proof (cases "ar_route req")
  case RHealth
  then show ?thesis unfolding dispatch_def Health_def
    by (auto intro!: honest_andthen honest_map_const honest_time honest_ret)
next
  case (RCreateUploadIntent b)
  have "honest (CreateUploadIntent_h E H i b)"
    using assms(2) unfolding CreateUploadIntent_h_def Let_def
    by (auto intro!: honest_andthen honest_fail honest_repositories(1) assms(1) honest_ret honest_best_effort honest_time
        simp: honest_ports_def split: sum.split option.split)
  with RCreateUploadIntent show ?thesis by (simp add: dispatch_def)
next
  case (RCreateJob b)
  have "\<And>req e. validateCreateJob req = Some e \<Longrightarrow> from_sentinels e"
    by (auto simp: validateCreateJob_def split: if_splits)
  then have "honest (CreateJob E H i b)" unfolding CreateJob_def
    by (auto intro!: honest_andthen honest_fail honest_tx honest_create_job_tx assms(1) honest_ret honest_best_effort
        split: sum.split option.split)
  with RCreateJob show ?thesis by (simp add: dispatch_def)
next
  case RListJobs
  then show ?thesis unfolding dispatch_def ListJobs_def
    by (auto intro!: honest_andthen honest_lift_pagination honest_repositories assms(1) honest_ret honest_for_collect)
next
  case (RGetJob j)
  then show ?thesis unfolding dispatch_def GetJob_def
    by (auto intro!: honest_andthen honest_repositories assms(1) honest_ret)
next
  case (RRetryJob j)
  then show ?thesis unfolding dispatch_def RetryJob_def
    by (auto intro!: honest_andthen honest_fail honest_repositories assms(1) honest_ret honest_best_effort)
next
  case RListVideos
  then show ?thesis unfolding dispatch_def ListVideos_def
    by (auto intro!: honest_andthen honest_lift_pagination honest_repositories assms(1) honest_ret)
next
  case (RGetVideo v)
  then show ?thesis unfolding dispatch_def GetVideo_def
    by (auto intro!: honest_andthen honest_repositories honest_optional_summary assms(1) honest_ret)
next
  case (RDeleteVideo v)
  then show ?thesis unfolding dispatch_def DeleteVideo_def
    by (auto intro!: honest_andthen honest_repositories assms(1) honest_ret honest_best_effort)
next
  case (RQuery b)
  then show ?thesis unfolding dispatch_def Query_def Let_def
    by (auto intro!: honest_andthen honest_fail honest_answer assms honest_ret split: sum.split)
qed

lemma honest_authenticate: "honest (authenticate E H p)"
  unfolding authenticate_def
  by (auto intro!: honest_andthen honest_fail honest_map_const honest_ret honest_best_effort)

lemma honest_limits: "honest (limit_admin rnd E i ip)" "honest (limit_query rnd E i ip)"
  by (rule honestI, auto simp: limit_admin_def limit_query_def split: prod.splits if_splits)+

lemma honest_guarded_route:
  assumes "honest_env E" "honest_ports H"
  shows "honest (guarded_route rnd E H req)"
proof -
  have scope: "honest (RequireScope s i)" for s i
    by (simp add: RequireScope_def honesty)
  have d: "honest (dispatch E H i req)" for i by (rule honest_handlers [OF assms])
  show ?thesis unfolding guarded_route_def
    by (auto intro!: honest_andthen honest_authenticate scope d honest_limits split: option.split)
qed

section \<open>Success is not an error body\<close>

fun is_error_body :: "reply_body \<Rightarrow> bool" where
  "is_error_body (ErrorBody c m) = True"
| "is_error_body b = False"

lemma dispatch_body: "dispatch E H i req w = (Inr r, w') \<Longrightarrow> \<not> is_error_body (rp_body r)"
  by (cases "ar_route req")
    (auto simp: dispatch_def Health_def CreateUploadIntent_h_def CreateJob_def ListJobs_def GetJob_def RetryJob_def
      ListVideos_def GetVideo_def DeleteVideo_def Query_def ok_reply_def io_ok Let_def
      split: sum.splits option.splits if_splits prod.splits)

lemma guarded_route_body: "guarded_route rnd E H req w = (Inr r, w') \<Longrightarrow> \<not> is_error_body (rp_body r)"
  by (auto simp: guarded_route_def io_ok dest: dispatch_body split: option.splits)

text \<open>
  C16. No leak in error replies: every error body the API sends is, with its status, the code and
  message of one of the twelve sentinel errors, so no text of the database, of a provider or of the
  program's wrapping reaches a client, when the outside raises no API error of its own.
\<close>

theorem client_sees_sentinels:
  assumes "honest_env E" "honest_ports H" "rp_body (fst (serve rnd E H req w)) = ErrorBody c m"
  shows "\<exists>a \<in> set sentinels. rp_status (fst (serve rnd E H req w)) = ae_http_status a \<and> c = ae_code a \<and> m = ae_msg a"
proof -
  obtain x w' where x: "guarded_route rnd E H req w = (x, w')" by fastforce
  show ?thesis
  proof (cases x)
    case (Inr r)
    with guarded_route_body [of rnd E H req w r w'] assms(3) x show ?thesis
      by (simp add: serve_def respond_def)
  next
    case (Inl e)
    with honestD [OF honest_guarded_route [OF assms(1,2)]] x have "from_sentinels e" by blast
    then obtain a where "a \<in> set sentinels" "api_code (Some e) = ae_code a"
      "api_http_status (Some e) = ae_http_status a" "api_message (Some e) = ae_msg a"
      using client_view_sentinel [of "Some e"] by auto
    with assms(3) x Inl show ?thesis by (auto simp: serve_def respond_def writeError_def)
  qed
qed

theorem client_sees_sentinels_witness:
  "\<exists>c m. rp_body (fst (serve exact demo_env demo_handler (demo_request RListJobs [])
     (new_api_world exact demo_db))) = ErrorBody c m \<and> c \<in> ae_code ` set sentinels"
proof -
  have h: "honest_env demo_env" "honest_ports demo_handler"
    by (simp_all add: honest_env_def honest_ports_def demo_env_def demo_handler_def honesty)
  have "\<exists>c m. rp_body (fst (serve exact demo_env demo_handler (demo_request RListJobs [])
     (new_api_world exact demo_db))) = ErrorBody c m"
    by (simp add: serve_def guarded_route_def demo_request_def authenticate_def fail_def andthen_def respond_def
        writeError_def)
  then obtain c m where b: "rp_body (fst (serve exact demo_env demo_handler (demo_request RListJobs [])
     (new_api_world exact demo_db))) = ErrorBody c m" by blast
  from client_sees_sentinels [OF h b] have "c \<in> ae_code ` set sentinels" by blast
  with b show ?thesis by blast
qed

end
