(* ===== verification/ApiFrame.thy ===== *)
theory ApiFrame
  imports ClientErrors
begin

text \<open>
  Handlers, repositories and statements leave the part of the world they do not know alone, and
  time only advances. Hence nothing but the rate limit middleware touches the buckets, and the
  guarantee of \<open>TokenBucket\<close> holds of the API: how many requests of a key get through in a time.
\<close>

section \<open>Computations that leave the rest of the world alone\<close>

text \<open>\<open>reserved view m\<close>: \<open>m\<close> leaves alone what \<open>view\<close> sees of the world, and time does not go back.\<close>

definition reserved :: "('z world_scheme \<Rightarrow> 'v) \<Rightarrow> ('z, 'a) act \<Rightarrow> bool" where
  "reserved view m \<longleftrightarrow> (\<forall>w. view (snd (m w)) = view w \<and> w_tick w \<le> w_tick (snd (m w)))"

named_theorems reserving \<open>computations that leave the rest of the world alone\<close>

text \<open>The ports of the handlers leave the rest of the world alone too.\<close>

definition reserved_ports :: "('z world_scheme \<Rightarrow> 'v) \<Rightarrow> 'z handler \<Rightarrow> bool" where
  "reserved_ports view H \<longleftrightarrow> (\<forall>k c x. reserved view (h_presign H k c x)) \<and> (\<forall>ts. reserved view (h_embed H ts)) \<and>
     (\<forall>p u. reserved view (h_llm H p u)) \<and> reserved view (h_ping H)"

text \<open>
  The interface between the database layer and what is built on the world: a view of the part of
  the world that statements and handlers do not know.
\<close>

locale rest_of_world =
  fixes view :: "'z world_scheme \<Rightarrow> 'v"
  assumes view_db: "view (w\<lparr>w_db := d\<rparr>) = view w"
    and view_tick: "view (w\<lparr>w_tick := n\<rparr>) = view w"
begin

lemma reservedD: "reserved view m \<Longrightarrow> m w = (r, w') \<Longrightarrow> view w' = view w \<and> w_tick w \<le> w_tick w'"
  unfolding reserved_def by (metis snd_conv)

lemma reservedI: "(\<And>w. view (snd (m w)) = view w \<and> w_tick w \<le> w_tick (snd (m w))) \<Longrightarrow> reserved view m"
  by (simp add: reserved_def)

lemma reserved_basic [reserving]:
  "reserved view (ret a)" "reserved view (fail e)" "reserved view (time_now E)" "reserved view (newUUIDString E)"
  by (simp_all add: reserved_def ret_def fail_def time_now_def newUUIDString_def view_tick)

lemma reserved_andthen [reserving]:
  assumes "reserved view m" "\<And>a. reserved view (f a)"
  shows "reserved view (andthen m f)"
proof (rule reservedI)
  fix w
  obtain r w1 where m: "m w = (r, w1)" by fastforce
  with reservedD [OF assms(1) m] assms(2) show "view (snd (andthen m f w)) = view w \<and> w_tick w \<le> w_tick (snd (andthen m f w))"
    by (cases r) (auto simp: andthen_Inl andthen_Inr reserved_def intro: order_trans)
qed

lemma reserved_map_err [reserving]: "reserved view m \<Longrightarrow> reserved view (map_err g m)"
  by (simp add: reserved_def)

lemma reserved_for_collect [reserving]: "(\<And>x. reserved view (f x)) \<Longrightarrow> reserved view (for_collect f xs)"
  by (induction xs) (auto intro!: reserving)

lemma reserved_for_each [reserving]: "(\<And>x. reserved view (f x)) \<Longrightarrow> reserved view (for_each f xs)"
  by (induction xs) (auto intro!: reserving)

lemma reserved_best_effort [reserving]: "reserved view m \<Longrightarrow> reserved view (best_effort m)"
  by (simp add: reserved_def best_effort_def)

lemma reserved_if [reserving]: "reserved view m \<Longrightarrow> reserved view n \<Longrightarrow> reserved view (if b then m else n)"
  by simp

lemma reserved_lift [reserving]: "reserved view (lift_sum r)"
  by (cases r) (simp_all add: lift_sum_def reserving)

lemma reserved_prod [reserving]: "(\<And>a b. reserved view (f a b)) \<Longrightarrow> reserved view (case p of (a, b) \<Rightarrow> f a b)"
  by (cases p) simp

lemma reserved_sum [reserving]:
  "(\<And>a. reserved view (f a)) \<Longrightarrow> (\<And>b. reserved view (g b)) \<Longrightarrow> reserved view (case x of Inl a \<Rightarrow> f a | Inr b \<Rightarrow> g b)"
  by (cases x) simp_all

lemma reserved_option [reserving]:
  "reserved view m \<Longrightarrow> (\<And>b. reserved view (g b)) \<Longrightarrow> reserved view (case x of None \<Rightarrow> m | Some b \<Rightarrow> g b)"
  by (cases x) simp_all

lemma reserved_let [reserving]: "reserved view (f a) \<Longrightarrow> reserved view (Let a f)"
  by simp

lemma reserved_stmt [reserving]: "reserved view (stmt E q)"
  by (rule reservedI) (simp add: stmt_def view_db view_tick split: option.split prod.split)

lemma reserved_pool_stmt [reserving]: "reserved view (pool_stmt E q)"
  by (rule reservedI) (simp add: pool_stmt_def stmt_def view_db view_tick split: option.split prod.split)

lemma reserved_tx [reserving]:
  fixes fn :: "time \<Rightarrow> ('z, 'a) act"
  assumes "\<And>now. reserved view (fn now)"
  shows "reserved view (WithTenantTx E t fn)"
proof (rule reservedI)
  fix w :: "'z world_scheme"
  let ?v = "w\<lparr>w_db := e_other E (w_tick w) (w_db w), w_tick := w_tick w + 2\<rparr>"
  obtain r w2 where f: "fn (e_time E (w_tick w)) ?v = (r, w2)" by fastforce
  from reservedD [OF assms f] f
  show "view (snd (WithTenantTx E t fn w)) = view w \<and> w_tick w \<le> w_tick (snd (WithTenantTx E t fn w))"
    by (auto simp: WithTenantTx_def Let_def view_db view_tick split: option.split sum.split)
qed

lemma reserved_repositories [reserving]:
  "reserved view (GetByHash E h)" "reserved view (TouchLastUsed E k)"
  "reserved view (Intents_Create E a)" "reserved view (Jobs_List E t status page limit)" "reserved view (Jobs_Count E t status)"
  "reserved view (Jobs_GetByID E id0 t)" "reserved view (Jobs_Retry E id0 t)"
  "reserved view (Segments_ListNamesByJobID E id0 t)" "reserved view (Segments_ListNamesByVideoID E id0 t)"
  "reserved view (Videos_List E t name1 status page limit)" "reserved view (Videos_Count E t name1 status)"
  "reserved view (Videos_GetByID E id0 t)" "reserved view (Videos_SoftDelete E id0 t)"
  "reserved view (Summaries_GetByVideoID E id0 t)" "reserved view (Chunks_Search E t emb name1 limit)"
  "reserved view (InsertAudit E al j)"
  unfolding GetByHash_def TouchLastUsed_def Intents_Create_def Jobs_List_def Jobs_Count_def Jobs_GetByID_def Jobs_Retry_def
    Segments_ListNamesByJobID_def Segments_ListNamesByVideoID_def Videos_List_def Videos_Count_def
    Videos_GetByID_def Videos_SoftDelete_def Summaries_GetByVideoID_def Chunks_Search_def withSegments_def InsertAudit_def
  by (intro reserving)+

lemma reserved_port_calls [reserving]:
  assumes "reserved_ports view H"
  shows "reserved view (h_presign H k c x)" "reserved view (h_embed H ts)" "reserved view (h_llm H p u)" "reserved view (h_ping H)"
  using assms by (simp_all add: reserved_ports_def)

lemma reserved_optional_summary [reserving]: "reserved view (optional_summary E vid t)"
proof (rule reservedI)
  fix w :: "'z world_scheme"
  obtain r w1 where s: "Summaries_GetByVideoID E vid t w = (r, w1)" by fastforce
  from reservedD [OF reserved_repositories(14) s] s
  show "view (snd (optional_summary E vid t w)) = view w \<and> w_tick w \<le> w_tick (snd (optional_summary E vid t w))"
    by (auto simp: optional_summary_def split: sum.split)
qed

lemma reserved_hits: "(\<And>v t. reserved view (rag_names s v t)) \<Longrightarrow> reserved view (collect_hits s u hits refs doc)"
  by (induction hits arbitrary: refs doc) (auto intro!: reserving)

lemma reserved_answer [reserving]:
  assumes "reserved_ports view H"
  shows "reserved view (Answer (rag_of E H) t q seg k)"
proof -
  have p: "reserved view (rag_embed (rag_of E H) ts)" "reserved view (rag_llm (rag_of E H) a b)"
    "reserved view (rag_search (rag_of E H) t' emb n' l)" "reserved view (rag_names (rag_of E H) v u)" for ts a b t' emb n' l v u
    using assms by (simp_all add: rag_of_def reserved_ports_def reserved_repositories)
  show ?thesis unfolding Answer_def answer_hits_def by (intro reserving reserved_hits p)
qed

lemma reserved_handlers [reserving]:
  assumes "reserved_ports view H"
  shows "reserved view (dispatch E H i req)"
  unfolding dispatch_def Health_def CreateUploadIntent_h_def CreateJob_def create_job_tx_def ensure_segment_def
    insert_job_def ListJobs_def GetJob_def RetryJob_def ListVideos_def GetVideo_def DeleteVideo_def Query_def insertAudit_def
  by (cases "ar_route req"; simp only: route.case; intro reserving assms)

lemma reserved_authenticate [reserving]: "reserved view (authenticate E H plain)"
  unfolding authenticate_def by (intro reserving)

end

section \<open>Requests that get through\<close>

definition both_buckets :: "'y api_world_scheme \<Rightarrow> token_bucket \<times> token_bucket" where
  "both_buckets w = (aw_admin w, aw_query w)"

interpretation limits: rest_of_world both_buckets
  by unfold_locales (simp_all add: both_buckets_def)

text \<open>The bucket, key and limiter of a route group; every group but \<open>admin\<close> is \<open>query\<close>.\<close>

definition bucket_of :: "string \<Rightarrow> 'y api_world_scheme \<Rightarrow> token_bucket" where
  "bucket_of scope w = (if scope = ''admin'' then aw_admin w else aw_query w)"

definition group_key :: "string \<Rightarrow> identity \<Rightarrow> string \<Rightarrow> string" where
  "group_key scope i ip = (if scope = ''admin'' then adminKey i ip else queryKey i ip)"

definition group_quota :: "string \<Rightarrow> real" where
  "group_quota scope = (if scope = ''admin'' then adminQuotaPerMinute else queryQuotaPerMinute)"

definition limiter :: "string \<Rightarrow> rounding \<Rightarrow> environ \<Rightarrow> identity \<Rightarrow> string
    \<Rightarrow> (go_error, 'y api_world_scheme, unit) io" where
  "limiter scope rnd E i ip = (if scope = ''admin'' then limit_admin rnd E i ip else limit_query rnd E i ip)"

text \<open>What stands before the handler of a route of the group.\<close>

definition gate :: "rounding \<Rightarrow> environ \<Rightarrow> 'y api_world_ext handler \<Rightarrow> string \<Rightarrow> api_request
    \<Rightarrow> (go_error, 'y api_world_scheme, identity) io" where
  "gate rnd E H scope req =
     andthen (authenticate E H (ar_key req)) (\<lambda>i. andthen (RequireScope scope i) (\<lambda>_.
     andthen (limiter scope rnd E i (ar_ip req)) (\<lambda>_. ret i)))"

lemma serve_gate:
  "route_scope (ar_route req) = Some scope \<Longrightarrow> serve rnd E H req w =
    (case gate rnd E H scope req w of
       (Inl e, w1) \<Rightarrow> (writeError e, w1)
     | (Inr i, w1) \<Rightarrow> respond (dispatch E H i req) w1)"
  by (auto simp: serve_def guarded_route_def respond_def gate_def limiter_def andthen_def ret_def
      split: prod.split sum.split)

text \<open>The requests of a sequence that reached a handler of the group, with key id and time.\<close>

fun admissions :: "rounding \<Rightarrow> environ \<Rightarrow> 'y api_world_ext handler \<Rightarrow> string \<Rightarrow> api_request list
    \<Rightarrow> 'y api_world_scheme \<Rightarrow> (time \<times> string) list" where
  "admissions rnd E H scope [] w = []"
| "admissions rnd E H scope (req # reqs) w =
     (if route_scope (ar_route req) = Some scope
      then (case gate rnd E H scope req w of
              (Inr i, w1) \<Rightarrow> [(e_time E (w_tick w1 - 1), id_key i)]
            | (Inl e, w1) \<Rightarrow> [])
      else []) @ admissions rnd E H scope reqs (snd (serve rnd E H req w))"

lemma bucket_more: "both_buckets w' = both_buckets w \<Longrightarrow> bucket_of scope w' = bucket_of scope w"
  by (simp add: bucket_of_def both_buckets_def)

lemma limiter_step:
  assumes "Allow rnd (e_time E (w_tick w)) (group_key scope i ip) (bucket_of scope w) = (ok, tb)"
  shows "\<exists>w'. limiter scope rnd E i ip w = (if ok then Inr () else Inl (Api ErrRateLimited), w') \<and>
    bucket_of scope w' = tb \<and> w_tick w' = w_tick w + 1"
  using assms by (auto simp: limiter_def limit_admin_def limit_query_def group_key_def bucket_of_def)

lemma limiter_other:
  "(scope' = ''admin'') \<noteq> (scope = ''admin'') \<Longrightarrow> limiter scope' rnd E i ip w = (x, w') \<Longrightarrow>
   bucket_of scope w' = bucket_of scope w \<and> w_tick w \<le> w_tick w'"
  by (auto simp: limiter_def limit_admin_def limit_query_def bucket_of_def split: prod.splits)

lemma gate_cases:
  fixes w :: "'y api_world_scheme"
  assumes "gate rnd E H scope req w = (x, w1)"
  obtains (refused) e where "x = Inl e" "both_buckets w1 = both_buckets w" "w_tick w \<le> w_tick w1"
  | (called) i l and w0 :: "'y api_world_scheme" where "both_buckets w0 = both_buckets w" "w_tick w \<le> w_tick w0"
      "limiter scope rnd E i (ar_ip req) w0 = (l, w1)" "x = (case l of Inl e \<Rightarrow> Inl e | Inr _ \<Rightarrow> Inr i)"
proof -
  obtain y w0 where a: "authenticate E H (ar_key req) w = (y, w0)" by fastforce
  note p = limits.reservedD [OF limits.reserved_authenticate a]
  show ?thesis
  proof (cases y)
    case (Inl e)
    with a assms have "x = Inl e" "w1 = w0" by (simp_all add: gate_def andthen_Inl)
    with p show ?thesis using refused by blast
  next
    case (Inr i)
    show ?thesis
    proof (cases "id_scope i = scope")
      case False
      with a assms Inr have "x = Inl (Api ErrForbidden)" "w1 = w0"
        by (simp_all add: gate_def andthen_Inr RequireScope_def andthen_def fail_def)
      with p show ?thesis using refused by blast
    next
      case True
      obtain l v where l: "limiter scope rnd E i (ar_ip req) w0 = (l, v)" by fastforce
      with a assms Inr True have "x = (case l of Inl e \<Rightarrow> Inl e | Inr _ \<Rightarrow> Inr i)" "v = w1"
        by (cases l; simp add: gate_def andthen_Inr RequireScope_def andthen_def ret_def)+
      with p l show ?thesis using called by blast
    qed
  qed
qed

lemma respond_reserved:
  assumes "reserved_ports both_buckets H"
  shows "both_buckets (snd (respond (dispatch E H i req) w)) = both_buckets w \<and> w_tick w \<le> w_tick (snd (respond (dispatch E H i req) w))"
proof -
  obtain x w1 where d: "dispatch E H i req w = (x, w1)" by fastforce
  from limits.reservedD [OF limits.reserved_handlers [OF assms] d] d show ?thesis by (cases x) (simp_all add: respond_def)
qed

lemma route_scopes: "route_scope r = Some scope \<Longrightarrow> scope \<in> {''admin'', ''query''}"
  by (cases r) auto

text \<open>A call of the limiter: its instant and bucket key, and the id of the API key.\<close>

type_synonym limiter_call = "(time \<times> string) \<times> string"

definition call_ok :: "string \<Rightarrow> environ \<Rightarrow> nat \<Rightarrow> nat \<Rightarrow> limiter_call \<Rightarrow> bool" where
  "call_ok scope E n n' c \<longleftrightarrow> (\<exists>k. n \<le> k \<and> k < n' \<and> fst (fst c) = e_time E k) \<and>
     (snd c \<noteq> [] \<longrightarrow> snd (fst c) = scope @ '':'' @ snd c)"

definition passed :: "limiter_call list \<Rightarrow> bool list \<Rightarrow> (time \<times> string) list" where
  "passed cs vs = map (\<lambda>(c, v). (fst (fst c), snd c)) (filter snd (zip cs vs))"

definition account :: "rounding \<Rightarrow> limiter_call list \<Rightarrow> token_bucket \<Rightarrow> (time \<times> string) list \<times> token_bucket" where
  "account rnd cs tb = (passed cs (fst (allow_all rnd (map fst cs) tb)), snd (allow_all rnd (map fst cs) tb))"

lemma account_Nil [simp]: "account rnd [] tb = ([], tb)"
  by (simp add: account_def passed_def)

lemma account_one:
  "Allow rnd t b tb = (ok, tb') \<Longrightarrow> account rnd [((t, b), k)] tb = (if ok then [(t, k)] else [], tb')"
  by (simp add: account_def passed_def)

lemma allow_all_snd: "snd (allow_all rnd (xs @ ys) tb) = snd (allow_all rnd ys (snd (allow_all rnd xs tb)))"
  by (induction xs arbitrary: tb) (simp_all add: Let_def split_beta)

lemma account_append:
  "account rnd cs tb = (p, tb1) \<Longrightarrow> account rnd cs' tb1 = (p', tb2) \<Longrightarrow> account rnd (cs @ cs') tb = (p @ p', tb2)"
  by (auto simp: account_def passed_def allow_all_append allow_all_snd allow_all_length)

lemma serve_account:
  fixes w :: "'y api_world_scheme"
  assumes "reserved_ports both_buckets H" "scope \<in> {''admin'', ''query''}"
  shows "\<exists>cs. account rnd cs (bucket_of scope w) =
      (if route_scope (ar_route req) = Some scope
       then (case gate rnd E H scope req w of
               (Inr i, w1) \<Rightarrow> [(e_time E (w_tick w1 - 1), id_key i)] | (Inl e, w1) \<Rightarrow> [])
       else [], bucket_of scope (snd (serve rnd E H req w))) \<and>
    length cs \<le> 1 \<and> (\<forall>c \<in> set cs. call_ok scope E (w_tick w) (w_tick (snd (serve rnd E H req w))) c) \<and>
    w_tick w \<le> w_tick (snd (serve rnd E H req w))"
proof (cases "route_scope (ar_route req)")
  case None
  then have "serve rnd E H req w = respond (dispatch E H \<lparr>id_tenant = [], id_key = [], id_scope = []\<rparr> req) w"
    by (simp add: serve_def guarded_route_def respond_def)
  with respond_reserved [OF assms(1), of E "\<lparr>id_tenant = [], id_key = [], id_scope = []\<rparr>" req w]
  have r: "both_buckets (snd (serve rnd E H req w)) = both_buckets w" "w_tick w \<le> w_tick (snd (serve rnd E H req w))"
    by simp_all
  show ?thesis using bucket_more [OF r(1)] r(2) by (intro exI [of _ "[]"]) (simp add: None)
next
  case (Some s)
  obtain x w1 where g: "gate rnd E H s req w = (x, w1)" by fastforce
  have serve: "serve rnd E H req w = (case x of Inl e \<Rightarrow> (writeError e, w1) | Inr i \<Rightarrow> respond (dispatch E H i req) w1)"
    using serve_gate [OF Some, of rnd E H w] g by simp
  have after: "both_buckets (snd (serve rnd E H req w)) = both_buckets w1 \<and> w_tick w1 \<le> w_tick (snd (serve rnd E H req w))"
    unfolding serve using respond_reserved [OF assms(1)] by (cases x) auto
  then have b: "bucket_of scope (snd (serve rnd E H req w)) = bucket_of scope w1" using bucket_more by blast
  from g show ?thesis
  proof (cases rule: gate_cases)
    case (refused e)
    from bucket_more [OF this(2)] this after b g Some show ?thesis by (intro exI [of _ "[]"]) auto
  next
    case (called i l w0)
    have b0: "bucket_of scope w0 = bucket_of scope w" using called(1) by (rule bucket_more)
    show ?thesis
    proof (cases "s = scope")
      case False
      with route_scopes [OF Some] assms(2) have "(s = ''admin'') \<noteq> (scope = ''admin'')" by auto
      from limiter_other [OF this called(3)] called(2) after b b0 False Some show ?thesis
        by (intro exI [of _ "[]"]) simp
    next
      case True
      obtain ok tb where a: "Allow rnd (e_time E (w_tick w0)) (group_key s i (ar_ip req)) (bucket_of s w0) = (ok, tb)" by fastforce
      from limiter_step [OF a] called(3) have l: "l = (if ok then Inr () else Inl (Api ErrRateLimited))"
        "bucket_of s w1 = tb" "w_tick w1 = w_tick w0 + 1" by auto
      let ?c = "((e_time E (w_tick w0), group_key s i (ar_ip req)), id_key i)"
      have "call_ok scope E (w_tick w) (w_tick (snd (serve rnd E H req w))) ?c"
        using called(2) l(3) after route_scopes [OF Some] unfolding call_ok_def
        by (intro conjI exI [of _ "w_tick w0"]) (auto simp: group_key_def adminKey_def queryKey_def True)
      moreover have "account rnd [?c] (bucket_of scope w) = (if ok then [(e_time E (w_tick w0), id_key i)] else [], tb)"
        using account_one [OF a [unfolded True b0]] by (simp add: True)
      ultimately show ?thesis
        using b l called(2,4) after g Some True by (intro exI [of _ "[?c]"]) auto
    qed
  qed
qed

lemma call_ok_later: "call_ok scope E n n' c \<Longrightarrow> m \<le> n \<Longrightarrow> n' \<le> m' \<Longrightarrow> call_ok scope E m m' c"
  unfolding call_ok_def by (meson order_trans order_less_le_trans)

lemma admissions_account:
  assumes "reserved_ports both_buckets H" "scope \<in> {''admin'', ''query''}" "mono (e_time E)"
  shows "\<exists>cs tb n. account rnd cs (bucket_of scope w) = (admissions rnd E H scope reqs w, tb) \<and>
    sorted (map fst (map fst cs)) \<and> (\<forall>c \<in> set cs. call_ok scope E (w_tick w) n c)"
proof (induction reqs arbitrary: w)
  case Nil
  show ?case by (intro exI [of _ "[]"]) simp
next
  case (Cons req reqs)
  let ?w = "snd (serve rnd E H req w)"
  obtain cs1 where c1: "account rnd cs1 (bucket_of scope w) =
      (if route_scope (ar_route req) = Some scope
       then (case gate rnd E H scope req w of
               (Inr i, w1) \<Rightarrow> [(e_time E (w_tick w1 - 1), id_key i)] | (Inl e, w1) \<Rightarrow> [])
       else [], bucket_of scope ?w)" "length cs1 \<le> 1" "\<forall>c \<in> set cs1. call_ok scope E (w_tick w) (w_tick ?w) c"
    "w_tick w \<le> w_tick ?w"
    using serve_account [OF assms(1,2), of rnd w req E] by blast
  obtain cs2 tb n where c2: "account rnd cs2 (bucket_of scope ?w) = (admissions rnd E H scope reqs ?w, tb)"
    "sorted (map fst (map fst cs2))" "\<forall>c \<in> set cs2. call_ok scope E (w_tick ?w) n c"
    using Cons.IH by blast
  have "fst (fst a) \<le> fst (fst b)" if "a \<in> set cs1" "b \<in> set cs2" for a b
  proof -
    from c1(3) c2(3) that obtain k k' where "fst (fst a) = e_time E k" "fst (fst b) = e_time E k'" "k < w_tick ?w" "w_tick ?w \<le> k'"
      unfolding call_ok_def by meson
    with assms(3) show ?thesis by (simp add: mono_def)
  qed
  moreover have "sorted (map fst (map fst cs1))" using c1(2) by (cases cs1) simp_all
  ultimately have "sorted (map fst (map fst (cs1 @ cs2)))" using c2(2) by (auto simp: sorted_append)
  moreover have "\<forall>c \<in> set (cs1 @ cs2). call_ok scope E (w_tick w) (max n (w_tick ?w)) c"
  proof
    fix c
    assume "c \<in> set (cs1 @ cs2)"
    then show "call_ok scope E (w_tick w) (max n (w_tick ?w)) c"
      using c1(3,4) c2(3) call_ok_later [of scope E _ _ c "w_tick w" "max n (w_tick ?w)"]
      by (metis Un_iff max.cobounded1 max.cobounded2 order_refl set_append)
  qed
  ultimately show ?case unfolding admissions.simps using account_append [OF c1(1) c2(1)] by blast
qed

lemma passed_count:
  "(\<And>c. c \<in> set cs \<Longrightarrow> snd c \<noteq> [] \<Longrightarrow> snd (fst c) = scope @ '':'' @ snd c) \<Longrightarrow> key \<noteq> [] \<Longrightarrow>
   length (filter (\<lambda>(t, k). k = key \<and> t0 \<le> t \<and> t \<le> t1) (passed cs vs)) \<le>
   length (filter (\<lambda>((t, b), v). v \<and> b = scope @ '':'' @ key \<and> t0 \<le> t \<and> t \<le> t1) (zip (map fst cs) vs))"
proof (induction cs vs rule: list_induct2')
  case (4 c cs v vs)
  have "snd c \<noteq> [] \<Longrightarrow> snd (fst c) = scope @ '':'' @ snd c" using 4(2) by simp
  moreover have "length (filter (\<lambda>(t, k). k = key \<and> t0 \<le> t \<and> t \<le> t1) (passed cs vs)) \<le>
     length (filter (\<lambda>((t, b), v). v \<and> b = scope @ '':'' @ key \<and> t0 \<le> t \<and> t \<le> t1) (zip (map fst cs) vs))"
    by (rule 4(1) [OF 4(2,3)]) simp_all
  ultimately show ?case using 4(3) by (cases c) (auto simp: passed_def)
qed (simp_all add: passed_def)

text \<open>
  Of the requests with one API key, those that reach a handler of the group within an interval are
  at most the quota of the group plus its share for the length of the interval.
\<close>

lemma gate_rate:
  assumes "reserved_ports both_buckets H" "mono (e_time E)" "scope \<in> {''admin'', ''query''}" "key \<noteq> []" "t0 \<le> t1"
    "bucket_of scope w = NewTokenBucket (group_quota scope) (group_quota scope / 60)"
  shows "real (length (filter (\<lambda>(t, k). k = key \<and> t0 \<le> t \<and> t \<le> t1) (admissions exact E H scope reqs w))) \<le>
    group_quota scope + group_quota scope / 60 * of_int (t1 - t0) / 1000000000"
proof -
  let ?q = "group_quota scope"
  have q: "0 \<le> ?q" "0 \<le> ?q / 60" by (simp_all add: group_quota_def adminQuotaPerMinute_def queryQuotaPerMinute_def)
  obtain cs tb n where c: "account exact cs (bucket_of scope w) = (admissions exact E H scope reqs w, tb)"
    "sorted (map fst (map fst cs))" "\<forall>c \<in> set cs. call_ok scope E (w_tick w) n c"
    using admissions_account [OF assms(1,3,2)] by blast
  then have "admissions exact E H scope reqs w = passed cs (fst (allow_all exact (map fst cs) (NewTokenBucket ?q (?q / 60))))"
    by (simp add: account_def assms(6))
  moreover have "snd (fst x) = scope @ '':'' @ snd x" if "x \<in> set cs" "snd x \<noteq> []" for x
    using c(3) that by (simp add: call_ok_def)
  ultimately have "real (length (filter (\<lambda>(t, k). k = key \<and> t0 \<le> t \<and> t \<le> t1) (admissions exact E H scope reqs w))) \<le>
      real (length (filter (\<lambda>((t, b), v). v \<and> b = scope @ '':'' @ key \<and> t0 \<le> t \<and> t \<le> t1)
        (zip (map fst cs) (fst (allow_all exact (map fst cs) (NewTokenBucket ?q (?q / 60)))))))"
    using passed_count [OF _ assms(4)] by simp
  also have "\<dots> \<le> ?q + ?q / 60 * of_int (t1 - t0) / 1000000000"
    by (rule rate_between [OF q c(2) assms(5)])
  finally show ?thesis .
qed

end
