(* ===== verification/Config.thy ===== *)
theory Config
  imports Prelude
begin

text \<open>
  \<open>internal/config/config.go\<close> and the interval of \<open>internal/worker/retention.go\<close>: reading the
  environment. \<open>env\<close> is \<open>os.Getenv\<close>, empty for a variable that is not set; a call of
  \<open>log.Fatalf\<close> ends the program and is the left value of the result. Proved: the values that
  \<open>Load\<close> accepts, and where the multiplication that turns seconds into a duration wraps around.
\<close>

section \<open>Loading\<close>

record config =
  DatabaseURL :: string
  ServerPort :: string
  WorkerConcurrency :: int
  R2AccountID :: string
  R2AccessKeyID :: string
  R2SecretAccessKey :: string
  R2Bucket :: string
  R2PublicEndpoint :: string
  GroqAPIKey :: string
  LlamaParseAPIKey :: string
  CloudflareAccountID :: string
  CloudflareAPIToken :: string
  DeepSeekAPIKey :: string
  UploadURLTTLMinutes :: int
  MaxUploadBytes :: int
  EmbeddingBatchSize :: int
  SummaryMaxTokens :: int
  QueryResultK :: int
  CbMaxFailures :: int
  CbTimeout :: duration

datatype fatal = NotSet string | NotInteger string string | NotPositive string int

type_synonym environment = "string \<Rightarrow> string"

definition fbind :: "fatal + 'a \<Rightarrow> ('a \<Rightarrow> fatal + 'b) \<Rightarrow> fatal + 'b" where
  "fbind m f = (case m of Inl e \<Rightarrow> Inl e | Inr a \<Rightarrow> f a)"

definition required :: "environment \<Rightarrow> string \<Rightarrow> fatal + string" where
  "required env key = (if env key = [] then Inl (NotSet key) else Inr (env key))"

definition getenv :: "environment \<Rightarrow> string \<Rightarrow> string \<Rightarrow> string" where
  "getenv env key def1 = (if env key \<noteq> [] then env key else def1)"

definition getenvInt :: "environment \<Rightarrow> string \<Rightarrow> int \<Rightarrow> fatal + int" where
  "getenvInt env key def1 =
     (if env key = [] then Inr def1
      else (case atoi (env key) of None \<Rightarrow> Inl (NotInteger key (env key)) | Some n \<Rightarrow> Inr n))"

definition getenvInt64 :: "environment \<Rightarrow> string \<Rightarrow> int \<Rightarrow> fatal + int" where
  "getenvInt64 env key def1 =
     (if env key = [] then Inr def1
      else (case atoi (env key) of None \<Rightarrow> Inl (NotInteger key (env key)) | Some n \<Rightarrow> Inr n))"

definition getenvDuration :: "environment \<Rightarrow> string \<Rightarrow> duration \<Rightarrow> fatal + duration" where
  "getenvDuration env key def1 =
     (if env key = [] then Inr def1
      else (case atoi (env key) of None \<Rightarrow> Inl (NotInteger key (env key))
            | Some n \<Rightarrow> Inr (wrap64 (n * second))))"

definition validate_config :: "config \<Rightarrow> fatal + config" where
  "validate_config c =
     (if WorkerConcurrency c \<le> 0 then Inl (NotPositive ''WORKER_CONCURRENCY'' (WorkerConcurrency c))
      else if EmbeddingBatchSize c \<le> 0 then Inl (NotPositive ''EMBEDDING_BATCH_SIZE'' (EmbeddingBatchSize c))
      else if UploadURLTTLMinutes c \<le> 0 then Inl (NotPositive ''UPLOAD_URL_TTL_MINUTES'' (UploadURLTTLMinutes c))
      else if MaxUploadBytes c \<le> 0 then Inl (NotPositive ''MAX_UPLOAD_BYTES'' (MaxUploadBytes c))
      else if CbMaxFailures c \<le> 0 then Inl (NotPositive ''CB_MAX_FAILURES'' (CbMaxFailures c))
      else if CbTimeout c \<le> 0 then Inl (NotPositive ''CB_TIMEOUT'' (CbTimeout c))
      else Inr c)"

definition Load :: "environment \<Rightarrow> fatal + config" where
  "Load env =
     fbind (required env ''DATABASE_URL'') (\<lambda>url.
     fbind (getenvInt env ''WORKER_CONCURRENCY'' 3) (\<lambda>conc.
     fbind (getenvInt env ''UPLOAD_URL_TTL_MINUTES'' 10) (\<lambda>ttl.
     fbind (getenvInt64 env ''MAX_UPLOAD_BYTES'' 2147483648) (\<lambda>bytes.
     fbind (getenvInt env ''EMBEDDING_BATCH_SIZE'' 16) (\<lambda>batch.
     fbind (getenvInt env ''SUMMARY_MAX_TOKENS'' 12000) (\<lambda>tokens.
     fbind (getenvInt env ''QUERY_RESULT_K'' 5) (\<lambda>k.
     fbind (getenvInt env ''CB_MAX_FAILURES'' 3) (\<lambda>cbf.
     fbind (getenvDuration env ''CB_TIMEOUT'' (30 * second)) (\<lambda>cbt.
     validate_config
       \<lparr>DatabaseURL = url, ServerPort = getenv env ''SERVER_PORT'' ''8080'', WorkerConcurrency = conc,
        R2AccountID = env ''R2_ACCOUNT_ID'', R2AccessKeyID = env ''R2_ACCESS_KEY_ID'',
        R2SecretAccessKey = env ''R2_SECRET_ACCESS_KEY'', R2Bucket = env ''R2_BUCKET'',
        R2PublicEndpoint = env ''R2_PUBLIC_ENDPOINT'', GroqAPIKey = env ''GROQ_API_KEY'',
        LlamaParseAPIKey = env ''LLAMAPARSE_API_KEY'',
        CloudflareAccountID = env ''CLOUDFLARE_ACCOUNT_ID'',
        CloudflareAPIToken = env ''CLOUDFLARE_API_TOKEN'', DeepSeekAPIKey = env ''DEEPSEEK_API_KEY'',
        UploadURLTTLMinutes = ttl, MaxUploadBytes = bytes, EmbeddingBatchSize = batch,
        SummaryMaxTokens = tokens, QueryResultK = k, CbMaxFailures = cbf, CbTimeout = cbt\<rparr>)))))))))"

definition defaultRetentionInterval :: duration where
  "defaultRetentionInterval = 6 * hour"

definition retentionInterval :: "environment \<Rightarrow> duration" where
  "retentionInterval env =
     (let raw = env ''RETENTION_INTERVAL''
      in if raw = [] then defaultRetentionInterval
         else (case atoi raw of
                 None \<Rightarrow> defaultRetentionInterval
               | Some secs \<Rightarrow> if secs \<le> 0 then defaultRetentionInterval else wrap64 (secs * second)))"

section \<open>Values\<close>

lemma fbind_Inr: "fbind m f = Inr b \<longleftrightarrow> (\<exists>a. m = Inr a \<and> f a = Inr b)"
  by (cases m) (simp_all add: fbind_def)

lemma getenvInt_int64:
  "getenvInt env key d = Inr n \<Longrightarrow> is_int64 d \<Longrightarrow> is_int64 n"
  "getenvInt64 env key d = Inr n \<Longrightarrow> is_int64 d \<Longrightarrow> is_int64 n"
  by (auto simp: getenvInt_def getenvInt64_def dest: atoi_is_int64 split: if_splits option.splits)

lemma getenvDuration_int64: "getenvDuration env key d = Inr n \<Longrightarrow> is_int64 d \<Longrightarrow> is_int64 n"
  by (auto simp: getenvDuration_def split: if_splits option.splits)

lemma validate_config_ok:
  "validate_config c = Inr c' \<longleftrightarrow> c' = c \<and> 0 < WorkerConcurrency c \<and> 0 < EmbeddingBatchSize c \<and>
     0 < UploadURLTTLMinutes c \<and> 0 < MaxUploadBytes c \<and> 0 < CbMaxFailures c \<and> 0 < CbTimeout c"
  by (auto simp: validate_config_def)

section \<open>Properties\<close>

text \<open>
  A configuration that \<open>Load\<close> returns has a database URL, positive values where the program
  divides work or time by them, and 64-bit values everywhere; and the breaker timeout is the
  configured number of seconds whenever that number is at most 9223372036 in absolute value.
\<close>

theorem load_valid:
  assumes "Load env = Inr c"
  shows "DatabaseURL c = env ''DATABASE_URL'' \<and> DatabaseURL c \<noteq> [] \<and>
    0 < WorkerConcurrency c \<and> 0 < EmbeddingBatchSize c \<and> 0 < UploadURLTTLMinutes c \<and>
    0 < MaxUploadBytes c \<and> 0 < CbMaxFailures c \<and> 0 < CbTimeout c \<and> is_int64 (CbTimeout c) \<and>
    is_int64 (QueryResultK c) \<and> is_int64 (SummaryMaxTokens c) \<and>
    (\<forall>n. atoi (env ''CB_TIMEOUT'') = Some n \<and> \<bar>n\<bar> \<le> 9223372036 \<longrightarrow> CbTimeout c = n * second)"
proof -
  have d: "is_int64 12000" "is_int64 5" "is_int64 (30 * second)"
    by (simp_all add: is_int64_def min_int64_def max_int64_def second_def)
  obtain tokens k cbt where
    v: "getenvInt env ''SUMMARY_MAX_TOKENS'' 12000 = Inr tokens" "getenvInt env ''QUERY_RESULT_K'' 5 = Inr k"
    "getenvDuration env ''CB_TIMEOUT'' (30 * second) = Inr cbt"
    "DatabaseURL c = env ''DATABASE_URL''" "DatabaseURL c \<noteq> []"
    "SummaryMaxTokens c = tokens" "QueryResultK c = k" "CbTimeout c = cbt"
    "0 < WorkerConcurrency c" "0 < EmbeddingBatchSize c" "0 < UploadURLTTLMinutes c"
    "0 < MaxUploadBytes c" "0 < CbMaxFailures c" "0 < CbTimeout c"
    using assms by (auto simp: Load_def fbind_Inr validate_config_ok required_def split: if_splits)
  have "cbt = n * second" if n: "atoi (env ''CB_TIMEOUT'') = Some n" "\<bar>n\<bar> \<le> 9223372036" for n
  proof -
    have "env ''CB_TIMEOUT'' \<noteq> []" using n(1) by (auto simp: atoi_def)
    then have w: "cbt = wrap64 (n * second)" using v(3) n(1) by (simp add: getenvDuration_def)
    with n(2) show ?thesis by (simp add: wrap64_small second_def)
  qed
  with v getenvInt_int64(1) [OF v(1) d(1)] getenvInt_int64(1) [OF v(2) d(2)]
    getenvDuration_int64 [OF v(3) d(3)]
  show ?thesis by auto
qed

lemma load_valid_witness:
  "\<exists>c. Load (\<lambda>k. if k = ''DATABASE_URL'' then ''db'' else if k = ''CB_TIMEOUT'' then ''7'' else []) = Inr c \<and>
     CbTimeout c = 7 * second"
proof -
  let ?env = "\<lambda>k. if k = ''DATABASE_URL'' then ''db'' else if k = ''CB_TIMEOUT'' then ''7'' else []"
  have a: "atoi ''7'' = Some 7"
    by (simp add: atoi_def is_int64_def min_int64_def max_int64_def)
  obtain c where c: "Load ?env = Inr c"
    by (simp add: Load_def fbind_def required_def getenvInt_def getenvInt64_def getenvDuration_def a
        validate_config_def wrap64_def second_def)
  from load_valid [OF c] a have "CbTimeout c = 7 * second" by simp
  with c show ?thesis by blast
qed

text \<open>
  Turning seconds into a duration wraps around: a \<open>RETENTION_INTERVAL\<close> between 1 and
  9223372036 is honoured, but 9223372037 yields a negative interval (\<open>time.NewTicker\<close> panics on
  it), and \<open>CB_TIMEOUT=36893488148\<close> passes \<open>Load\<close> as a timeout of 0.58 seconds.
\<close>

theorem seconds_wrap:
  "(\<forall>env n. atoi (env ''RETENTION_INTERVAL'') = Some n \<and> 0 < n \<and> n \<le> 9223372036 \<longrightarrow>
      retentionInterval env = n * second \<and> 0 < retentionInterval env) \<and>
   retentionInterval (\<lambda>k. ''9223372037'') < 0 \<and>
   getenvDuration (\<lambda>k. ''36893488148'') ''CB_TIMEOUT'' (30 * second) = Inr 580896768"
proof (intro conjI allI impI)
  fix env n
  assume n: "atoi (env ''RETENTION_INTERVAL'') = Some n \<and> 0 < n \<and> n \<le> 9223372036"
  then have "env ''RETENTION_INTERVAL'' \<noteq> []" by (auto simp: atoi_def)
  with n show r: "retentionInterval env = n * second"
    by (simp add: retentionInterval_def Let_def wrap64_small second_def)
  with n show "0 < retentionInterval env" by (simp add: second_def)
next
  show "retentionInterval (\<lambda>k. ''9223372037'') < 0"
    by (simp add: retentionInterval_def atoi_def is_int64_def min_int64_def max_int64_def Let_def
        wrap64_def second_def)
  show "getenvDuration (\<lambda>k. ''36893488148'') ''CB_TIMEOUT'' (30 * second) = Inr 580896768"
    by (simp add: getenvDuration_def atoi_def is_int64_def min_int64_def max_int64_def Let_def
        wrap64_def second_def)
qed

lemma seconds_wrap_witness:
  "retentionInterval (\<lambda>k. ''3600'') = 3600 * second"
proof -
  have "atoi ''3600'' = Some 3600" by (simp add: atoi_def is_int64_def min_int64_def max_int64_def)
  with seconds_wrap show ?thesis by auto
qed

end
