(* ===== verification/Wiring.thy ===== *)
theory Wiring
  imports WorkerData ApiFrame Config
begin

text \<open>
  \<open>cmd/worker/main.go\<close> and \<open>cmd/server/main.go\<close>: the providers built from a configuration, each with
  a breaker of its own, and put behind the ports of the worker and of the handlers. Every failed
  constructor ends the program, the left value. What is outside the repository (the network, the
  AWS SDK, codecs, the file system) is the parameter \<open>services\<close>, over a world \<open>'n\<close> of its own.
\<close>

section \<open>Services and providers\<close>

record 'n services =
  sv_runtime :: "'n runtime"
  sv_media :: "'n media_io"
  sv_parse :: "'n parse_io"
  sv_embed :: embed_codec
  sv_chat :: chat_codec
  sv_aws :: "string \<Rightarrow> string \<Rightarrow> string \<Rightarrow> go_error + 'n object_store"
  sv_mkdir :: "(go_error, 'n, string) io"
  sv_rmdir :: "string \<Rightarrow> 'n \<Rightarrow> 'n"
  sv_stat :: "string \<Rightarrow> (go_error, 'n, int) io"
  sv_detect :: "string \<Rightarrow> (go_error, 'n, string) io"
  sv_ping :: "(go_error, 'n, unit) io"
  sv_rfc3339 :: "time \<Rightarrow> string"
  sv_json :: "(string \<times> string option) list option \<Rightarrow> go_error + string"
  sv_sha256_hex :: "string \<Rightarrow> string"

text \<open>\<open>r2.New\<close>; it does not read \<open>PublicEndpoint\<close>.\<close>

definition newStorage :: "'n services \<Rightarrow> config \<Rightarrow> go_error + 'n object_store \<times> string" where
  "newStorage S cfg =
     (case sv_aws S (R2AccessKeyID cfg) (R2SecretAccessKey cfg)
         (''https://'' @ R2AccountID cfg @ ''.r2.cloudflarestorage.com'') of
        Inl e \<Rightarrow> Inl (wrapf ''r2: configure aws sdk'' e)
      | Inr s \<Rightarrow> Inr (s, R2Bucket cfg))"

definition breaker_config :: "config \<Rightarrow> bconfig" where
  "breaker_config cfg = \<lparr>MaxFailures = CbMaxFailures cfg, Timeout = CbTimeout cfg, HalfOpenMaxCalls = 0\<rparr>"

definition init :: "string \<Rightarrow> go_error + 'a \<Rightarrow> ('a \<Rightarrow> go_error + 'b) \<Rightarrow> go_error + 'b" where
  "init what m f = (case m of Inl e \<Rightarrow> Inl (wrapf what e) | Inr a \<Rightarrow> f a)"

lemma init_ok: "init what m f = Inr b \<longleftrightarrow> (\<exists>a. m = Inr a \<and> f a = Inr b)"
  by (cases m) (simp_all add: init_def)

text \<open>A computation on a part of the world.\<close>

definition on_part :: "('w \<Rightarrow> 's) \<Rightarrow> ('s \<Rightarrow> 'w \<Rightarrow> 'w) \<Rightarrow> ('e, 's, 'a) io \<Rightarrow> ('e, 'w, 'a) io" where
  "on_part sel upd m w = (case m (sel w) of (r, s) \<Rightarrow> (r, upd s w))"

lemma on_part_ok: "on_part sel upd m w = (Inr a, w') \<Longrightarrow> \<exists>s. m (sel w) = (Inr a, s)"
  by (auto simp: on_part_def split: prod.splits)

section \<open>The worker\<close>

record 'n worker_world = job_world +
  ww_net :: 'n
  ww_groq :: breaker
  ww_llama :: breaker
  ww_cf :: breaker
  ww_ds :: breaker

definition on_net :: "(go_error, 'n, 'a) io \<Rightarrow> (go_error, ('n, 'y) worker_world_scheme, 'a) io" where
  "on_net = on_part ww_net (\<lambda>n w. w\<lparr>ww_net := n\<rparr>)"
definition on_groq :: "(go_error, breaker \<times> 'n, 'a) io \<Rightarrow> (go_error, ('n, 'y) worker_world_scheme, 'a) io" where
  "on_groq = on_part (\<lambda>w. (ww_groq w, ww_net w)) (\<lambda>(b, n) w. w\<lparr>ww_groq := b, ww_net := n\<rparr>)"
definition on_llama :: "(go_error, breaker \<times> 'n, 'a) io \<Rightarrow> (go_error, ('n, 'y) worker_world_scheme, 'a) io" where
  "on_llama = on_part (\<lambda>w. (ww_llama w, ww_net w)) (\<lambda>(b, n) w. w\<lparr>ww_llama := b, ww_net := n\<rparr>)"
definition on_cf :: "(go_error, breaker \<times> 'n, 'a) io \<Rightarrow> (go_error, ('n, 'y) worker_world_scheme, 'a) io" where
  "on_cf = on_part (\<lambda>w. (ww_cf w, ww_net w)) (\<lambda>(b, n) w. w\<lparr>ww_cf := b, ww_net := n\<rparr>)"
definition on_ds :: "(go_error, breaker \<times> 'n, 'a) io \<Rightarrow> (go_error, ('n, 'y) worker_world_scheme, 'a) io" where
  "on_ds = on_part (\<lambda>w. (ww_ds w, ww_net w)) (\<lambda>(b, n) w. w\<lparr>ww_ds := b, ww_net := n\<rparr>)"

lemmas on_defs = on_net_def on_groq_def on_llama_def on_cf_def on_ds_def on_part_def

text \<open>\<open>worker.New\<close>: the dependencies of the pipeline.\<close>

definition newPipeline :: "'n services \<Rightarrow> config \<Rightarrow> 'n object_store \<times> string \<Rightarrow> transcriber \<Rightarrow> parser \<Rightarrow> embedder
    \<Rightarrow> chat_llm \<Rightarrow> ('n, 'y) worker_world_ext pipeline" where
  "newPipeline S cfg st tc ps em ll = \<lparr>
     p_download = (\<lambda>key dest. on_net (Download (fst st) (snd st) key dest)),
     p_delete = (\<lambda>key. on_net (Delete (fst st) (snd st) key)),
     p_mkdir = on_net (sv_mkdir S),
     p_rmdir = (\<lambda>dir w. w\<lparr>ww_net := sv_rmdir S dir (ww_net w)\<rparr>),
     p_stat = (\<lambda>p. on_net (sv_stat S p)),
     p_detect = (\<lambda>p. on_net (sv_detect S p)),
     p_transcribe = (\<lambda>p. on_groq (Transcribe tc (sv_media S) (sv_runtime S)
        \<lparr>ti_path = p, ti_language = [], ti_model = []\<rparr>)),
     p_parse = (\<lambda>p ct. on_llama (Parse ps (sv_parse S) (sv_runtime S) p ct)),
     p_embed = (\<lambda>ts. on_cf (EmbedBatch em (sv_embed S) (sv_runtime S) ts)),
     p_llm = (\<lambda>prompt t. on_ds (SummarizeText ll (sv_chat S) (sv_runtime S) prompt t)),
     p_summarizer = newSummarizer (SummaryMaxTokens cfg),
     p_max_bytes = MaxUploadBytes cfg,
     p_batch = EmbeddingBatchSize cfg\<rparr>"

text \<open>\<open>main\<close> of the worker, up to \<open>wk.Run\<close>: the pipeline and the first world over a database.\<close>

definition worker_main :: "'n services \<Rightarrow> config
    \<Rightarrow> go_error + ('n, 'y) worker_world_ext pipeline \<times> (db \<Rightarrow> 'n \<Rightarrow> 'n worker_world)" where
  "worker_main S cfg =
     (let cb = breaker_config cfg in
      init ''worker: init r2 storage'' (newStorage S cfg) (\<lambda>st.
      init ''worker: init transcriber'' (newTranscriber (GroqAPIKey cfg) [] cb) (\<lambda>(tc, b1).
      init ''worker: init parser'' (newParser (LlamaParseAPIKey cfg) 0 0 cb) (\<lambda>(ps, b2).
      init ''worker: init embedder'' (newEmbedder (CloudflareAccountID cfg) (CloudflareAPIToken cfg)
          (EmbeddingBatchSize cfg) [] cb) (\<lambda>(em, b3).
      init ''worker: init llm'' (newLLM (DeepSeekAPIKey cfg) [] cb) (\<lambda>(ll, b4).
        Inr (newPipeline S cfg st tc ps em ll,
          \<lambda>d n. \<lparr>w_db = d, w_tick = 0, jw_stage = [], ww_net = n, ww_groq = b1, ww_llama = b2,
            ww_cf = b3, ww_ds = b4\<rparr>)))))))"

lemma worker_main_ok:
  assumes "worker_main S cfg = Inr (D, w0)"
  obtains st tc ps em ll b where "D = newPipeline S cfg st tc ps em ll"
    "newEmbedder (CloudflareAccountID cfg) (CloudflareAPIToken cfg) (EmbeddingBatchSize cfg) [] (breaker_config cfg) = Inr (em, b)"
  using assms by (auto simp: worker_main_def Let_def init_ok)

lemma wired_inert: "inert_ports (newPipeline S cfg st tc ps em ll)"
  by (auto simp: inert_ports_def inert_def newPipeline_def on_defs split: prod.split)

lemma Transcribe_unnamed: "Transcribe t m rt inp bw = (Inr tr, bw') \<Longrightarrow> t_id tr = []"
  unfolding Transcribe_def Let_def
  by (drule through_ok, elim andthen_InrE)
    (clarsimp simp: fail_ok ret_ok transcript_of_def split: if_split_asm sum.split_asm prod.split_asm)

lemma wired_unnamed: "unnamed_transcripts (newPipeline S cfg st tc ps em ll)"
  by (auto simp: unnamed_transcripts_def newPipeline_def on_groq_def dest!: on_part_ok Transcribe_unnamed)


text \<open>
  \<open>retentionLoop\<close>: a pass at the start and one per tick until shutdown, after \<open>ticks\<close> ticks.
  \<open>time.NewTicker\<close> panics on an interval that is not positive, which ends the process: \<open>None\<close>.
\<close>

definition retentionLoop :: "environment \<Rightarrow> environ \<Rightarrow> 'y pipeline \<Rightarrow> nat \<Rightarrow> 'y job_world_scheme
    \<Rightarrow> 'y job_world_scheme option" where
  "retentionLoop env E D ticks w =
     (if retentionInterval env \<le> 0 then None else Some (((\<lambda>v. snd (runRetention E D v)) ^^ Suc ticks) w))"

section \<open>The server\<close>

record 'n server_world = api_world +
  sw_net :: 'n
  sw_cf :: breaker
  sw_ds :: breaker

definition at_net :: "(go_error, 'n, 'a) io \<Rightarrow> (go_error, ('n, 'y) server_world_scheme, 'a) io" where
  "at_net = on_part sw_net (\<lambda>n w. w\<lparr>sw_net := n\<rparr>)"
definition at_cf :: "(go_error, breaker \<times> 'n, 'a) io \<Rightarrow> (go_error, ('n, 'y) server_world_scheme, 'a) io" where
  "at_cf = on_part (\<lambda>w. (sw_cf w, sw_net w)) (\<lambda>(b, n) w. w\<lparr>sw_cf := b, sw_net := n\<rparr>)"
definition at_ds :: "(go_error, breaker \<times> 'n, 'a) io \<Rightarrow> (go_error, ('n, 'y) server_world_scheme, 'a) io" where
  "at_ds = on_part (\<lambda>w. (sw_ds w, sw_net w)) (\<lambda>(b, n) w. w\<lparr>sw_ds := b, sw_net := n\<rparr>)"

lemmas at_defs = at_net_def at_cf_def at_ds_def on_part_def

text \<open>\<open>NewHandler\<close> and \<open>NewRAGService\<close>: the ports of the handlers.\<close>

definition newHandler :: "'n services \<Rightarrow> config \<Rightarrow> 'n object_store \<times> string \<Rightarrow> embedder \<Rightarrow> chat_llm
    \<Rightarrow> ('n, 'y) server_world_ext api_world_ext handler" where
  "newHandler S cfg st em ll = \<lparr>
     h_ttl_minutes = UploadURLTTLMinutes cfg,
     h_result_k = QueryResultK cfg,
     h_presign = (\<lambda>key ct expires. at_net (GenerateUploadURL (fst st) (snd st) key ct expires)),
     h_embed = (\<lambda>ts. at_cf (EmbedBatch em (sv_embed S) (sv_runtime S) ts)),
     h_llm = (\<lambda>prompt u. at_ds (AnswerQuery ll (sv_chat S) (sv_runtime S) prompt u)),
     h_ping = at_net (sv_ping S),
     h_rfc3339 = sv_rfc3339 S,
     h_json = sv_json S,
     h_sha256_hex = sv_sha256_hex S\<rparr>"

text \<open>\<open>main\<close> of the server, up to \<open>router.Run\<close>: the handler and the first world over a database.\<close>

definition server_main :: "rounding \<Rightarrow> 'n services \<Rightarrow> config
    \<Rightarrow> go_error + ('n, 'y) server_world_ext api_world_ext handler \<times> (db \<Rightarrow> 'n \<Rightarrow> 'n server_world)" where
  "server_main rnd S cfg =
     init ''server: init r2 storage'' (newStorage S cfg) (\<lambda>st.
     init ''server: init embedder'' (newEmbedder (CloudflareAccountID cfg) (CloudflareAPIToken cfg)
         (EmbeddingBatchSize cfg) [] (breaker_config cfg)) (\<lambda>(em, b1).
     init ''server: init llm'' (newLLM (DeepSeekAPIKey cfg) [] (breaker_config cfg)) (\<lambda>(ll, b2).
       Inr (newHandler S cfg st em ll,
         \<lambda>d n. api_world.extend (new_api_world rnd d) \<lparr>sw_net = n, sw_cf = b1, sw_ds = b2\<rparr>))))"

lemma handler_inert: "ports_inert (newHandler S cfg st em ll)"
  by (auto simp: ports_inert_def newHandler_def at_defs split: prod.split)

lemma server_main_ok:
  assumes "server_main rnd S cfg = Inr (H, w0)"
  obtains st em ll where "H = newHandler S cfg st em ll"
  using assms by (auto simp: server_main_def init_ok)

lemma acts_snd: "acts_for t m \<Longrightarrow> outside t (w_db (snd (m w))) = outside t (w_db w)"
  by (simp add: acts_for_iff)

lemma respond_db: "w_db (snd (respond m w)) = w_db (snd (m w))"
  by (simp add: respond_def split: prod.split sum.split)

lemma acts_limits: "acts_for t (limit_admin rnd E i ip)" "acts_for t (limit_query rnd E i ip)"
  by (auto simp: acts_for_iff limit_admin_def limit_query_def split: prod.split)

lemma acts_scope: "acts_for t (RequireScope scope i)"
  by (simp add: RequireScope_def acts_intros)

text \<open>The keys of a database by which a presented key is looked up.\<close>

definition key_of :: "environ \<Rightarrow> db \<Rightarrow> string \<Rightarrow> api_key \<Rightarrow> bool" where
  "key_of E d hash k \<longleftrightarrow> k \<in> set (d_keys d) \<and> k_hash k = hash \<and>
     (\<forall>k' \<in> set (d_keys d). k_hash k' = hash \<or> k_id k' = k_id k \<longrightarrow> k' = k) \<and>
     pg_uuid (e_pg E) (k_id k) = Some (k_id k) \<and> pg_uuid (e_pg E) (k_tenant k) = Some (k_tenant k)"

lemma touch_outside:
  fixes w :: "'z world_scheme"
  assumes "quiet E" "key_of E (w_db w) hash k"
  shows "outside (k_tenant k) (w_db (snd (TouchLastUsed E (k_id k) w))) = outside (k_tenant k) (w_db w)"
proof -
  let ?f = "\<lambda>now r. if k_id r = k_id k then r\<lparr>k_last_used := Some now, k_updated := now\<rparr> else r"
  have "filter (\<lambda>r. k_tenant r \<noteq> k_tenant k) (map (?f now) ks) = filter (\<lambda>r. k_tenant r \<noteq> k_tenant k) ks"
    if "\<forall>k' \<in> set ks. k_id k' = k_id k \<longrightarrow> k' = k" for now ks
    using that by (induction ks) auto
  then show ?thesis using assms
    by (simp add: TouchLastUsed_def pool_stmt_def stmt_def quiet_def TouchAPIKeyLastUsed_def uuid_arg_def
        key_of_def outside_def update_rows_def split: option.split)
qed

lemma authenticate_outside:
  fixes w :: "'z world_scheme"
  assumes "quiet E" "key_of E (w_db w) (h_sha256_hex H plain) k" "authenticate E H plain w = (r, w1)"
  shows "outside (k_tenant k) (w_db w1) = outside (k_tenant k) (w_db w)" "r = Inr i \<Longrightarrow> id_tenant i = k_tenant k"
proof -
  let ?t = "k_tenant k" and ?g = "map_err (\<lambda>_. Api ErrUnauthorized) (GetByHash E (h_sha256_hex H plain))"
  obtain x w2 where g: "?g w = (x, w2)" by fastforce
  have "preserves (\<lambda>d. d) (map_err (\<lambda>_. Api ErrUnauthorized) (GetByHash E (h_sha256_hex H plain)) :: ('z, api_key) act)"
    unfolding GetByHash_def by (intro preserving pool_stmt_read reading assms(1))
  from preservesD [OF this g] have d: "w_db w2 = w_db w" .
  have x: "k1 = k" if "x = Inr k1" for k1
    using g assms(1,2) that by (auto simp: map_err_ok GetByHash_def pool_stmt_def stmt_ok quiet_def GetAPIKeyByHash_def
        one_row_ok key_of_def dest!: filter_Cons_prop)
  have "outside ?t (w_db w1) = outside ?t (w_db w) \<and> (r = Inr i \<longrightarrow> id_tenant i = ?t)"
  proof (cases "plain = []")
    case True
    with assms(3) show ?thesis by (auto simp: authenticate_def fail_def)
  next
    case False
    show ?thesis
    proof (cases x)
      case (Inl e)
      with g assms(3) d False show ?thesis by (auto simp: authenticate_def andthen_Inl)
    next
      case (Inr k1)
      then have "x = Inr k" using x by simp
      with g have "?g w = (Inr k, w2)" by simp
      with assms(3) False have "(if k_revoked k \<noteq> None then fail (Api ErrUnauthorized)
        else andthen (best_effort (TouchLastUsed E (k_id k)))
          (\<lambda>_. ret \<lparr>id_tenant = k_tenant k, id_key = k_id k, id_scope = k_scope k\<rparr>)) w2 = (r, w1)"
        by (simp add: authenticate_def andthen_Inr)
      then show ?thesis using d touch_outside [OF assms(1), of w2] assms(2)
        by (auto simp: fail_def andthen_def best_effort_def ret_def split: if_splits)
    qed
  qed
  then show "outside ?t (w_db w1) = outside ?t (w_db w)" "r = Inr i \<Longrightarrow> id_tenant i = ?t" by simp_all
qed

lemma serve_outside:
  assumes "quiet E" and inert: "ports_inert H" and key: "key_of E (w_db w) (h_sha256_hex H (ar_key req)) k"
  shows "outside (k_tenant k) (w_db (snd (serve rnd E H req w))) = outside (k_tenant k) (w_db w)"
proof -
  let ?t = "k_tenant k"
  have calm: "calm E ?t" using assms(1) by (simp add: calm_def quiet_def)
  have canon: "canon (e_pg E) ?t = ?t" using key by (simp add: key_of_def canon_def)
  have "outside ?t (w_db (snd (guarded_route rnd E H req w))) = outside ?t (w_db w)"
  proof (cases "route_scope (ar_route req)")
    case None
    then have "ar_route req = RHealth" by (cases "ar_route req") auto
    then have "guarded_route rnd E H req = Health E H" by (simp add: guarded_route_def dispatch_def)
    moreover have "acts_for ?t (Health E H)" unfolding Health_def by (intro acting inert)
    ultimately show ?thesis by (simp add: acts_snd)
  next
    case (Some scope)
    obtain r w1 where a: "authenticate E H (ar_key req) w = (r, w1)" by fastforce
    note f = authenticate_outside [OF assms(1) key a]
    show ?thesis
    proof (cases r)
      case (Inl e)
      with a f(1) Some show ?thesis by (simp add: guarded_route_def andthen_Inl)
    next
      case (Inr i)
      let ?rest = "andthen (RequireScope scope i) (\<lambda>_. andthen (if scope = ''admin''
        then limit_admin rnd E i (ar_ip req) else limit_query rnd E i (ar_ip req)) (\<lambda>_. dispatch E H i req))"
      have "acts_for ?t ?rest"
        by (intro acting acts_scope acts_limits acts_dispatch calm inert) (simp add: f(2) [OF Inr] canon)
      moreover have "guarded_route rnd E H req w = ?rest w1"
        using a Some Inr by (simp add: guarded_route_def andthen_Inr)
      ultimately show ?thesis using f(1) by (simp add: acts_snd)
    qed
  qed
  then show ?thesis by (simp add: serve_def respond_db)
qed

text \<open>
  The shipped server keeps tenants apart, from the request to the reply: whatever request is
  presented with the key \<open>k\<close> (hashes and ids of keys being unique), at whatever route and however
  it ends, authentication, limits, handler, providers and audit included, no row of another
  tenant than that of \<open>k\<close> changes.
\<close>

theorem shipped_server_isolates:
  assumes "server_main rnd S cfg = Inr (H, w0)" "quiet E" "k \<in> set (d_keys (w_db w))"
    "k_hash k = sv_sha256_hex S (ar_key req)"
    "\<forall>k' \<in> set (d_keys (w_db w)). k_hash k' = k_hash k \<or> k_id k' = k_id k \<longrightarrow> k' = k"
    "pg_uuid (e_pg E) (k_id k) = Some (k_id k)" "pg_uuid (e_pg E) (k_tenant k) = Some (k_tenant k)"
  shows "outside (k_tenant k) (w_db (snd (serve rnd E H req w))) = outside (k_tenant k) (w_db w)"
proof (rule serve_outside [OF assms(2)])
  obtain st em ll where H: "H = newHandler S cfg st em ll" by (rule server_main_ok [OF assms(1)])
  then show "ports_inert H" by (simp add: handler_inert)
  have h: "h_sha256_hex H (ar_key req) = k_hash k" using assms(4) by (simp add: H newHandler_def)
  show "key_of E (w_db w) (h_sha256_hex H (ar_key req)) k"
    unfolding key_of_def h using assms(3,5,6,7) by blast
qed

lemma handler_reserved: "reserved_ports both_buckets (newHandler S cfg st em ll)"
  by (auto simp: reserved_ports_def reserved_def newHandler_def at_defs both_buckets_def split: prod.split)


section \<open>A configuration\<close>

definition demo_services :: "script_world services" where
  "demo_services = \<lparr>sv_runtime = demo_runtime,
     sv_media = \<lparr>os_open = (\<lambda>p. ret ''data''), os_close = (\<lambda>w. w), os_rand = ret ''0123456789abcdef'',
       tc_decode = (\<lambda>b. Inr (''text'', None))\<rparr>,
     sv_parse = demo_parse_io, sv_embed = demo_codec,
     sv_chat = \<lparr>cc_marshal = (\<lambda>r. Inr []), cc_decode = (\<lambda>b. Inr [''answer''])\<rparr>,
     sv_aws = (\<lambda>k s e. Inr \<lparr>s3_presign = (\<lambda>b k c d. ret ''url''), s3_create = (\<lambda>p. ret ()), s3_get = (\<lambda>b k p. ret ()),
       s3_delete = (\<lambda>b k. ret ()), s3_clock = (\<lambda>w. 0)\<rparr>),
     sv_mkdir = ret ''/tmp/x'', sv_rmdir = (\<lambda>d w. w), sv_stat = (\<lambda>p. ret 10), sv_detect = (\<lambda>p. ret ''application/pdf''),
     sv_ping = ret (), sv_rfc3339 = (\<lambda>t. ''now''), sv_json = (\<lambda>m. Inr ''{}''), sv_sha256_hex = (\<lambda>s. s)\<rparr>"

definition demo_main_config :: config where
  "demo_main_config = \<lparr>DatabaseURL = ''db'', ServerPort = ''8080'', WorkerConcurrency = 3, R2AccountID = ''a'',
     R2AccessKeyID = ''k'', R2SecretAccessKey = ''s'', R2Bucket = ''b'', R2PublicEndpoint = [], GroqAPIKey = ''g'',
     LlamaParseAPIKey = ''l'', CloudflareAccountID = ''c'', CloudflareAPIToken = ''t'', DeepSeekAPIKey = ''d'',
     UploadURLTTLMinutes = 10, MaxUploadBytes = 1000, EmbeddingBatchSize = 16, SummaryMaxTokens = 3000,
     QueryResultK = 5, CbMaxFailures = 3, CbTimeout = 30 * second\<rparr>"

lemmas main_defs = demo_services_def demo_main_config_def newStorage_def newTranscriber_def newParser_def
  newEmbedder_def newLLM_def init_def Let_def


theorem shipped_server_isolates_witness:
  "\<exists>H w0. server_main exact demo_services demo_main_config = Inr (H :: (script_world, unit) server_world_ext api_world_ext handler, w0) \<and>
    outside ''t'' (w_db (snd (serve exact demo_env H (demo_request (RDeleteVideo ''v'') ''ka'') (w0 demo_db demo_script)))) =
    outside ''t'' demo_db"
proof -
  obtain H :: "(script_world, unit) server_world_ext api_world_ext handler" and w0 where
    m: "server_main exact demo_services demo_main_config = Inr (H, w0)"
    by (simp add: server_main_def main_defs)
  then have d: "w_db (w0 demo_db demo_script) = demo_db"
    by (auto simp: server_main_def main_defs new_api_world_def api_world.defs)
  have k: "demo_key ''ka'' ''admin'' \<in> set (d_keys demo_db)" "k_hash (demo_key ''ka'' ''admin'') = sv_sha256_hex demo_services ''ka''"
    "\<forall>k' \<in> set (d_keys demo_db). k_hash k' = k_hash (demo_key ''ka'' ''admin'') \<or> k_id k' = k_id (demo_key ''ka'' ''admin'')
       \<longrightarrow> k' = demo_key ''ka'' ''admin''" "k_tenant (demo_key ''ka'' ''admin'') = ''t''"
    "pg_uuid (e_pg demo_env) (k_id (demo_key ''ka'' ''admin'')) = Some (k_id (demo_key ''ka'' ''admin''))"
    "pg_uuid (e_pg demo_env) (k_tenant (demo_key ''ka'' ''admin'')) = Some (k_tenant (demo_key ''ka'' ''admin''))"
    by (simp_all add: demo_db_def demo_key_def demo_services_def demo_env_def demo_pg_def)
  have r: "ar_key (demo_request (RDeleteVideo ''v'') ''ka'') = ''ka''" by (simp add: demo_request_def)
  from shipped_server_isolates [OF m queue_facts(1), of "demo_key ''ka'' ''admin''" "w0 demo_db demo_script"
      "demo_request (RDeleteVideo ''v'') ''ka''", unfolded d r, OF k(1-3,5,6)] m
  show ?thesis by (auto simp: k(4))
qed


end
