(* ===== verification/WorkerTenancy.thy ===== *)
theory WorkerTenancy
  imports WorkerJobs
begin

text \<open>
  The worker runs with the rights of every tenant. Here: a job's pipeline writes rows of the job's
  tenant only, deletions that cascade included, and the rows that hang on a video keep the tenant
  of that video. Nothing is assumed about faults: the pipeline may break off anywhere.
\<close>

section \<open>Rows that belong to a video\<close>

definition owned :: "db \<Rightarrow> string \<Rightarrow> string \<Rightarrow> bool" where
  "owned d i t \<longleftrightarrow> (i, t) \<in> (\<lambda>v. (v_id v, v_tenant v)) ` set (d_videos d)"

text \<open>The primary key of \<open>videos\<close>, and every row that references a video has its tenant.\<close>

definition family_ok :: "db \<Rightarrow> bool" where
  "family_ok d \<longleftrightarrow> distinct (map v_id (d_videos d)) \<and>
     (\<forall>l \<in> set (d_video_segments d). owned d (l_owner l) (l_tenant l)) \<and>
     (\<forall>r \<in> set (d_transcripts d). owned d (t_video r) (t_tenant r)) \<and>
     (\<forall>c \<in> set (d_chunks d). owned d (c_video c) (c_tenant c)) \<and>
     (\<forall>m \<in> set (d_summaries d). owned d (m_video m) (m_tenant m))"

text \<open>No uuid that will be drawn is the id of a video of another tenant.\<close>

definition fresh_for :: "environ \<Rightarrow> string \<Rightarrow> db \<Rightarrow> bool" where
  "fresh_for E t d \<longleftrightarrow> (\<forall>i u n. owned d i u \<longrightarrow> pg_uuid (e_pg E) (e_uuid E n) = Some i \<longrightarrow> u = t)"

definition within_tenant :: "environ \<Rightarrow> string \<Rightarrow> db \<Rightarrow> db \<Rightarrow> bool" where
  "within_tenant E t X d \<longleftrightarrow> outside t d = X \<and> family_ok d \<and> fresh_for E t d"

lemma owned_iff: "owned d i t \<longleftrightarrow> (\<exists>v \<in> set (d_videos d). v_id v = i \<and> v_tenant v = t)"
  by (auto simp: owned_def)

lemma owned_unique:
  assumes "family_ok d" "owned d i t" "owned d i u"
  shows "t = u"
proof -
  obtain v where v: "v \<in> set (d_videos d)" "v_id v = i" "v_tenant v = t"
    using assms(2) unfolding owned_iff by blast
  moreover obtain v' where "v' \<in> set (d_videos d)" "v_id v' = i" "v_tenant v' = u"
    using assms(3) unfolding owned_iff by blast
  moreover have "inj_on v_id (set (d_videos d))" using assms(1) by (simp add: family_ok_def distinct_map)
  ultimately show ?thesis by (metis inj_onD)
qed

lemma owned_fresh: "owned d i u \<Longrightarrow> fresh_for E t d \<Longrightarrow> pg_uuid (e_pg E) (e_uuid E n) = Some i \<Longrightarrow> u = t"
  unfolding fresh_for_def by blast

lemma owned_exists: "i \<in> v_id ` set (d_videos d) \<Longrightarrow> \<exists>u. owned d i u"
  by (force simp: owned_def)

lemma owned_mine:
  "i \<in> v_id ` set (d_videos d) \<Longrightarrow> fresh_for E t d \<Longrightarrow> pg_uuid (e_pg E) (e_uuid E n) = Some i \<Longrightarrow> owned d i t"
  by (metis owned_exists owned_fresh)

text \<open>A statement that acts within the tenant.\<close>

definition sql_within :: "environ \<Rightarrow> string \<Rightarrow> 'a sql \<Rightarrow> bool" where
  "sql_within E t q \<longleftrightarrow> (\<forall>d. family_ok d \<longrightarrow> fresh_for E t d \<longrightarrow>
     outside t (snd (q d)) = outside t d \<and> family_ok (snd (q d)) \<and> fresh_for E t (snd (q d)))"

lemma within_uuid:
  "(\<And>u. pg_uuid P s = Some u \<Longrightarrow> sql_within E t (f u)) \<Longrightarrow> sql_within E t (uuid_arg P s f)"
  by (auto simp: uuid_arg_def sql_within_def violation_def fail_def split: option.split)

text \<open>The parts of the database the two invariants look at.\<close>

lemma family_ok_cong:
  "d_videos d' = d_videos d \<Longrightarrow> d_video_segments d' = d_video_segments d \<Longrightarrow> d_transcripts d' = d_transcripts d \<Longrightarrow>
   d_chunks d' = d_chunks d \<Longrightarrow> d_summaries d' = d_summaries d \<Longrightarrow>
   family_ok d' = family_ok d \<and> fresh_for E t d' = fresh_for E t d"
  unfolding family_ok_def owned_def fresh_for_def by simp

lemma within_other_tables:
  assumes "only_tenant t q"
    "\<And>d. d_videos (snd (q d)) = d_videos d \<and> d_video_segments (snd (q d)) = d_video_segments d \<and>
      d_transcripts (snd (q d)) = d_transcripts d \<and> d_chunks (snd (q d)) = d_chunks d \<and> d_summaries (snd (q d)) = d_summaries d"
  shows "sql_within E t q"
proof -
  have "outside t (snd (q d)) = outside t d" for d using assms(1) by (simp add: keeps_def)
  moreover have "family_ok (snd (q d)) = family_ok d \<and> fresh_for E t (snd (q d)) = fresh_for E t d" for d
    using assms(2) [of d] by (intro family_ok_cong) simp_all
  ultimately show ?thesis by (simp add: sql_within_def)
qed

lemma family_video_update:
  assumes "\<And>v. v_id (f v) = v_id v \<and> v_tenant (f v) = v_tenant v"
  shows "family_ok (d\<lparr>d_videos := update_rows hit f (d_videos d)\<rparr>) = family_ok d"
    "fresh_for E t (d\<lparr>d_videos := update_rows hit f (d_videos d)\<rparr>) = fresh_for E t d"
proof -
  have "map (\<lambda>v. (v_id v, v_tenant v)) (update_rows hit f vs) = map (\<lambda>v. (v_id v, v_tenant v)) vs" for vs
    using assms by (simp add: update_rows_def)
  then have o: "owned (d\<lparr>d_videos := update_rows hit f (d_videos d)\<rparr>) i u = owned d i u" for i u
    unfolding owned_def set_map [symmetric] by simp
  have "map v_id (update_rows hit f vs) = map v_id vs" for vs
    using assms by (simp add: update_rows_def)
  with o show "family_ok (d\<lparr>d_videos := update_rows hit f (d_videos d)\<rparr>) = family_ok d"
    by (simp add: family_ok_def)
  show "fresh_for E t (d\<lparr>d_videos := update_rows hit f (d_videos d)\<rparr>) = fresh_for E t d"
    by (simp add: fresh_for_def o)
qed

lemma owned_simps [simp]:
  "owned (d\<lparr>d_video_segments := a\<rparr>) i u = owned d i u" "owned (d\<lparr>d_transcripts := b\<rparr>) i u = owned d i u"
  "owned (d\<lparr>d_chunks := c\<rparr>) i u = owned d i u" "owned (d\<lparr>d_summaries := m\<rparr>) i u = owned d i u"
  by (simp_all add: owned_def)

lemma fresh_for_simps [simp]:
  "fresh_for E t (d\<lparr>d_video_segments := a\<rparr>) = fresh_for E t d" "fresh_for E t (d\<lparr>d_transcripts := b\<rparr>) = fresh_for E t d"
  "fresh_for E t (d\<lparr>d_chunks := c\<rparr>) = fresh_for E t d" "fresh_for E t (d\<lparr>d_summaries := m\<rparr>) = fresh_for E t d"
  by (simp_all add: fresh_for_def)

lemma sql_withinI:
  "(\<And>d. family_ok d \<Longrightarrow> fresh_for E t d \<Longrightarrow> outside t (snd (q d)) = outside t d \<and> family_ok (snd (q d)) \<and> fresh_for E t (snd (q d)))
    \<Longrightarrow> sql_within E t q"
  by (simp add: sql_within_def)

lemma within_guarded: "sql_within E t q \<Longrightarrow> sql_within E t (guarded P cs q)"
  by (simp add: sql_within_def guarded_snd)

section \<open>The statements of the pipeline\<close>

lemma filter_gone:
  "(\<And>x. x \<in> set xs \<Longrightarrow> ow x \<in> gone \<Longrightarrow> tn x = t) \<Longrightarrow>
   filter (\<lambda>x. tn x \<noteq> t) (filter (\<lambda>x. ow x \<notin> gone) xs) = filter (\<lambda>x. tn x \<noteq> t) xs"
  by (induction xs) auto

definition delete_videos :: "string \<Rightarrow> string \<Rightarrow> db \<Rightarrow> db" where
  "delete_videos job t d =
     (let hit = (\<lambda>v. v_job v = job \<and> v_tenant v = t); gone = v_id ` set (filter hit (d_videos d))
      in d\<lparr>d_videos := filter (\<lambda>v. \<not> hit v) (d_videos d),
            d_video_segments := filter (\<lambda>l. l_owner l \<notin> gone) (d_video_segments d),
            d_transcripts := filter (\<lambda>r. t_video r \<notin> gone) (d_transcripts d),
            d_chunks := filter (\<lambda>c. c_video c \<notin> gone) (d_chunks d),
            d_summaries := filter (\<lambda>m. m_video m \<notin> gone) (d_summaries d)\<rparr>)"

lemma delete_videos_within:
  assumes f: "family_ok d" and fr: "fresh_for E t d"
  shows "outside t (delete_videos job t d) = outside t d \<and> family_ok (delete_videos job t d) \<and>
    fresh_for E t (delete_videos job t d)"
proof -
  define kept where "kept = (\<lambda>v :: video. \<not> (v_job v = job \<and> v_tenant v = t))"
  define gone where "gone = v_id ` set (filter (\<lambda>v. v_job v = job \<and> v_tenant v = t) (d_videos d))"
  define d' where "d' = d\<lparr>d_videos := filter kept (d_videos d),
    d_video_segments := filter (\<lambda>l. l_owner l \<notin> gone) (d_video_segments d),
    d_transcripts := filter (\<lambda>r. t_video r \<notin> gone) (d_transcripts d),
    d_chunks := filter (\<lambda>c. c_video c \<notin> gone) (d_chunks d),
    d_summaries := filter (\<lambda>m. m_video m \<notin> gone) (d_summaries d)\<rparr>"
  have vids: "d_videos d' = filter kept (d_videos d)" by (simp add: d'_def)
  have g: "u = t" if "owned d i u" "i \<in> gone" for i u
  proof -
    have "owned d i t" using that(2) by (auto simp: owned_iff gone_def)
    then show ?thesis using owned_unique [OF f that(1)] by blast
  qed
  have stays: "owned d' i u" if "owned d i u" "i \<notin> gone" for i u
    using that unfolding owned_iff vids gone_def kept_def by fastforce
  have sub: "owned d i u" if "owned d' i u" for i u
    using that unfolding owned_iff vids by auto
  have v: "filter (\<lambda>v. v_tenant v \<noteq> t) (filter kept vs) = filter (\<lambda>v. v_tenant v \<noteq> t) vs" for vs
    by (induction vs) (auto simp: kept_def)
  have c: "filter (\<lambda>l. l_tenant l \<noteq> t) (filter (\<lambda>l. l_owner l \<notin> gone) (d_video_segments d)) = filter (\<lambda>l. l_tenant l \<noteq> t) (d_video_segments d)"
    "filter (\<lambda>r. t_tenant r \<noteq> t) (filter (\<lambda>r. t_video r \<notin> gone) (d_transcripts d)) = filter (\<lambda>r. t_tenant r \<noteq> t) (d_transcripts d)"
    "filter (\<lambda>r. c_tenant r \<noteq> t) (filter (\<lambda>r. c_video r \<notin> gone) (d_chunks d)) = filter (\<lambda>r. c_tenant r \<noteq> t) (d_chunks d)"
    "filter (\<lambda>r. m_tenant r \<noteq> t) (filter (\<lambda>r. m_video r \<notin> gone) (d_summaries d)) = filter (\<lambda>r. m_tenant r \<noteq> t) (d_summaries d)"
    using f g unfolding family_ok_def by (intro filter_gone; blast)+
  have "outside t d' = outside t d" by (simp add: outside_def d'_def v c del: filter_filter)
  moreover have "family_ok d'"
    using f stays unfolding family_ok_def vids by (simp add: d'_def distinct_map_filter)
  moreover have "fresh_for E t d'" using fr sub unfolding fresh_for_def by blast
  moreover have "delete_videos job t d = d'" by (simp add: delete_videos_def d'_def kept_def gone_def Let_def)
  ultimately show ?thesis by simp
qed

lemma within_delete:
  assumes "pg_uuid P t0 = Some t"
  shows "sql_within E t (DeleteVideoByJobID_q P job0 t0)"
proof -
  have "DeleteVideoByJobID_q P job0 t0 = uuid_arg P job0 (\<lambda>job. uuid_arg P t0 (\<lambda>t d. (Inr (), delete_videos job t d)))"
    by (simp add: DeleteVideoByJobID_q_def delete_videos_def Let_def)
  moreover have "sql_within E t \<dots>"
  proof (intro within_uuid sql_withinI)
    fix job t1 d
    assume "pg_uuid P t0 = Some t1" "family_ok d" "fresh_for E t d"
    then show "outside t (snd (Inr (), delete_videos job t1 d)) = outside t d \<and>
        family_ok (snd (Inr (), delete_videos job t1 d)) \<and> fresh_for E t (snd (Inr (), delete_videos job t1 d))"
      using assms delete_videos_within by simp
  qed
  ultimately show ?thesis by simp
qed

text \<open>Insertion of a row that hangs on a video, and update of such rows.\<close>

lemma child_inserted:
  assumes "family_ok d" "owned d i t"
  shows "l_owner l = i \<Longrightarrow> l_tenant l = t \<Longrightarrow> family_ok (d\<lparr>d_video_segments := d_video_segments d @ [l]\<rparr>)"
    "t_video r = i \<Longrightarrow> t_tenant r = t \<Longrightarrow> family_ok (d\<lparr>d_transcripts := d_transcripts d @ [r]\<rparr>)"
    "c_video c = i \<Longrightarrow> c_tenant c = t \<Longrightarrow> family_ok (d\<lparr>d_chunks := d_chunks d @ [c]\<rparr>)"
    "m_video m = i \<Longrightarrow> m_tenant m = t \<Longrightarrow> family_ok (d\<lparr>d_summaries := d_summaries d @ [m]\<rparr>)"
  using assms by (simp_all add: family_ok_def)

lemma child_updated:
  assumes "family_ok d"
  shows "(\<And>r. t_video (f r) = t_video r \<and> t_tenant (f r) = t_tenant r) \<Longrightarrow>
      family_ok (d\<lparr>d_transcripts := update_rows hit f (d_transcripts d)\<rparr>)"
    "(\<And>m. m_video (g m) = m_video m \<and> m_tenant (g m) = m_tenant m) \<Longrightarrow>
      family_ok (d\<lparr>d_summaries := update_rows hit' g (d_summaries d)\<rparr>)"
  using assms by (simp_all add: family_ok_def update_rows_def ball_Un)

lemma filter_update_at:
  "(\<And>r. r \<in> set rs \<Longrightarrow> hit r \<Longrightarrow> tn r = t) \<Longrightarrow> (\<And>r. tn (f r) = tn r) \<Longrightarrow>
   filter (\<lambda>r. tn r \<noteq> t) (update_rows hit f rs) = filter (\<lambda>r. tn r \<noteq> t) rs"
  by (induction rs) (auto simp: update_rows_def)

text \<open>A guarded statement, by its conditions.\<close>

lemma within_conditions:
  assumes "\<And>d. family_ok d \<Longrightarrow> fresh_for E t d \<Longrightarrow> list_all fst (cs d) \<Longrightarrow>
    outside t (snd (m d d)) = outside t d \<and> family_ok (snd (m d d)) \<and> fresh_for E t (snd (m d d))"
  shows "sql_within E t (\<lambda>d. guarded P (cs d) (m d) d)"
  using assms by (simp add: sql_within_def guarded_snd)

lemma video_inserted:
  assumes "family_ok d" "fresh_for E t d" "v_id r \<notin> v_id ` set (d_videos d)" "v_tenant r = t"
  shows "outside t (d\<lparr>d_videos := d_videos d @ [r]\<rparr>) = outside t d \<and> family_ok (d\<lparr>d_videos := d_videos d @ [r]\<rparr>) \<and>
    fresh_for E t (d\<lparr>d_videos := d_videos d @ [r]\<rparr>)"
proof -
  let ?d = "d\<lparr>d_videos := d_videos d @ [r]\<rparr>"
  have o: "owned ?d j u \<longleftrightarrow> owned d j u \<or> (j = v_id r \<and> u = t)" for j u
    using assms(4) by (auto simp: owned_iff)
  have "outside t ?d = outside t d" using assms(4) by (simp add: outside_def)
  moreover have "family_ok ?d" using assms(1,3) unfolding family_ok_def o by simp
  moreover have "fresh_for E t ?d" using assms(2) unfolding fresh_for_def o by blast
  ultimately show ?thesis by blast
qed

lemma within_create:
  assumes "pg_uuid P (v_tenant v) = Some t"
  shows "sql_within E t (CreateVideo_q P v)"
  unfolding CreateVideo_q_def
proof (intro within_uuid within_conditions)
qed (use assms in \<open>simp add: Let_def video_inserted\<close>)

lemma within_attach:
  assumes "pg_uuid (e_pg E) t0 = Some t"
  shows "sql_within E t (AttachVideoSegment (e_pg E) (e_uuid E n) sid t0)"
  unfolding AttachVideoSegment_def attach_def Let_def
proof (intro within_uuid within_conditions)
  fix i s t1 d
  assume u: "pg_uuid (e_pg E) (e_uuid E n) = Some i" "pg_uuid (e_pg E) t0 = Some t1" and
    f: "family_ok d" "fresh_for E t d"
  let ?no = "\<exists>l \<in> set (d_video_segments d). l_owner l = i \<and> l_segment l = s"
  assume c: "list_all fst
    [(?no \<or> i \<in> v_id ` set (d_videos d), ForeignKeyViolation ''video_segments''),
     (?no \<or> s \<in> s_id ` set (d_segments d), ForeignKeyViolation ''video_segments''),
     (?no \<or> t1 \<in> set (d_tenants d), ForeignKeyViolation ''video_segments'')]"
  let ?l = "\<lparr>l_owner = i, l_segment = s, l_tenant = t1\<rparr>"
  have e: "d_video_segments_update (\<lambda>ls. ls @ [?l]) d = d\<lparr>d_video_segments := d_video_segments d @ [?l]\<rparr>"
    by (cases d) simp
  have tt: "t1 = t" using u(2) assms by simp
  moreover have "family_ok (d\<lparr>d_video_segments := d_video_segments d @ [?l]\<rparr>)" if "\<not> ?no"
  proof -
    have "i \<in> v_id ` set (d_videos d)" using c that by simp
    from child_inserted(1) [OF f(1) owned_mine [OF this f(2) u(1)], of ?l] show ?thesis
      using \<open>t1 = t\<close> by simp
  qed
  ultimately show "outside t (snd (Inr (), if ?no then d else d_video_segments_update (\<lambda>ls. ls @ [?l]) d)) = outside t d \<and>
      family_ok (snd (Inr (), if ?no then d else d_video_segments_update (\<lambda>ls. ls @ [?l]) d)) \<and>
      fresh_for E t (snd (Inr (), if ?no then d else d_video_segments_update (\<lambda>ls. ls @ [?l]) d))"
    using f by (cases ?no) (simp_all add: e [unfolded tt] outside_def)
qed

lemma within_chunk:
  assumes "pg_uuid (e_pg E) (c_tenant c) = Some t" "c_video c = e_uuid E n"
  shows "sql_within E t (InsertChunk_q (e_pg E) c)"
  unfolding InsertChunk_q_def
proof (intro within_uuid within_conditions)
  fix i t1 vid d
  assume u: "pg_uuid (e_pg E) (c_tenant c) = Some t1" "pg_uuid (e_pg E) (c_video c) = Some vid" and
    f: "family_ok d" "fresh_for E t d"
  assume k: "list_all fst
    [(length (c_embedding c) = vector_dims, BadVector),
     (i \<notin> c_id ` set (d_chunks d), UniqueViolation ''chunks_pkey''),
     (\<forall>r \<in> set (d_chunks d). \<not> (c_video r = vid \<and> c_index r = c_index c), UniqueViolation ''chunks_video_chunk_unique''),
     (t1 \<in> set (d_tenants d), ForeignKeyViolation ''chunks_tenant_id_fkey''),
     (vid \<in> v_id ` set (d_videos d), ForeignKeyViolation ''chunks_video_id_fkey'')]"
  let ?r = "c\<lparr>c_id := i, c_tenant := t1, c_video := vid\<rparr>"
  have "t1 = t" using u(1) assms(1) by simp
  moreover have "vid \<in> v_id ` set (d_videos d)" using k by simp
  from child_inserted(3) [OF f(1) owned_mine [OF this f(2) u(2) [unfolded assms(2)]], of ?r]
  have "family_ok (d\<lparr>d_chunks := d_chunks d @ [?r]\<rparr>)" using \<open>t1 = t\<close> by simp
  ultimately show "outside t (snd (let r = ?r in (Inr r, d\<lparr>d_chunks := d_chunks d @ [r]\<rparr>))) = outside t d \<and>
      family_ok (snd (let r = ?r in (Inr r, d\<lparr>d_chunks := d_chunks d @ [r]\<rparr>))) \<and>
      fresh_for E t (snd (let r = ?r in (Inr r, d\<lparr>d_chunks := d_chunks d @ [r]\<rparr>)))"
    using f by (simp add: Let_def outside_def)
qed

text \<open>\<open>ON CONFLICT DO UPDATE\<close>: the existing rows are updated, or a row is inserted under conditions.\<close>

definition safe_for :: "environ \<Rightarrow> string \<Rightarrow> db \<Rightarrow> db \<Rightarrow> bool" where
  "safe_for E t d d' \<longleftrightarrow> outside t d' = outside t d \<and> family_ok d' \<and> fresh_for E t d'"

lemma safe_same: "family_ok d \<Longrightarrow> fresh_for E t d \<Longrightarrow> safe_for E t d d"
  by (simp add: safe_for_def)

lemma sql_within_safe: "(\<And>d. family_ok d \<Longrightarrow> fresh_for E t d \<Longrightarrow> safe_for E t d (snd (q d))) \<Longrightarrow> sql_within E t q"
  by (simp add: sql_within_def safe_for_def)

lemma safe_guarded:
  "safe_for E t d d \<Longrightarrow> (list_all fst cs \<Longrightarrow> safe_for E t d (snd (m d))) \<Longrightarrow> safe_for E t d (snd (guarded P cs m d))"
  by (simp add: guarded_snd)

lemma safe_if: "(b \<Longrightarrow> safe_for E t d (snd p)) \<Longrightarrow> (\<not> b \<Longrightarrow> safe_for E t d (snd q)) \<Longrightarrow> safe_for E t d (snd (if b then p else q))"
  by simp

lemma transcript_updated:
  assumes "family_ok d" "fresh_for E t d" "pg_uuid (e_pg E) (e_uuid E n) = Some vid"
    "\<And>r. t_video (f r) = t_video r \<and> t_tenant (f r) = t_tenant r"
  shows "safe_for E t d (d\<lparr>d_transcripts := update_rows (\<lambda>r. t_video r = vid) f (d_transcripts d)\<rparr>)"
proof -
  have "t_tenant r = t" if "r \<in> set (d_transcripts d)" "t_video r = vid" for r
  proof -
    have "owned d vid (t_tenant r)" using assms(1) that unfolding family_ok_def by blast
    then show ?thesis by (rule owned_fresh [OF _ assms(2,3)])
  qed
  then have "filter (\<lambda>r. t_tenant r \<noteq> t) (update_rows (\<lambda>r. t_video r = vid) f (d_transcripts d)) =
      filter (\<lambda>r. t_tenant r \<noteq> t) (d_transcripts d)"
    using assms(4) by (intro filter_update_at) simp_all
  with child_updated(1) [OF assms(1,4), of "\<lambda>r. t_video r = vid"] assms(2) show ?thesis
    by (simp add: safe_for_def outside_def)
qed

lemma summary_updated:
  assumes "family_ok d" "fresh_for E t d" "pg_uuid (e_pg E) (e_uuid E n) = Some vid"
    "\<And>m. m_video (f m) = m_video m \<and> m_tenant (f m) = m_tenant m"
  shows "safe_for E t d (d\<lparr>d_summaries := update_rows (\<lambda>m. m_video m = vid) f (d_summaries d)\<rparr>)"
proof -
  have "m_tenant m = t" if "m \<in> set (d_summaries d)" "m_video m = vid" for m
  proof -
    have "owned d vid (m_tenant m)" using assms(1) that unfolding family_ok_def by blast
    then show ?thesis by (rule owned_fresh [OF _ assms(2,3)])
  qed
  then have "filter (\<lambda>m. m_tenant m \<noteq> t) (update_rows (\<lambda>m. m_video m = vid) f (d_summaries d)) =
      filter (\<lambda>m. m_tenant m \<noteq> t) (d_summaries d)"
    using assms(4) by (intro filter_update_at) simp_all
  with child_updated(2) [OF assms(1,4), of "\<lambda>m. m_video m = vid"] assms(2) show ?thesis
    by (simp add: safe_for_def outside_def)
qed

lemma transcript_inserted:
  assumes "family_ok d" "fresh_for E t d" "pg_uuid (e_pg E) (e_uuid E n) = Some (t_video r)" "t_tenant r = t"
    "t_video r \<in> v_id ` set (d_videos d)"
  shows "safe_for E t d (d\<lparr>d_transcripts := d_transcripts d @ [r]\<rparr>)"
  using child_inserted(2) [OF assms(1) owned_mine [OF assms(5,2,3)] refl assms(4)] assms(2,4)
  by (simp add: safe_for_def outside_def)

lemma summary_inserted:
  assumes "family_ok d" "fresh_for E t d" "pg_uuid (e_pg E) (e_uuid E n) = Some (m_video r)" "m_tenant r = t"
    "m_video r \<in> v_id ` set (d_videos d)"
  shows "safe_for E t d (d\<lparr>d_summaries := d_summaries d @ [r]\<rparr>)"
  using child_inserted(4) [OF assms(1) owned_mine [OF assms(5,2,3)] refl assms(4)] assms(2,4)
  by (simp add: safe_for_def outside_def)

lemma within_transcript:
  assumes "pg_uuid (e_pg E) (t_tenant a) = Some t" "t_video a = e_uuid E n"
  shows "sql_within E t (UpsertTranscript (e_pg E) a)"
  unfolding UpsertTranscript_def Let_def
proof (intro within_uuid sql_within_safe safe_if safe_guarded)
qed (use assms in \<open>auto simp: safe_same intro!: transcript_updated transcript_inserted\<close>)

lemma within_summary:
  assumes "pg_uuid (e_pg E) (m_tenant a) = Some t" "m_video a = e_uuid E n"
  shows "sql_within E t (UpsertSummary (e_pg E) now a)"
  unfolding UpsertSummary_def Let_def
proof (intro within_uuid sql_within_safe safe_if safe_guarded)
qed (use assms in \<open>auto simp: safe_same guarded_snd intro!: summary_updated summary_inserted\<close>)

lemma within_status:
  assumes "pg_uuid P t0 = Some t"
  shows "sql_within E t (UpdateJobStatus_q P now i0 t0 status stage msg)"
proof (rule within_other_tables)
  show "only_tenant t (UpdateJobStatus_q P now i0 t0 status stage msg)"
    using canon_frames(2) [OF canon_Some [OF assms]] .
qed (auto simp: UpdateJobStatus_q_def uuid_arg_def violation_def fail_def guarded_snd Let_def split: option.split)

lemma within_ensure:
  assumes "pg_uuid P (s_tenant s) = Some t"
  shows "sql_within E t (EnsureSegmentByName P s)"
proof (rule within_other_tables)
  show "only_tenant t (EnsureSegmentByName P s)" using canon_frames(9) [OF canon_Some [OF assms]] .
qed (auto simp: EnsureSegmentByName_def uuid_arg_def violation_def fail_def guarded_snd Let_def split: option.split)

lemma within_read: "read_only q \<Longrightarrow> sql_within E t q"
  by (simp add: sql_within_def read_only_def)

lemma safe_video_update:
  assumes "family_ok d" "fresh_for E t d" "\<And>v. hit v \<Longrightarrow> v_tenant v = t"
    "\<And>v. v_id (f v) = v_id v \<and> v_tenant (f v) = v_tenant v"
  shows "safe_for E t d (d\<lparr>d_videos := update_rows hit f (d_videos d)\<rparr>)"
proof -
  have "filter (\<lambda>v. v_tenant v \<noteq> t) (update_rows hit f (d_videos d)) = filter (\<lambda>v. v_tenant v \<noteq> t) (d_videos d)"
    using assms(3,4) by (intro filter_update_at) simp_all
  then show ?thesis
    using assms(1,2) family_video_update [OF assms(4), where d = d and hit = hit] by (simp add: safe_for_def outside_def)
qed

lemma within_video_status:
  assumes "pg_uuid P t0 = Some t"
  shows "sql_within E t (FailVideoByJobID_q P now i0 t0)" "sql_within E t (UpdateVideoStatus_q P now i0 t0 status)"
proof -
  show "sql_within E t (FailVideoByJobID_q P now i0 t0)"
    unfolding FailVideoByJobID_q_def
    by (intro within_uuid sql_within_safe) (use assms in \<open>auto intro!: safe_video_update\<close>)
  show "sql_within E t (UpdateVideoStatus_q P now i0 t0 status)"
    unfolding UpdateVideoStatus_q_def Let_def
    by (intro within_uuid sql_within_safe safe_guarded)
      (use assms in \<open>auto intro!: safe_video_update simp: safe_same\<close>)
qed

section \<open>The pipeline\<close>

text \<open>\<open>stays E t m\<close>: what \<open>m\<close> does to the database is safe for \<open>t\<close>, wherever it breaks off.\<close>

definition stays :: "environ \<Rightarrow> string \<Rightarrow> ('z, 'a) act \<Rightarrow> bool" where
  "stays E t m \<longleftrightarrow> (\<forall>w. family_ok (w_db w) \<longrightarrow> fresh_for E t (w_db w) \<longrightarrow> safe_for E t (w_db w) (w_db (snd (m w))))"

named_theorems staying \<open>computations that stay within a tenant\<close>

lemma staysD:
  "stays E t m \<Longrightarrow> m w = (r, w') \<Longrightarrow> family_ok (w_db w) \<Longrightarrow> fresh_for E t (w_db w) \<Longrightarrow> safe_for E t (w_db w) (w_db w')"
  unfolding stays_def by (metis snd_conv)

lemma stays_from:
  "stays E t m \<Longrightarrow> w_db w1 = d \<Longrightarrow> family_ok d \<Longrightarrow> fresh_for E t d \<Longrightarrow> safe_for E t d (w_db (snd (m w1)))"
  by (auto simp: stays_def)

lemma safe_trans: "safe_for E t a b \<Longrightarrow> safe_for E t b c \<Longrightarrow> safe_for E t a c"
  by (simp add: safe_for_def)

lemma safeD: "safe_for E t a b \<Longrightarrow> family_ok b \<and> fresh_for E t b"
  by (simp add: safe_for_def)

lemma stays_basic [staying]: "stays E t (ret a)" "stays E t (fail e)" "stays E t (time_now E)" "stays E t (newUUIDString E)"
  by (simp_all add: stays_def ret_def fail_def time_now_def newUUIDString_def safe_same)

lemma stays_bind:
  fixes m :: "('z, 'a) act"
  assumes "stays E t m" "\<And>w a w'. m w = (Inr a, w') \<Longrightarrow> stays E t (f a)"
  shows "stays E t (andthen m f)"
  unfolding stays_def
proof (intro allI impI)
  fix w :: "'z world_scheme"
  assume w: "family_ok (w_db w)" "fresh_for E t (w_db w)"
  obtain r w1 where m: "m w = (r, w1)" by fastforce
  note s = staysD [OF assms(1) m w]
  show "safe_for E t (w_db w) (w_db (snd (andthen m f w)))"
  proof (cases r)
    case (Inl e)
    with m s show ?thesis by (simp add: andthen_Inl)
  next
    case (Inr a)
    have "safe_for E t (w_db w1) (w_db (snd (f a w1)))"
      using assms(2) [OF m [unfolded Inr]] safeD [OF s] unfolding stays_def by blast
    with m s Inr show ?thesis by (simp add: andthen_Inr safe_trans)
  qed
qed

lemma stays_andthen [staying]: "stays E t m \<Longrightarrow> (\<And>a. stays E t (f a)) \<Longrightarrow> stays E t (andthen m f)"
  by (rule stays_bind)

lemma stays_map_err [staying]: "stays E t m \<Longrightarrow> stays E t (map_err g m)"
  by (simp add: stays_def)

lemma stays_collect [staying]: "(\<And>x. stays E t (f x)) \<Longrightarrow> stays E t (for_collect f xs)"
  by (induction xs) (auto intro!: staying)

lemma stays_each: "(\<And>x. x \<in> set xs \<Longrightarrow> stays E t (f x)) \<Longrightarrow> stays E t (for_each f xs)"
  by (induction xs) (auto intro!: staying)

lemma stays_best_effort [staying]: "stays E t m \<Longrightarrow> stays E t (best_effort m)"
  by (simp add: stays_def best_effort_def)

lemma stays_if [staying]: "stays E t m \<Longrightarrow> stays E t n \<Longrightarrow> stays E t (if b then m else n)"
  by simp

lemma stays_stmt [staying]:
  assumes "sql_within E t q"
  shows "stays E t (stmt E q :: ('z, 'a) act)"
  unfolding stays_def
proof (intro allI impI)
  fix w :: "'z world_scheme"
  assume w: "family_ok (w_db w)" "fresh_for E t (w_db w)"
  show "safe_for E t (w_db w) (w_db (snd ((stmt E q :: ('z, 'a) act) w)))"
  proof (cases "e_fault E (w_tick w)")
    case None
    have "w_db (snd ((stmt E q :: ('z, 'a) act) w)) = snd (q (w_db w))" by (simp add: stmt_def None split: prod.split)
    with assms w show ?thesis by (simp add: sql_within_def safe_for_def)
  qed (use w in \<open>simp add: stmt_def safe_same\<close>)
qed

lemma stays_tx [staying]:
  fixes fn :: "time \<Rightarrow> ('z, 'a) act"
  assumes "quiet E" "\<And>now. stays E t (fn now)"
  shows "stays E t (WithTenantTx E u fn)"
  unfolding stays_def
proof (intro allI impI)
  fix w :: "'z world_scheme"
  assume w: "family_ok (w_db w)" "fresh_for E t (w_db w)"
  have "keeps_db (safe_for E t (w_db w)) (WithTenantTx E u fn)"
  proof (rule tx_keeps [OF quiet_stable [OF assms(1)]], unfold keeps_def, intro allI impI)
    fix now and v :: "'z world_scheme"
    assume s: "safe_for E t (w_db w) (w_db v)"
    with assms(2) [of now] safeD [OF s] have "safe_for E t (w_db v) (w_db (snd (fn now v)))"
      unfolding stays_def by blast
    with s show "safe_for E t (w_db w) (w_db (snd (fn now v)))" by (rule safe_trans)
  qed
  then show "safe_for E t (w_db w) (w_db (snd (WithTenantTx E u fn w)))"
    using w by (simp add: keeps_def safe_same)
qed

lemma stays_inert: "inert m \<Longrightarrow> stays E t m"
  by (simp add: inert_def stays_def safe_same)

lemma stays_ports [staying]:
  assumes "inert_ports D"
  shows "stays E t (p_download D k f)" "stays E t (p_mkdir D)" "stays E t (p_stat D x)"
    "stays E t (p_detect D x)" "stays E t (p_transcribe D x)" "stays E t (p_parse D x y)"
    "stays E t (p_embed D ts)" "stays E t (p_llm D x y)"
  using assms by (simp_all add: inert_ports_def stays_inert)

lemma stays_deferred [staying]:
  "stays E t m \<Longrightarrow> inert_ports D \<Longrightarrow> stays E t (deferred (p_rmdir D x) m)"
  by (simp add: stays_def deferred_def inert_ports_def split_beta)

lemma stays_repos [staying]:
  assumes "quiet E" "pg_uuid (e_pg E) t0 = Some t"
  shows "stays E t (Videos_DeleteByJobID E i t0)" "stays E t (Videos_FailByJobID E i t0)"
    "stays E t (Videos_UpdateStatus E i t0 st)" "stays E t (Segments_ListNamesByJobID E i t0)"
    "stays E t (Segments_EnsureByName E t0 nm)" "stays E t (Jobs_UpdateStatus E i t0 st sg msg)"
    "stays E t (Segments_AttachVideoSegments E (e_uuid E n) t0 ids)"
proof -
  show "stays E t (Segments_AttachVideoSegments E (e_uuid E n) t0 ids)"
    unfolding Segments_AttachVideoSegments_def
    by (intro stays_tx stays_each stays_stmt within_attach assms)
qed (unfold Videos_DeleteByJobID_def Videos_FailByJobID_def Videos_UpdateStatus_def
    Segments_ListNamesByJobID_def Segments_EnsureByName_def Jobs_UpdateStatus_def,
  (intro staying within_delete within_video_status within_status within_ensure within_read reading;
    simp add: assms)+)

lemma stays_video_create:
  assumes "quiet E" "pg_uuid (e_pg E) (v_tenant v) = Some t"
  shows "stays E t (Videos_Create E v)"
  unfolding Videos_Create_def by (intro staying within_create) (use assms in simp_all)

lemma stays_transcript_repo:
  assumes "quiet E" "pg_uuid (e_pg E) (t_tenant r) = Some t" "t_video r = e_uuid E n"
  shows "stays E t (Transcripts_Upsert E r)"
  unfolding Transcripts_Upsert_def by (intro staying within_transcript [where n = n]) (use assms in simp_all)

lemma stays_summary_repo:
  assumes "quiet E" "pg_uuid (e_pg E) (m_tenant m) = Some t" "m_video m = e_uuid E n"
  shows "stays E t (Summaries_Upsert E m)"
  unfolding Summaries_Upsert_def by (intro staying within_summary [where n = n]) (use assms in simp_all)

lemma stays_chunks_repo:
  assumes "quiet E" "\<And>c. c \<in> set cs \<Longrightarrow> pg_uuid (e_pg E) (c_tenant c) = Some t \<and> c_video c = e_uuid E n"
  shows "stays E t (Chunks_Insert E cs)"
proof (cases cs)
  case (Cons c0 rest)
  have "stays E t (andthen (stmt E (InsertChunk_q (e_pg E)
      (c\<lparr>c_index := wrap32 (c_index c), c_created := fromTime (c_created c)\<rparr>))) (\<lambda>_. ret ()))" if "c \<in> set cs" for c
    by (intro staying within_chunk [where n = n]) (use assms(2) [OF that] in simp_all)
  then have "stays E t (WithTenantTx E (c_tenant c0) (\<lambda>now.
      for_each (\<lambda>c. andthen (stmt E (InsertChunk_q (e_pg E)
          (c\<lparr>c_index := wrap32 (c_index c), c_created := fromTime (c_created c)\<rparr>))) (\<lambda>_. ret ())) cs))"
    by (intro stays_tx stays_each assms(1))
  then show ?thesis by (simp add: Chunks_Insert_def Cons)
qed (simp add: Chunks_Insert_def staying)

text \<open>\<open>yields P m\<close>: a result of \<open>m\<close> satisfies \<open>P\<close>.\<close>

definition yields :: "('a \<Rightarrow> bool) \<Rightarrow> ('e, 'w, 'a) io \<Rightarrow> bool" where
  "yields P m \<longleftrightarrow> (\<forall>w a w'. m w = (Inr a, w') \<longrightarrow> P a)"

lemma yieldsD: "yields P m \<Longrightarrow> m w = (Inr a, w') \<Longrightarrow> P a"
  unfolding yields_def by blast

lemma yields_ret: "yields P (ret a) = P a"
  by (simp add: yields_def ret_def)

lemma yields_andthen:
  "yields Q m \<Longrightarrow> (\<And>a. Q a \<Longrightarrow> yields P (f a)) \<Longrightarrow> yields P (andthen m f)"
  by (fastforce simp: yields_def andthen_def split: prod.splits sum.splits)

lemma yields_any: "yields (\<lambda>_. True) m"
  by (simp add: yields_def)

lemma yields_collect: "(\<And>x. yields P (f x)) \<Longrightarrow> yields (list_all P) (for_collect f xs)"
  by (induction xs) (auto simp: yields_ret intro!: yields_andthen)

lemma yields_chunks:
  "yields (list_all (\<lambda>c. c_tenant c = j_tenant job \<and> c_video c = v_id video)) (embed_batches E D job video now n bs)"
proof (induction bs arbitrary: n)
  case (Cons b bs)
  have row: "yields (\<lambda>c. c_tenant c = j_tenant job \<and> c_video c = v_id video)
      (andthen (newUUIDString E) (\<lambda>u. ret (chunk_row job video now embs n it u)))" for embs it
    by (rule yields_andthen [OF yields_any]) (simp add: yields_ret chunk_row_def)
  show ?case unfolding embed_batches.simps
    by (intro yields_andthen [OF yields_any] yields_andthen [OF yields_collect [OF row]] yields_andthen [OF Cons.IH])
      (simp add: yields_ret)
qed (simp add: yields_ret)

lemma yields_sections:
  "yields (list_all (\<lambda>c. c_tenant c = j_tenant job \<and> c_video c = v_id video)) (embedSections E D job video ss)"
  unfolding embedSections_def by (rule yields_andthen [OF yields_any yields_chunks])

text \<open>The job is a job of the tenant \<open>t\<close>, and the video of the run has a drawn id.\<close>

definition job_of :: "environ \<Rightarrow> string \<Rightarrow> job \<Rightarrow> video \<Rightarrow> bool" where
  "job_of E t job video \<longleftrightarrow> pg_uuid (e_pg E) (j_tenant job) = Some t \<and> (\<exists>n. v_id video = e_uuid E n)"

lemma job_of_tenant: "job_of E t job video \<Longrightarrow> pg_uuid (e_pg E) (j_tenant job) = Some t"
  by (simp add: job_of_def)

lemma stays_stage [staying]:
  "quiet E \<Longrightarrow> pg_uuid (e_pg E) (j_tenant job) = Some t \<Longrightarrow> stays E t (setStage E job stage)"
  unfolding setStage_def by (intro staying) (simp_all add: stays_def safe_same)

lemma stays_copy:
  "quiet E \<Longrightarrow> pg_uuid (e_pg E) (j_tenant job) = Some t \<Longrightarrow> stays E t (copyJobSegments E job (e_uuid E n))"
  unfolding copyJobSegments_def by (intro staying)

lemma stays_transcript [staying]:
  assumes "quiet E" "job_of E t job video"
  shows "stays E t (upsert_transcript E job video tr)"
proof -
  obtain n where n: "v_id video = e_uuid E n" using assms(2) unfolding job_of_def by blast
  show ?thesis unfolding upsert_transcript_def Let_def
    by (intro staying stays_transcript_repo [where n = n]) (simp_all add: assms n job_of_tenant [OF assms(2)])
qed

lemma stays_validate [staying]: "inert_ports D \<Longrightarrow> stays E t (validateMediaFile D p k kd n)"
  unfolding validateMediaFile_def by (intro staying)

lemma stays_extract [staying]:
  "quiet E \<Longrightarrow> inert_ports D \<Longrightarrow> job_of E t job video \<Longrightarrow> stays E t (extractTranscript E D job video)"
  unfolding extractTranscript_def extract_from_def by (intro staying job_of_tenant)

lemma stays_batches: "inert_ports D \<Longrightarrow> stays E t (embed_batches E D job video now n bs)"
  by (induction E D job video now n bs rule: embed_batches.induct) (simp_all, intro staying; simp)+

lemma stays_embed [staying]: "inert_ports D \<Longrightarrow> stays E t (embedSections E D job video ss)"
  unfolding embedSections_def by (intro staying stays_batches)

lemma stays_record:
  assumes "quiet E" "job_of E t job video"
  shows "stays E t (recordSummary E job video s)"
proof -
  obtain n where n: "v_id video = e_uuid E n" using assms(2) unfolding job_of_def by blast
  show ?thesis unfolding recordSummary_def
    by (intro staying stays_summary_repo [where n = n]) (simp_all add: assms n job_of_tenant [OF assms(2)])
qed

lemma stays_generate [staying]:
  fixes D :: "'y pipeline"
  assumes "quiet E" "inert_ports D" "job_of E t job video"
  shows "stays E t (generateSummary E D job video tr)"
proof -
  have r: "stays E t (andthen (summary_row E st c l m e) (recordSummary E job video) :: ('y, unit) jact)" for st c l m e
    unfolding summary_row_def by (intro staying stays_record assms)
  show ?thesis unfolding stays_def
  proof (intro allI impI)
    fix w :: "'y job_world_scheme"
    assume w: "family_ok (w_db w)" "fresh_for E t (w_db w)"
    obtain x w1 where x: "summarize_attempts D (t_content tr) summaryAttempts (Leaf []) w = (x, w1)" by fastforce
    have e: "w_db w1 = w_db w" using preservesD [OF preserves_attempts [OF assms(2), of "\<lambda>d. d"] x] .
    show "safe_for E t (w_db w) (w_db (snd (generateSummary E D job video tr w)))"
      by (cases x) (use w in \<open>simp_all add: generateSummary_def x ret_def safe_same stays_from [OF r e]\<close>)
  qed
qed

lemma stays_run_from [staying]:
  assumes "quiet E" "inert_ports D" "job_of E t job video"
  shows "stays E t (run_from E D job video tr)"
proof -
  note t = job_of_tenant [OF assms(3)]
  obtain n where n: "v_id video = e_uuid E n" using assms(3) unfolding job_of_def by blast
  have c: "stays E t (Chunks_Insert E cs)"
    if "embedSections E D job video ss w = (Inr cs, w')" for cs ss w w'
    using yieldsD [OF yields_sections that]
    by (intro stays_chunks_repo [where n = n]) (simp_all add: assms list_all_iff t n)
  show ?thesis unfolding run_from_def
    by (intro stays_andthen stays_bind [OF stays_embed]) (intro staying assms t; (erule c)?)+
qed

lemma stays_run:
  fixes D :: "'y pipeline"
  assumes "quiet E" "inert_ports D" "pg_uuid (e_pg E) (j_tenant job) = Some t"
  shows "stays E t (run E D job)"
proof -
  have rest: "stays E t (let video = \<lparr>v_id = u, v_tenant = j_tenant job, v_job = j_id job, v_title = j_title job,
          v_kind = j_kind job, v_file_key = j_file_key job, v_status = ''processing'', v_duration = None,
          v_deleted = None, v_created = now, v_updated = now\<rparr>
        in andthen (map_err (wrapf ''worker: create video'') (Videos_Create E video)) (\<lambda>_.
           andthen (map_err (wrapf ''worker: copy job segments'') (copyJobSegments E job u)) (\<lambda>_.
           andthen (extractTranscript E D job video) (run_from E D job video))) :: ('y, unit) jact)"
    if "newUUIDString E w = (Inr u, w')" for u now and w w' :: "'y job_world_scheme"
  proof -
    from that have u: "u = e_uuid E (w_tick w)" by (simp add: newUUIDString_def)
    show ?thesis unfolding u Let_def
      by (intro staying stays_video_create stays_copy assms) (simp_all add: assms job_of_def, blast+)
  qed
  show ?thesis unfolding run_def
    by (intro stays_andthen [OF stays_map_err] stays_andthen [OF stays_basic(3)] stays_repos assms
        stays_bind [OF stays_basic(4)]) (rule rest)
qed

lemma stays_fail:
  assumes "quiet E" "pg_uuid (e_pg E) (j_tenant job) = Some t"
  shows "stays E t (fail_job E job e)"
proof -
  have "stays E t (\<lambda>w. best_effort (Jobs_UpdateStatus E (j_id job) (j_tenant job) ''failed'' (jw_stage w) m) w)" for m
    by (simp add: stays_def stays_best_effort [OF stays_repos(6) [OF assms], unfolded stays_def])
  then show ?thesis unfolding fail_job_def by (intro staying assms)
qed

lemma get_all_row:
  assumes "Jobs_GetByIDAllTenants E i0 w = (Inr job, w')" "quiet E"
  shows "job \<in> set (d_jobs (w_db w)) \<and> pg_uuid (e_pg E) i0 = Some (j_id job)"
proof -
  obtain row where row: "pool_stmt E (\<lambda>now. GetJobByIDAllTenants_q (e_pg E) i0) w = (Inr row, w')" "job = row"
    using assms(1) by (auto simp: Jobs_GetByIDAllTenants_def io_ok)
  then have "row \<in> set (d_jobs (w_db w)) \<and> pg_uuid (e_pg E) i0 = Some (j_id row)"
    using assms(2) by (auto simp: pool_stmt_def stmt_def quiet_def GetJobByIDAllTenants_q_def uuid_arg_def
        one_row_def violation_def fail_def ret_def filter_eq_Cons_iff
        split: option.splits list.splits prod.splits if_splits)
  with row(2) show ?thesis by simp
qed

lemma process_job_safe:
  assumes "quiet E" "inert_ports D" "family_ok (w_db w)" "fresh_for E t (w_db w)" "pg_uuid (e_pg E) t = Some t"
    "\<And>j. j \<in> set (d_jobs (w_db w)) \<Longrightarrow> pg_uuid (e_pg E) i0 = Some (j_id j) \<Longrightarrow> j_tenant j = t"
  shows "safe_for E t (w_db w) (w_db (ProcessJob E D i0 w))"
proof -
  obtain x w1 where g: "Jobs_GetByIDAllTenants E i0 w = (x, w1)" by fastforce
  have d: "w_db w1 = w_db w" using preservesD [OF preserves_get_all [OF assms(1), of "\<lambda>d. d"] g] .
  show ?thesis
  proof (cases x)
    case (Inl e)
    with g d assms(3,4) show ?thesis by (simp add: ProcessJob_def safe_same)
  next
    case (Inr job)
    from get_all_row [OF g [unfolded Inr] assms(1)] assms(5,6)
    have t: "pg_uuid (e_pg E) (j_tenant job) = Some t" by simp
    obtain y w2 where r: "run E D job (w1\<lparr>jw_stage := j_stage job\<rparr>) = (y, w2)" by fastforce
    have s: "safe_for E t (w_db w) (w_db w2)"
      using staysD [OF stays_run [OF assms(1,2) t] r] d assms(3,4) by simp
    have "safe_for E t (w_db w2) (w_db (snd (fail_job E job e w2)))" for e
      using safeD [OF s] by (intro stays_from [OF stays_fail [OF assms(1) t] refl]) simp_all
    with s g r Inr show ?thesis by (cases y) (auto simp: ProcessJob_def intro: safe_trans)
  qed
qed

text \<open>
  A job's pipeline stays within the job's tenant: whatever the file, the providers and the LLM
  do, and wherever a fault breaks it off, \<open>ProcessJob\<close> leaves every row of every other tenant as
  it was, and the rows that hang on a video keep its tenant.
\<close>

theorem worker_isolation:
  assumes "quiet E" "inert_ports D" "family_ok (w_db w)" "fresh_for E t (w_db w)" "pg_uuid (e_pg E) t = Some t"
    "\<And>j. j \<in> set (d_jobs (w_db w)) \<Longrightarrow> pg_uuid (e_pg E) i0 = Some (j_id j) \<Longrightarrow> j_tenant j = t"
  shows "outside t (w_db (ProcessJob E D i0 w)) = outside t (w_db w) \<and> family_ok (w_db (ProcessJob E D i0 w))"
  using process_job_safe [OF assms] by (simp add: safe_for_def)

lemma outside_rows:
  assumes "outside t d = outside t d'"
  shows "filter (\<lambda>v. v_tenant v \<noteq> t) (d_videos d) = filter (\<lambda>v. v_tenant v \<noteq> t) (d_videos d')"
    "filter (\<lambda>r. t_tenant r \<noteq> t) (d_transcripts d) = filter (\<lambda>r. t_tenant r \<noteq> t) (d_transcripts d')"
  using arg_cong [OF assms, of d_videos] arg_cong [OF assms, of d_transcripts] by (simp_all add: outside_def)

text \<open>A database where another tenant has a video with a transcript, and the job has one of its own.\<close>

definition other_video :: video where
  "other_video = demo_video\<lparr>v_id := ''x'', v_tenant := ''o'', v_job := ''k''\<rparr>"

definition other_transcript :: transcript where
  "other_transcript = (transcript_of ''theirs'' None ''m'')\<lparr>t_id := ''y'', t_tenant := ''o'', t_video := ''x''\<rparr>"

definition two_tenants :: "string list job_world_scheme" where
  "two_tenants = queue_world\<lparr>w_db := (w_db queue_world)\<lparr>d_tenants := [''t'', ''o''],
     d_videos := [demo_video\<lparr>v_job := ''a''\<rparr>, other_video], d_transcripts := [other_transcript]\<rparr>\<rparr>"

theorem worker_isolation_witness:
  "filter (\<lambda>v. v_tenant v \<noteq> ''t'') (d_videos (w_db (ProcessJob demo_env queue_pipe ''a'' two_tenants))) = [other_video] \<and>
   filter (\<lambda>r. t_tenant r \<noteq> ''t'') (d_transcripts (w_db (ProcessJob demo_env queue_pipe ''a'' two_tenants))) = [other_transcript]"
proof -
  have "family_ok (w_db two_tenants)" "fresh_for demo_env ''t'' (w_db two_tenants)"
    by (simp_all add: family_ok_def fresh_for_def owned_def two_tenants_def queue_world_def demo_db_def demo_video_def
        other_video_def other_transcript_def demo_chunk_def demo_env_def demo_pg_def)
  moreover have "pg_uuid (e_pg demo_env) ''t'' = Some ''t''" by (simp add: demo_env_def demo_pg_def)
  moreover have "j_tenant j = ''t''" if "j \<in> set (d_jobs (w_db two_tenants))" for j
    using that by (auto simp: two_tenants_def queue_world_def queue_job_def demo_job_def)
  ultimately have "outside ''t'' (w_db (ProcessJob demo_env queue_pipe ''a'' two_tenants)) = outside ''t'' (w_db two_tenants)"
    using worker_isolation [OF queue_facts(1,3), of two_tenants "''t''" "''a''"] by blast
  moreover have "filter (\<lambda>v. v_tenant v \<noteq> ''t'') (d_videos (w_db two_tenants)) = [other_video]"
    "filter (\<lambda>r. t_tenant r \<noteq> ''t'') (d_transcripts (w_db two_tenants)) = [other_transcript]"
    by (simp_all add: two_tenants_def demo_video_def other_video_def other_transcript_def)
  ultimately show ?thesis using outside_rows by metis
qed

end
