(* ===== verification/SystemRuns.thy ===== *)
theory SystemRuns
  imports Wiring WorkerTenancy
begin

text \<open>
  The API server and the worker on one database: a run is a sequence of requests, refused requests,
  claims, jobs and retention passes, each of them acting for one tenant. What the theories before
  show of each kind of step is put together to properties of whole runs.
\<close>

section \<open>Rows of a tenant\<close>

definition inside :: "string \<Rightarrow> db \<Rightarrow> db" where
  "inside t d = d\<lparr>
     d_keys := filter (\<lambda>r. k_tenant r = t) (d_keys d),
     d_intents := filter (\<lambda>r. i_tenant r = t) (d_intents d),
     d_jobs := filter (\<lambda>r. j_tenant r = t) (d_jobs d),
     d_segments := filter (\<lambda>r. s_tenant r = t) (d_segments d),
     d_job_segments := filter (\<lambda>r. l_tenant r = t) (d_job_segments d),
     d_videos := filter (\<lambda>r. v_tenant r = t) (d_videos d),
     d_video_segments := filter (\<lambda>r. l_tenant r = t) (d_video_segments d),
     d_transcripts := filter (\<lambda>r. t_tenant r = t) (d_transcripts d),
     d_chunks := filter (\<lambda>r. c_tenant r = t) (d_chunks d),
     d_summaries := filter (\<lambda>r. m_tenant r = t) (d_summaries d),
     d_audit := filter (\<lambda>r. a_tenant r = t) (d_audit d)\<rparr>"

lemma filter_other: "t \<noteq> u \<Longrightarrow> filter (\<lambda>r. tn r = t) (filter (\<lambda>r. tn r \<noteq> u) rs) = filter (\<lambda>r. tn r = t) rs"
  by (induction rs) auto

lemma inside_outside: "t \<noteq> u \<Longrightarrow> inside t (outside u d) = inside t d"
  by (simp add: inside_def outside_def filter_other del: filter_filter)

lemma other_tenant_same: "outside u d' = outside u d \<Longrightarrow> t \<noteq> u \<Longrightarrow> inside t d' = inside t d"
  by (metis inside_outside)

section \<open>The API and the rows of videos\<close>

text \<open>What \<open>family_ok\<close> looks at.\<close>

definition family_rows :: "db \<Rightarrow> (string \<times> string) list \<times> link list \<times> transcript list \<times> chunk list \<times> summary list" where
  "family_rows d = (map (\<lambda>v. (v_id v, v_tenant v)) (d_videos d), d_video_segments d, d_transcripts d, d_chunks d, d_summaries d)"

lemma family_rows_ok: "family_rows d' = family_rows d \<Longrightarrow> family_ok d' = family_ok d"
proof -
  assume e: "family_rows d' = family_rows d"
  then have v: "map (\<lambda>v. (v_id v, v_tenant v)) (d_videos d') = map (\<lambda>v. (v_id v, v_tenant v)) (d_videos d)"
    by (simp add: family_rows_def)
  from arg_cong [OF v, of "map fst"] have i: "map v_id (d_videos d') = map v_id (d_videos d)" by (simp add: comp_def)
  from v have "owned d' = owned d" unfolding owned_def set_map [symmetric] by (simp add: fun_eq_iff)
  with i e show ?thesis by (simp add: family_ok_def family_rows_def)
qed

lemma family_rows_same:
  "family_rows (snd (CreateUploadIntent P a d)) = family_rows d"
  "family_rows (snd (MarkUploadIntentConsumed P now key t d)) = family_rows d"
  "family_rows (snd (CreateJob_q P j d)) = family_rows d"
  "family_rows (snd (RetryJob_q P now i t d)) = family_rows d"
  "family_rows (snd (EnsureSegmentByName P s d)) = family_rows d"
  "family_rows (snd (AttachJobSegment P job sg t d)) = family_rows d"
  "family_rows (snd (InsertAuditLog P l d)) = family_rows d"
  "family_rows (snd (TouchAPIKeyLastUsed P now k d)) = family_rows d"
  "family_rows (snd (ClaimNextPendingJob_q now locked d)) = family_rows d"
  by (auto simp: family_rows_def CreateUploadIntent_def MarkUploadIntentConsumed_def CreateJob_q_def RetryJob_q_def EnsureSegmentByName_def AttachJobSegment_def attach_def InsertAuditLog_def TouchAPIKeyLastUsed_def ClaimNextPendingJob_q_def uuid_arg_def violation_def fail_def guarded_snd Let_def split: option.split list.split)

lemma family_rows_delete: "family_rows (snd (SoftDeleteVideo_q P now i t d)) = family_rows d"
  by (auto simp: family_rows_def SoftDeleteVideo_q_def uuid_arg_def violation_def fail_def update_rows_def
      Let_def comp_def split: option.split intro!: map_cong)

lemma preserves_cases [preserving]:
  "(\<And>a. preserves g (m a)) \<Longrightarrow> (\<And>b. preserves g (n b)) \<Longrightarrow> preserves g (case x of Inl a \<Rightarrow> m a | Inr b \<Rightarrow> n b)"
  "preserves g k \<Longrightarrow> (\<And>b. preserves g (n b)) \<Longrightarrow> preserves g (case y of None \<Rightarrow> k | Some b \<Rightarrow> n b)"
  "(\<And>a b. preserves g (h a b)) \<Longrightarrow> preserves g (case p of (a, b) \<Rightarrow> h a b)"
  "preserves g (lift_sum r)" "preserves g (f v) \<Longrightarrow> preserves g (Let v f)"
  by (simp_all add: lift_sum_def preserves_basic split: sum.split option.split prod.split)

lemma family_rows_read: "read_only q \<Longrightarrow> family_rows (snd (q d)) = family_rows d"
  by (simp add: read_only_def)

lemmas family_statements = family_rows_same family_rows_delete read_only_queries [THEN family_rows_read]
  read_only_search [THEN family_rows_read]

lemma preserves_writing: "quiet E \<Longrightarrow> (\<And>now d. g (snd (q now d)) = g d) \<Longrightarrow> preserves g (pool_stmt E q)"
  unfolding preserves_def pool_stmt_def
  by (simp add: quiet_def stmt_def split: option.split prod.split) (metis snd_conv)

lemma family_repositories [preserving]:
  assumes "quiet E"
  shows "preserves family_rows (GetByHash E h)" "preserves family_rows (TouchLastUsed E k)"
    "preserves family_rows (Intents_Create E a)" "preserves family_rows (Jobs_List E t status page limit)"
    "preserves family_rows (Jobs_Count E t status)" "preserves family_rows (Jobs_GetByID E id0 t)"
    "preserves family_rows (Jobs_Retry E id0 t)" "preserves family_rows (Segments_ListNamesByJobID E id0 t)"
    "preserves family_rows (Segments_ListNamesByVideoID E id0 t)"
    "preserves family_rows (Videos_List E t name1 status page limit)"
    "preserves family_rows (Videos_Count E t name1 status)" "preserves family_rows (Videos_GetByID E id0 t)"
    "preserves family_rows (Videos_SoftDelete E id0 t)" "preserves family_rows (Summaries_GetByVideoID E id0 t)"
    "preserves family_rows (Chunks_Search E t emb name1 limit)" "preserves family_rows (InsertAudit E al j)"
  unfolding GetByHash_def TouchLastUsed_def Intents_Create_def Jobs_List_def Jobs_Count_def Jobs_GetByID_def
    Jobs_Retry_def Segments_ListNamesByJobID_def Segments_ListNamesByVideoID_def Videos_List_def Videos_Count_def
    Videos_GetByID_def Videos_SoftDelete_def Summaries_GetByVideoID_def Chunks_Search_def withSegments_def InsertAudit_def
  by (intro preserving preserves_writing family_statements assms)+

lemma preserves_handler_ports [preserving]:
  assumes "ports_inert H"
  shows "preserves g (h_presign H k c x)" "preserves g (h_embed H ts)" "preserves g (h_llm H p u)" "preserves g (h_ping H)"
  using assms by (simp_all add: ports_inert_def preserves_def)

lemma preserves_optional_summary [preserving]: "quiet E \<Longrightarrow> preserves family_rows (optional_summary E vid t)"
proof -
  assume q: "quiet E"
  show ?thesis unfolding preserves_def
  proof
    fix w :: "'a world_scheme"
    obtain r w1 where s: "Summaries_GetByVideoID E vid t w = (r, w1)" by fastforce
    with preservesD [OF family_repositories(14) [OF q] s]
    show "family_rows (w_db (snd (optional_summary E vid t w))) = family_rows (w_db w)"
      by (auto simp: optional_summary_def split: sum.split)
  qed
qed

lemma preserves_hits: "(\<And>v t. preserves g (rag_names s v t)) \<Longrightarrow> preserves g (collect_hits s u hits refs doc)"
  by (induction hits arbitrary: refs doc) (auto intro!: preserving)

lemma preserves_answer [preserving]:
  assumes "quiet E" "ports_inert H"
  shows "preserves family_rows (Answer (rag_of E H) t q seg k)"
proof -
  have p: "preserves family_rows (rag_embed (rag_of E H) ts)" "preserves family_rows (rag_llm (rag_of E H) a b)"
    "preserves family_rows (rag_search (rag_of E H) t' emb n' l)" "preserves family_rows (rag_names (rag_of E H) v u)"
    for ts a b t' emb n' l v u
    using assms by (simp_all add: rag_of_def preserves_handler_ports family_repositories)
  show ?thesis unfolding Answer_def answer_hits_def by (intro preserving preserves_hits p)
qed

lemma family_handlers [preserving]:
  assumes "quiet E" "ports_inert H"
  shows "preserves family_rows (dispatch E H i req)"
  unfolding dispatch_def Health_def CreateUploadIntent_h_def CreateJob_def create_job_tx_def ensure_segment_def
    insert_job_def ListJobs_def GetJob_def RetryJob_def ListVideos_def GetVideo_def DeleteVideo_def Query_def insertAudit_def
  by (cases "ar_route req"; simp only: route.case; intro preserving family_statements assms)

lemma family_serve:
  assumes "quiet E" "ports_inert H"
  shows "family_ok (w_db (snd (serve rnd E H req w))) = family_ok (w_db w)"
proof -
  have l: "preserves family_rows (limit_admin rnd E i ip)" "preserves family_rows (limit_query rnd E i ip)" for i ip
    by (auto simp: preserves_def limit_admin_def limit_query_def split: prod.split)
  have "preserves family_rows (guarded_route rnd E H req)"
    unfolding guarded_route_def authenticate_def RequireScope_def by (intro preserving l assms)
  then show ?thesis by (intro family_rows_ok) (simp add: serve_def respond_db preserves_def)
qed

section \<open>Steps\<close>

text \<open>
  A refused request presents a key that is not stored or is revoked. A claim or a job acts for the
  tenant of its job, whose id and tenant are uuids in the form the database prints them, and the
  uuids drawn for the rows of a job are not ids of videos of other tenants.
\<close>

definition job_known :: "environ \<Rightarrow> job \<Rightarrow> db \<Rightarrow> bool" where
  "job_known E job d \<longleftrightarrow> job \<in> set (d_jobs d) \<and> pg_uuid (e_pg E) (j_tenant job) = Some (j_tenant job) \<and>
     pg_uuid (e_pg E) (j_id job) = Some (j_id job) \<and> (\<forall>j \<in> set (d_jobs d). j_id j = j_id job \<longrightarrow> j_tenant j = j_tenant job)"

lemma job_knownD:
  assumes "job_known E job d"
  shows "j \<in> set (d_jobs d) \<Longrightarrow> j_id j = j_id job \<Longrightarrow> j_tenant j = j_tenant job"
    "pg_uuid (e_pg E) (j_tenant job) = Some (j_tenant job)" "pg_uuid (e_pg E) (j_id job) = Some (j_id job)"
  using assms unfolding job_known_def by blast+

inductive sys_step :: "'y api_world_ext handler \<Rightarrow> 'x pipeline \<Rightarrow> string \<Rightarrow> db \<Rightarrow> db \<Rightarrow> bool" for H D where
  Request: "quiet E \<Longrightarrow> key_of E (w_db w) (h_sha256_hex H (ar_key req)) k \<Longrightarrow>
    sys_step H D (k_tenant k) (w_db w) (w_db (snd (serve rnd E H req w)))"
| Refused: "quiet E \<Longrightarrow> route_scope (ar_route req) = Some scope \<Longrightarrow>
    (\<And>k. k \<in> set (d_keys (w_db w)) \<Longrightarrow> k_hash k = h_sha256_hex H (ar_key req) \<Longrightarrow> k_revoked k \<noteq> None) \<Longrightarrow>
    sys_step H D t (w_db w) (w_db (snd (serve rnd E H req w)))"
| Claimed: "quiet E \<Longrightarrow> Jobs_ClaimNextPending E (w :: 'x job_world_scheme) = (Inr (Some job), w') \<Longrightarrow> job_known E job (w_db w') \<Longrightarrow>
    sys_step H D (j_tenant job) (w_db w) (w_db w')"
| Processed: "quiet E \<Longrightarrow> job_known E job (w_db w) \<Longrightarrow> fresh_for E (j_tenant job) (w_db w) \<Longrightarrow>
    sys_step H D (j_tenant job) (w_db w) (w_db (ProcessJob E D (j_id job) w))"
| Swept: "quiet E \<Longrightarrow> sys_step H D t (w_db w) (w_db (snd (runRetention E D w)))"

text \<open>A run, with the tenants its steps act for.\<close>

inductive sys_run :: "'y api_world_ext handler \<Rightarrow> 'x pipeline \<Rightarrow> string list \<Rightarrow> db \<Rightarrow> db \<Rightarrow> bool" for H D where
  Done: "sys_run H D [] d d"
| Step: "sys_step H D t d d1 \<Longrightarrow> sys_run H D ts d1 d2 \<Longrightarrow> sys_run H D (t # ts) d d2"

lemma claim_steps:
  fixes w :: "'z world_scheme"
  assumes "quiet E" "Jobs_ClaimNextPending E w = (Inr (Some job), w')" "job_known E job (w_db w')"
  shows "outside (j_tenant job) (w_db w') = outside (j_tenant job) (w_db w)" "family_ok (w_db w') = family_ok (w_db w)"
proof -
  obtain now locked where d: "w_db w' = snd (ClaimNextPendingJob_q now locked (w_db w))"
    "fst (ClaimNextPendingJob_q now locked (w_db w)) = Inr job"
    using assms(1,2) by (auto simp: Jobs_ClaimNextPending_def pool_stmt_def stmt_def quiet_def
        split: prod.splits sum.splits option.splits if_splits) (metis fst_conv snd_conv)+
  have "family_rows (w_db w') = family_rows (w_db w)" unfolding d(1) by (rule family_rows_same)
  then show "family_ok (w_db w') = family_ok (w_db w)" by (rule family_rows_ok)
  obtain n ns where n: "sort_key j_created (filter (\<lambda>j. j_status j = ''pending'' \<and> \<not> locked j) (d_jobs (w_db w))) = n # ns"
    using d(2) by (auto simp: ClaimNextPendingJob_q_def split: list.splits)
  let ?hit = "\<lambda>j. j_id j = j_id n" and ?f = "claim_update now"
  have upd: "d_jobs (w_db w') = update_rows ?hit ?f (d_jobs (w_db w))" "w_db w' = (w_db w)\<lparr>d_jobs := update_rows ?hit ?f (d_jobs (w_db w))\<rparr>"
    unfolding d(1) by (simp_all add: ClaimNextPendingJob_q_def n Let_def)
  have job: "j_id job = j_id n"
    using d(2) by (auto simp: ClaimNextPendingJob_q_def n one_row_def ret_def fail_def Let_def split: list.splits dest!: filter_Cons_prop)
  have t: "j_tenant j = j_tenant job" if "j \<in> set (d_jobs (w_db w))" "j_id j = j_id n" for j
  proof -
    have "(if ?hit j then ?f j else j) \<in> set (d_jobs (w_db w'))"
      unfolding upd(1) update_rows_def set_map using that(1) by (rule imageI)
    then have "?f j \<in> set (d_jobs (w_db w'))" using that(2) by simp
    from job_knownD(1) [OF assms(3) this] that(2) job show ?thesis by simp
  qed
  have "filter (\<lambda>j. j_tenant j \<noteq> j_tenant job) (update_rows ?hit ?f (d_jobs (w_db w))) =
      filter (\<lambda>j. j_tenant j \<noteq> j_tenant job) (d_jobs (w_db w))"
    by (rule filter_update_at) (use t in simp_all)
  then show "outside (j_tenant job) (w_db w') = outside (j_tenant job) (w_db w)"
    unfolding upd(2) by (simp add: outside_def)
qed

lemma sweep_same:
  fixes w :: "'x job_world_scheme"
  assumes q: "quiet E" "inert_ports D"
  shows "w_db (snd (runRetention E D w)) = w_db w"
proof -
  have r: "preserves (\<lambda>d. d) (Jobs_ListForRetention E older)" for older
    unfolding Jobs_ListForRetention_def by (intro preserving pool_stmt_read reading q)
  have f: "preserves (\<lambda>d. d) (for_each (\<lambda>j. best_effort (p_delete D (rj_file_key j))) js :: ('x, unit) jact)" for js
    by (intro preserving q)
  obtain x w1 where j: "Jobs_ListForRetention E (e_time E (w_tick w) + - retentionAge) (w\<lparr>w_tick := w_tick w + 1\<rparr>) = (x, w1)"
    by fastforce
  note d = preservesD [OF r j]
  show ?thesis
  proof (cases x)
    case (Inr js)
    obtain y w2 where "for_each (\<lambda>j. best_effort (p_delete D (rj_file_key j))) js w1 = (y, w2)" by fastforce
    with preservesD [OF f this] d j Inr show ?thesis by (simp add: runRetention_def time_now_def andthen_def)
  qed (use d j in \<open>simp add: runRetention_def time_now_def andthen_def\<close>)
qed

text \<open>A step changes no row of another tenant than the one it acts for.\<close>

lemma step_outside:
  assumes "sys_step H D t d d'" "ports_inert H" "inert_ports D" "family_ok d"
  shows "outside t d' = outside t d \<and> family_ok d'"
  using assms(1)
proof cases
  case (Request E w req k rnd)
  with serve_outside [OF Request(4) assms(2) Request(5), of rnd] family_serve [OF Request(4) assms(2), of rnd req w] assms(4)
  show ?thesis by simp
next
  case (Refused E req scope w rnd)
  then have "w_db (snd (serve rnd E H req w)) = w_db w"
    using unauthenticated_rejected [of req scope E w H rnd] by (simp add: quiet_def)
  with Refused assms(4) show ?thesis by simp
next
  case (Claimed E w job w')
  with claim_steps [OF Claimed(4-6)] assms(4) show ?thesis by simp
next
  case (Processed E job w)
  have "family_ok (w_db w)" using assms(4) Processed(2) by simp
  moreover have "j_tenant j = j_tenant job" if "j \<in> set (d_jobs (w_db w))" "pg_uuid (e_pg E) (j_id job) = Some (j_id j)" for j
    using job_knownD(1) [OF Processed(5) that(1)] job_knownD(3) [OF Processed(5)] that(2) by simp
  ultimately have "safe_for E (j_tenant job) (w_db w) (w_db (ProcessJob E D (j_id job) w))"
    by (rule process_job_safe [OF Processed(4) assms(3) _ Processed(6) job_knownD(2) [OF Processed(5)]])
  with Processed show ?thesis by (simp add: safe_for_def)
next
  case (Swept E w)
  with sweep_same [OF Swept(3) assms(3)] assms(4) show ?thesis by simp
qed

lemma run_inside:
  assumes "sys_run H D ts d d'" "ports_inert H" "inert_ports D"
  shows "family_ok d \<Longrightarrow> t \<notin> set ts \<Longrightarrow> inside t d' = inside t d \<and> family_ok d'"
  using assms(1)
proof (induction rule: sys_run.induct)
  case (Step u d d1 ts d2)
  from step_outside [OF Step(1) assms(2,3) Step(4)] have s: "outside u d1 = outside u d" "family_ok d1" by simp_all
  from Step(5) have "t \<noteq> u" "t \<notin> set ts" by simp_all
  with Step(3) [OF s(2)] other_tenant_same [OF s(1)] show ?case by simp
qed simp



end
