(* ===== verification/DbInvariant.thy ===== *)
theory DbInvariant
  imports SystemRuns
begin

text \<open>
  Invariants of the database under the whole program. The locale \<open>kept_by_statements\<close> is the contract
  of a predicate that the SQL statements keep when they are called the way the repositories call them
  (\<open>new_job\<close>, \<open>status_call\<close>, \<open>summary_call\<close>, \<open>int32\<close> columns). \<open>db_invariant\<close> adds that the
  other sessions keep it; there the predicate is carried through every repository operation, every
  handler, the pipeline of a job, the claims and the retention pass, whatever faults and lost commits
  do on the way. The interpretations are the schema (\<open>Schema\<close>) and the life cycle of the rows
  (\<open>Lifecycle\<close>).
\<close>

section \<open>How the statements are called\<close>

definition is_int32 :: "int \<Rightarrow> bool" where
  "is_int32 x \<longleftrightarrow> - (2 ^ 31) \<le> x \<and> x < 2 ^ 31"

lemma wrap32_is_int32 [simp]: "is_int32 (wrap32 x)"
  by (simp add: is_int32_def wrap32_def)

definition new_intent :: "upload_intent \<Rightarrow> bool" where
  "new_intent i \<longleftrightarrow> i_status i = ''issued'' \<and> i_consumed i = None"

definition new_job :: "job \<Rightarrow> bool" where
  "new_job j \<longleftrightarrow> j_status j = ''pending'' \<and> j_stage j = ''queued'' \<and> j_error j = None \<and> j_retry j = 0 \<and>
     j_started j = None \<and> j_finished j = None"

text \<open>The worker moves a job on, completes it, or fails it with a message.\<close>

definition status_call :: "string \<Rightarrow> string \<Rightarrow> string option \<Rightarrow> bool" where
  "status_call status stage msg \<longleftrightarrow> (status = ''processing'' \<and> msg = None) \<or>
     (status = ''completed'' \<and> stage = ''completed'' \<and> msg = None) \<or>
     (status = ''failed'' \<and> msg \<noteq> None \<and> msg \<noteq> Some [])"

definition new_video :: "video \<Rightarrow> bool" where
  "new_video v \<longleftrightarrow> v_status v = ''processing'' \<and> v_deleted v = None \<and>
     (case v_duration v of None \<Rightarrow> True | Some n \<Rightarrow> is_int32 n)"

definition summary_call :: "summary \<Rightarrow> bool" where
  "summary_call m \<longleftrightarrow> (m_status m = ''completed'' \<and> m_content m \<noteq> None \<and> m_error m = None) \<or>
     (m_status m = ''failed'' \<and> m_content m = None \<and> m_error m = Some ''summary generation failed'')"

section \<open>The contract\<close>

locale kept_by_statements =
  fixes P :: pg and Q :: "db \<Rightarrow> bool" and A :: "string \<Rightarrow> bool"
  assumes touch: "keeps Q (TouchAPIKeyLastUsed P now i0)"
    and audit: "keeps Q (InsertAuditLog P al)"
    and intent: "new_intent i \<Longrightarrow> keeps Q (CreateUploadIntent P i)"
    and consume: "keeps Q (MarkUploadIntentConsumed P now key t0)"
    and job: "new_job j \<Longrightarrow> keeps Q (CreateJob_q P j)"
    and status: "A i0 \<Longrightarrow> status_call st sg msg \<Longrightarrow> keeps Q (UpdateJobStatus_q P now i0 t0 st sg msg)"
    and retry: "keeps Q (RetryJob_q P now i0 t0)"
    and claim: "keeps Q (ClaimNextPendingJob_q now locked)"
    and segment: "keeps Q (EnsureSegmentByName P sgm)"
    and attach_job: "keeps Q (AttachJobSegment P i0 s0 t0)"
    and attach_video: "keeps Q (AttachVideoSegment P i0 s0 t0)"
    and video: "new_video v \<Longrightarrow> keeps Q (CreateVideo_q P v)"
    and soft_delete: "keeps Q (SoftDeleteVideo_q P now i0 t0)"
    and delete_video: "keeps Q (DeleteVideoByJobID_q P i0 t0)"
    and fail_video: "keeps Q (FailVideoByJobID_q P now i0 t0)"
    and video_status: "keeps Q (UpdateVideoStatus_q P now i0 t0 st)"
    and transcript: "keeps Q (UpsertTranscript P tr)"
    and chunk: "is_int32 (c_index c) \<Longrightarrow> keeps Q (InsertChunk_q P c)"
    and summary: "summary_call m \<Longrightarrow> keeps Q (UpsertSummary P now m)"

context kept_by_statements
begin

lemmas statements = touch audit consume retry claim segment attach_job attach_video soft_delete delete_video
  fail_video video_status transcript intent job status video chunk summary

end

text \<open>A session of the program, among other sessions that keep the predicate as well.\<close>

locale db_invariant = kept_by_statements "e_pg E" Q A for E :: environ and Q :: "db \<Rightarrow> bool" and A :: "string \<Rightarrow> bool" +
  assumes other: "stable E Q"

named_theorems keeping \<open>computations that keep the invariant\<close>

lemma keeps_best_effort [keeping]: "keeps_db Q m \<Longrightarrow> keeps_db Q (best_effort m)"
  by (simp add: keeps_def best_effort_def)

lemma keeps_case_sum [keeping]:
  "(\<And>a. keeps_db Q (f a)) \<Longrightarrow> (\<And>b. keeps_db Q (g b)) \<Longrightarrow> keeps_db Q (case x of Inl a \<Rightarrow> f a | Inr b \<Rightarrow> g b)"
  by (cases x) simp_all

lemma keeps_case_option [keeping]:
  "keeps_db Q f \<Longrightarrow> (\<And>b. keeps_db Q (g b)) \<Longrightarrow> keeps_db Q (case x of None \<Rightarrow> f | Some b \<Rightarrow> g b)"
  by (cases x) simp_all

lemma keeps_case_prod [keeping]: "(\<And>a b. keeps_db Q (f a b)) \<Longrightarrow> keeps_db Q (case p of (a, b) \<Rightarrow> f a b)"
  by (cases p) simp

lemma keeps_let [keeping]: "(\<And>a. keeps_db Q (f a)) \<Longrightarrow> keeps_db Q (Let x f)"
  by simp

lemma keeps_lift_sum [keeping]: "keeps_db Q (lift_sum r)"
  by (cases r) (simp_all add: lift_sum_def io_inv_rules)

lemma keeps_inert: "inert m \<Longrightarrow> keeps_db Q m"
  by (simp add: keeps_def inert_def)

lemma keeps_after: "keeps_db Q m \<Longrightarrow> Q (w_db w) \<Longrightarrow> Q (w_db (snd (m w)))"
  by (simp add: keeps_def)

lemma keeps_read: "read_only q \<Longrightarrow> keeps Q q"
  by (simp add: keeps_def read_only_def)

lemma keeps_hits:
  "(\<And>v t. keeps_db Q (rag_names s v t)) \<Longrightarrow> keeps_db Q (collect_hits s u hits refs doc)"
  by (induction hits arbitrary: refs doc) (auto intro!: io_inv_rules)

section \<open>Through the program\<close>

context db_invariant
begin

lemma tx: "(\<And>now. keeps_db Q (fn now)) \<Longrightarrow> keeps_db Q (WithTenantTx E t fn)"
  by (rule tx_keeps [OF other])

lemma pool: "(\<And>now. keeps Q (q now)) \<Longrightarrow> keeps_db Q (pool_stmt E q)"
  by (rule pool_stmt_keeps [OF other])

lemmas reads = read_only_queries [THEN keeps_read] read_only_search [THEN keeps_read]

lemmas through = tx pool stmt_keeps reads statements

lemma reading_repositories:
  "keeps_db Q (GetByHash E h)" "keeps_db Q (Jobs_List E t st page limit)" "keeps_db Q (Jobs_Count E t st)"
  "keeps_db Q (Jobs_GetByID E i0 t)" "keeps_db Q (Jobs_GetByIDAllTenants E i0)"
  "keeps_db Q (Jobs_ListForRetention E older)" "keeps_db Q (Segments_ListNamesByJobID E i0 t)"
  "keeps_db Q (Segments_ListNamesByVideoID E i0 t)" "keeps_db Q (Videos_List E t name1 st page limit)"
  "keeps_db Q (Videos_Count E t name1 st)" "keeps_db Q (Videos_GetByID E i0 t)"
  "keeps_db Q (Summaries_GetByVideoID E i0 t)" "keeps_db Q (Chunks_Search E t emb name1 limit)"
  unfolding GetByHash_def Jobs_List_def Jobs_Count_def Jobs_GetByID_def Jobs_GetByIDAllTenants_def
    Jobs_ListForRetention_def Segments_ListNamesByJobID_def Segments_ListNamesByVideoID_def Videos_List_def
    Videos_Count_def Videos_GetByID_def Summaries_GetByVideoID_def Chunks_Search_def withSegments_def
  by (intro io_inv_rules keeping through)+

lemma writing_repositories:
  "keeps_db Q (TouchLastUsed E i0)" "keeps_db Q (InsertAudit E al meta)" "keeps_db Q (Jobs_Retry E i0 t)"
  "keeps_db Q (Segments_EnsureByName E t name1)" "keeps_db Q (Segments_AttachVideoSegments E i0 t ids)"
  "keeps_db Q (Videos_SoftDelete E i0 t)" "keeps_db Q (Videos_DeleteByJobID E i0 t)"
  "keeps_db Q (Videos_FailByJobID E i0 t)" "keeps_db Q (Videos_UpdateStatus E i0 t st)"
  "keeps_db Q (Transcripts_Upsert E tr)"
  unfolding TouchLastUsed_def InsertAudit_def Jobs_Retry_def Segments_EnsureByName_def
    Segments_AttachVideoSegments_def Videos_SoftDelete_def Videos_DeleteByJobID_def Videos_FailByJobID_def
    Videos_UpdateStatus_def Transcripts_Upsert_def
  by (intro io_inv_rules keeping through)+

lemma Intents_Create_keeps: "new_intent i \<Longrightarrow> keeps_db Q (Intents_Create E i)"
  unfolding Intents_Create_def by (intro io_inv_rules through) (simp add: new_intent_def fromTimePtr_def)

lemma Jobs_UpdateStatus_keeps: "A i0 \<Longrightarrow> status_call st sg msg \<Longrightarrow> keeps_db Q (Jobs_UpdateStatus E i0 t st sg msg)"
  unfolding Jobs_UpdateStatus_def by (intro io_inv_rules through) (simp_all add: fromStrPtr_def)

lemma Videos_Create_keeps: "new_video v \<Longrightarrow> keeps_db Q (Videos_Create E v)"
  unfolding Videos_Create_def
  by (intro io_inv_rules through) (auto simp: new_video_def fromTimePtr_def fromIntPtr_def split: option.splits)

lemma Chunks_Insert_keeps: "keeps_db Q (Chunks_Insert E cs)"
  unfolding Chunks_Insert_def by (cases cs; simp) (intro io_inv_rules through; simp)+

lemma Summaries_Upsert_keeps: "summary_call m \<Longrightarrow> keeps_db Q (Summaries_Upsert E m)"
  unfolding Summaries_Upsert_def by (intro io_inv_rules through) (simp add: summary_call_def fromStrPtr_def)

lemma claim_keeps: "keeps_db Q (Jobs_ClaimNextPending E)"
  unfolding keeps_def
proof (intro allI impI)
  fix w :: "'z world_scheme"
  assume q: "Q (w_db w)"
  obtain r w1 where p: "pool_stmt E (\<lambda>now. ClaimNextPendingJob_q now (e_locked E (w_tick w))) w = (r, w1)" by fastforce
  have "Q (w_db w1)" by (rule keepsD [OF pool [OF claim] q p])
  then show "Q (w_db (snd (Jobs_ClaimNextPending E w)))"
    by (simp add: Jobs_ClaimNextPending_def p split: sum.split)
qed

lemmas repositories = reading_repositories writing_repositories Intents_Create_keeps Jobs_UpdateStatus_keeps
  Videos_Create_keeps Chunks_Insert_keeps Summaries_Upsert_keeps claim_keeps

lemma optional_summary_keeps: "keeps_db Q (optional_summary E vid t)"
  using reading_repositories(12) by (simp add: keeps_def optional_summary_snd)

lemma answer_keeps:
  assumes "ports_inert H"
  shows "keeps_db Q (Answer (rag_of E H) t q seg k)"
proof -
  have p: "keeps_db Q (rag_embed (rag_of E H) ts)" "keeps_db Q (rag_llm (rag_of E H) a b)"
    "keeps_db Q (rag_search (rag_of E H) u emb n l)" "keeps_db Q (rag_names (rag_of E H) v u)"
    for ts a b u emb n l v
    using assms by (simp_all add: rag_of_def repositories) (simp_all add: ports_inert_def keeps_def)
  show ?thesis unfolding Answer_def answer_hits_def by (intro io_inv_rules keeping keeps_hits p)
qed

lemma handler_ports:
  assumes "ports_inert H"
  shows "keeps_db Q (h_presign H k c x)" "keeps_db Q (h_ping H)"
  using assms by (simp_all add: ports_inert_def keeps_def)

lemma create_job_keeps: "keeps_db Q (create_job_tx E t req txnow)"
  unfolding create_job_tx_def ensure_segment_def insert_job_def
  by (intro io_inv_rules keeping through) (simp add: new_job_def)

lemma record_audit_keeps: "keeps_db Q (insertAudit E H i action obj meta)"
  unfolding insertAudit_def by (intro io_inv_rules repositories)

lemma dispatch_keeps:
  assumes "ports_inert H"
  shows "keeps_db Q (dispatch E H i req)"
  unfolding dispatch_def Health_def CreateUploadIntent_h_def CreateJob_def ListJobs_def GetJob_def
    RetryJob_def ListVideos_def GetVideo_def DeleteVideo_def Query_def
  by (cases "ar_route req"; simp only: route.case;
    intro io_inv_rules keeping repositories tx create_job_keeps record_audit_keeps optional_summary_keeps answer_keeps
      handler_ports assms) (simp add: new_intent_def)

lemma serve_keeps:
  fixes w :: "'y api_world_scheme"
  assumes "ports_inert H" "Q (w_db w)"
  shows "Q (w_db (snd (serve rnd E H req w)))"
proof -
  have l: "keeps_db Q (limit_admin rnd E i ip)" "keeps_db Q (limit_query rnd E i ip)" for i ip
    by (auto simp: keeps_def limit_admin_def limit_query_def split: prod.split)
  have "keeps_db Q (guarded_route rnd E H req)"
    unfolding guarded_route_def authenticate_def RequireScope_def
    by (intro io_inv_rules keeping repositories l dispatch_keeps assms)
  then show ?thesis using assms(2) by (simp add: serve_def respond_db keeps_def)
qed

text \<open>The pipeline of a job.\<close>

lemma pipeline_ports:
  assumes "inert_ports D"
  shows "keeps_db Q (p_download D k f)" "keeps_db Q (p_mkdir D)" "keeps_db Q (p_stat D x)" "keeps_db Q (p_detect D x)"
    "keeps_db Q (p_transcribe D x)" "keeps_db Q (p_parse D x y)" "keeps_db Q (p_embed D ts)" "keeps_db Q (p_llm D x y)"
    "keeps_db Q (p_delete D x)"
  using assms by (simp_all add: inert_ports_def keeps_inert)

lemma stage_keeps: "A (j_id job0) \<Longrightarrow> keeps_db Q (setStage E job0 stage)"
  unfolding setStage_def
  by (intro io_inv_rules repositories) (simp_all add: status_call_def keeps_def)

lemma extract_keeps:
  fixes D :: "'y pipeline"
  assumes "inert_ports D" "A (j_id job0)"
  shows "keeps_db Q (extractTranscript E D job0 video0)"
proof -
  have d: "keeps_db Q (deferred (p_rmdir D x) m)" if "keeps_db Q m" for x and m :: "('y, transcript) jact"
    using assms(1) that by (simp add: keeps_def deferred_def inert_ports_def split_beta)
  show ?thesis
    unfolding extractTranscript_def extract_from_def validateMediaFile_def upsert_transcript_def Let_def
    by (intro d io_inv_rules keeping repositories stage_keeps pipeline_ports assms)
qed

lemma embed_keeps:
  assumes "inert_ports D"
  shows "keeps_db Q (embedSections E D job0 video0 ss)"
proof -
  have "keeps_db Q (embed_batches E D job0 video0 now n bs)" for now n bs
    using assms by (induction E D job0 video0 now n bs rule: embed_batches.induct)
      (simp_all, (intro io_inv_rules pipeline_ports; simp)+)
  then show ?thesis unfolding embedSections_def by (intro io_inv_rules)
qed

lemma summarize_keeps:
  fixes D :: "'y pipeline"
  assumes "inert_ports D"
  shows "keeps_db Q (summarize_attempts D content n e)"
proof (induction n arbitrary: e)
  case (Suc n)
  have s: "keeps_db Q (Summarize (p_summarizer D) (p_llm D) content)"
    unfolding Summarize_def direct_def by (intro io_inv_rules pipeline_ports assms)
  show ?case unfolding keeps_def
  proof (intro allI impI)
    fix w :: "'y job_world_scheme"
    assume "Q (w_db w)"
    obtain r w1 where p: "Summarize (p_summarizer D) (p_llm D) content w = (r, w1)" by fastforce
    have "Q (w_db w1)" by (rule keepsD [OF s \<open>Q (w_db w)\<close> p])
    then show "Q (w_db (snd (summarize_attempts D content (Suc n) e w)))"
      using Suc by (simp add: p keeps_def split: sum.split)
  qed
qed (simp add: io_inv_rules)

lemma generate_keeps:
  fixes D :: "'y pipeline"
  assumes "inert_ports D"
  shows "keeps_db Q (generateSummary E D job0 video0 tr)"
proof -
  have s: "keeps_db Q (andthen (summary_row E st content l mo err) (recordSummary E job0 video0) :: ('y, unit) jact)"
    if "\<And>u t1 t2. summary_call \<lparr>m_id = u, m_tenant = j_tenant job0, m_video = v_id video0, m_status = st,
      m_content = content, m_language = l, m_model = mo, m_error = err, m_created = t1, m_updated = t2\<rparr>"
    for st content l mo err
  proof -
    have "keeps_db Q (recordSummary E job0 video0 \<lparr>m_id = u, m_tenant = [], m_video = [], m_status = st,
        m_content = content, m_language = l, m_model = mo, m_error = err, m_created = t1, m_updated = t2\<rparr> :: ('y, unit) jact)"
      for u t1 t2
      unfolding recordSummary_def by (intro keeping Summaries_Upsert_keeps) (simp add: that)
    then show ?thesis unfolding summary_row_def andthen_assoc andthen_ret_left by (intro io_inv_rules)
  qed
  note a = s [of "''failed''" None None None "Some ''summary generation failed''"]
    and b = s [of "''completed''" "Some content" "t_language tr" "Some summaryModelName" None for content]
  show ?thesis unfolding keeps_def
  proof (intro allI impI)
    fix w :: "'y job_world_scheme"
    assume "Q (w_db w)"
    obtain r w1 where p: "summarize_attempts D (t_content tr) summaryAttempts (Leaf []) w = (r, w1)" by fastforce
    have "Q (w_db w1)" by (rule keepsD [OF summarize_keeps [OF assms] \<open>Q (w_db w)\<close> p])
    then show "Q (w_db (snd (generateSummary E D job0 video0 tr w)))"
      using a b \<open>Q (w_db w)\<close>
      by (cases r) (auto simp: generateSummary_def p keeps_def summary_call_def ret_def)
  qed
qed

lemma run_keeps:
  assumes "inert_ports D" "A (j_id job0)"
  shows "keeps_db Q (run E D job0)"
  unfolding run_def run_from_def copyJobSegments_def Let_def
  by (intro io_inv_rules keeping repositories stage_keeps extract_keeps embed_keeps generate_keeps assms)
    (simp_all add: new_video_def status_call_def)

lemma fail_keeps:
  fixes w :: "'y job_world_scheme"
  assumes "A (j_id job0)" "Q (w_db w)"
  shows "Q (w_db (snd (fail_job E job0 e w)))"
proof -
  have c: "status_call ''failed'' stage (Some (sanitizeError e))" for stage
    by (simp add: status_call_def sanitizeError_def)
  have "keeps_db Q (\<lambda>w. best_effort (Jobs_UpdateStatus E (j_id job0) t ''failed'' (jw_stage w) (Some (sanitizeError e))) w :: (go_error + unit) \<times> 'y job_world_scheme)" for t
    using keeps_after [OF keeps_best_effort [OF Jobs_UpdateStatus_keeps [OF assms(1) c]]] unfolding keeps_def by blast
  then have "keeps_db Q (fail_job E job0 e :: ('y, unit) jact)"
    unfolding fail_job_def by (intro io_inv_rules keeping repositories)
  then show ?thesis using assms(2) by (rule keeps_after)
qed

text \<open>The job that \<open>ProcessJob\<close> loads has the id it was called with.\<close>

lemma loaded_id:
  fixes w :: "'z world_scheme"
  assumes "Jobs_GetByIDAllTenants E i0 w = (Inr job1, w1)"
  shows "pg_uuid (e_pg E) i0 = Some (j_id job1)"
proof -
  have "pg_uuid (e_pg E) i0 = Some (j_id j)" if "GetJobByIDAllTenants_q (e_pg E) i0 d = (Inr j, d')" for j d d'
    using that by (auto simp: GetJobByIDAllTenants_q_def uuid_arg_def violation_def fail_def one_row_def ret_def
        split: option.splits list.splits dest!: filter_Cons_prop)
  then show ?thesis using assms
    by (auto simp: Jobs_GetByIDAllTenants_def io_ok pool_stmt_def stmt_def mapJob_def split: option.splits prod.splits)
qed

lemma process_keeps:
  fixes w :: "'y job_world_scheme"
  assumes "inert_ports D" "Q (w_db w)" "\<And>u. pg_uuid (e_pg E) i0 = Some u \<Longrightarrow> A u"
  shows "Q (w_db (ProcessJob E D i0 w))"
proof -
  obtain r w1 where g: "Jobs_GetByIDAllTenants E i0 w = (r, w1)" by fastforce
  have q: "Q (w_db w1)" by (rule keepsD [OF reading_repositories(5) assms(2) g])
  show ?thesis
  proof (cases r)
    case (Inr job1)
    obtain x w2 where r: "run E D job1 (w1\<lparr>jw_stage := j_stage job1\<rparr>) = (x, w2)" by fastforce
    have a: "A (j_id job1)" using loaded_id [of i0 w job1 w1] g Inr assms(3) by simp
    have "Q (w_db w2)" by (rule keepsD [OF run_keeps [OF assms(1) a] _ r]) (simp add: q)
    then show ?thesis using fail_keeps [OF a, of w2] g r Inr by (simp add: ProcessJob_def split: sum.split)
  qed (use g q in \<open>simp add: ProcessJob_def\<close>)
qed

lemma retention_keeps:
  fixes w :: "'y job_world_scheme"
  assumes "inert_ports D" "Q (w_db w)"
  shows "Q (w_db (snd (runRetention E D w)))"
proof -
  define w0 where "w0 = w\<lparr>w_tick := w_tick w + 1\<rparr>"
  obtain r w1 where p: "Jobs_ListForRetention E (e_time E (w_tick w) + - retentionAge) w0 = (r, w1)" by fastforce
  have "Q (w_db w0)" using assms(2) by (simp add: w0_def)
  then have q: "Q (w_db w1)" by (rule keepsD [OF reading_repositories(6) _ p])
  have "keeps_db Q (for_each (\<lambda>j. best_effort (p_delete D (rj_file_key j))) js)" for js
    by (intro io_inv_rules keeping pipeline_ports assms)
  from keeps_after [OF this q] show ?thesis
    using p q by (cases r) (simp_all add: runRetention_def andthen_def time_now_def w0_def)
qed

end

section \<open>Runs\<close>

text \<open>
  What the two programs do with the database of one server: requests, claims, jobs (of any id) and
  retention passes in any order, each in an environment of its own whose other sessions keep \<open>Q\<close>.
  \<open>A\<close> limits the jobs that are worked on.
\<close>

inductive live :: "pg \<Rightarrow> (db \<Rightarrow> bool) \<Rightarrow> (string \<Rightarrow> bool) \<Rightarrow> 'y api_world_ext handler \<Rightarrow> 'x pipeline \<Rightarrow> db \<Rightarrow> db \<Rightarrow> bool"
  for P Q A H D where
  Begin: "live P Q A H D d d"
| Served: "live P Q A H D d (w_db w) \<Longrightarrow> e_pg E = P \<Longrightarrow> stable E Q \<Longrightarrow>
    live P Q A H D d (w_db (snd (serve rnd E H req w)))"
| Taken: "live P Q A H D d (w_db w) \<Longrightarrow> e_pg E = P \<Longrightarrow> stable E Q \<Longrightarrow>
    live P Q A H D d (w_db (snd (Jobs_ClaimNextPending E (w :: 'x job_world_scheme))))"
| Worked: "live P Q A H D d (w_db w) \<Longrightarrow> e_pg E = P \<Longrightarrow> stable E Q \<Longrightarrow>
    (\<And>u. pg_uuid P i = Some u \<Longrightarrow> A u) \<Longrightarrow> live P Q A H D d (w_db (ProcessJob E D i w))"
| Cleaned: "live P Q A H D d (w_db w) \<Longrightarrow> e_pg E = P \<Longrightarrow> stable E Q \<Longrightarrow>
    live P Q A H D d (w_db (snd (runRetention E D w)))"

context kept_by_statements
begin

lemma session: "e_pg E = P \<Longrightarrow> stable E Q \<Longrightarrow> db_invariant E Q A"
  using kept_by_statements_axioms by (simp add: db_invariant_def db_invariant_axioms_def)

lemma live_keeps:
  assumes "live P Q A H D d d'" "ports_inert H" "inert_ports D"
  shows "Q d \<Longrightarrow> Q d'"
  using assms(1)
proof (induction rule: live.induct)
  case (Served d w E rnd req)
  with db_invariant.serve_keeps [OF session assms(2)] show ?case by blast
next
  case (Taken d w E)
  with keeps_after [OF db_invariant.claim_keeps [OF session]] show ?case by blast
next
  case (Worked d w E i)
  with db_invariant.process_keeps [OF session assms(3)] show ?case by blast
next
  case (Cleaned d w E)
  with db_invariant.retention_keeps [OF session assms(3)] show ?case by blast
qed

end

end
