(* ===== verification/Schema.thy ===== *)
theory Schema
  imports DbInvariant
begin

text \<open>
  The schema of \<open>migrations/001_init.sql\<close> as a predicate on the database: column domains, primary
  keys, unique keys and foreign keys of the twelve tables. Every statement keeps it, so it holds in
  every run of the server and the worker.
\<close>

section \<open>The constraints\<close>

text \<open>A UNIQUE key over a nullable column: NULL is not equal to NULL.\<close>

definition distinct_some :: "'k option list \<Rightarrow> bool" where
  "distinct_some ks \<longleftrightarrow> distinct (filter (\<lambda>k. k \<noteq> None) ks)"

definition optional :: "('a \<Rightarrow> bool) \<Rightarrow> 'a option \<Rightarrow> bool" where
  "optional p x \<longleftrightarrow> (case x of None \<Rightarrow> True | Some a \<Rightarrow> p a)"

definition keys_table :: "string set \<Rightarrow> api_key list \<Rightarrow> bool" where
  "keys_table T ks \<longleftrightarrow> distinct (map k_id ks) \<and> distinct (map k_hash ks) \<and>
     (\<forall>k \<in> set ks. k_tenant k \<in> T \<and> k_scope k \<in> {''admin'', ''query''})"

definition intents_table :: "string set \<Rightarrow> upload_intent list \<Rightarrow> bool" where
  "intents_table T is \<longleftrightarrow> distinct (map i_id is) \<and> distinct (map i_file_key is) \<and>
     (\<forall>i \<in> set is. i_tenant i \<in> T \<and> i_status i \<in> set intent_statuses)"

definition jobs_table :: "string set \<Rightarrow> string set \<Rightarrow> job list \<Rightarrow> bool" where
  "jobs_table T I js \<longleftrightarrow> distinct (map j_id js) \<and> distinct (map j_file_key js) \<and> distinct_some (map j_intent js) \<and>
     (\<forall>j \<in> set js. j_tenant j \<in> T \<and> optional (\<lambda>i. i \<in> I) (j_intent j) \<and> j_kind j \<in> set job_kinds \<and>
        j_status j \<in> set job_statuses \<and> is_int32 (j_retry j))"

definition segments_table :: "pg \<Rightarrow> string set \<Rightarrow> segment list \<Rightarrow> bool" where
  "segments_table P T ss \<longleftrightarrow> distinct (map s_id ss) \<and>
     distinct (map (\<lambda>s. (s_tenant s, pg_lower P (s_name s))) ss) \<and> (\<forall>s \<in> set ss. s_tenant s \<in> T)"

definition links_table :: "string set \<Rightarrow> string set \<Rightarrow> string set \<Rightarrow> link list \<Rightarrow> bool" where
  "links_table T A S ls \<longleftrightarrow> distinct (map (\<lambda>l. (l_owner l, l_segment l)) ls) \<and>
     (\<forall>l \<in> set ls. l_tenant l \<in> T \<and> l_owner l \<in> A \<and> l_segment l \<in> S)"

definition videos_table :: "string set \<Rightarrow> string set \<Rightarrow> video list \<Rightarrow> bool" where
  "videos_table T J vs \<longleftrightarrow> distinct (map v_id vs) \<and> distinct (map v_job vs) \<and> distinct (map v_file_key vs) \<and>
     (\<forall>v \<in> set vs. v_tenant v \<in> T \<and> v_job v \<in> J \<and> v_kind v \<in> set job_kinds \<and>
        v_status v \<in> set video_statuses \<and> optional (\<lambda>n. 0 < n \<and> is_int32 n) (v_duration v))"

definition transcripts_table :: "string set \<Rightarrow> string set \<Rightarrow> transcript list \<Rightarrow> bool" where
  "transcripts_table T V rs \<longleftrightarrow> distinct (map t_id rs) \<and> distinct (map t_video rs) \<and>
     (\<forall>r \<in> set rs. t_tenant r \<in> T \<and> t_video r \<in> V)"

definition chunks_table :: "string set \<Rightarrow> string set \<Rightarrow> chunk list \<Rightarrow> bool" where
  "chunks_table T V cs \<longleftrightarrow> distinct (map c_id cs) \<and> distinct (map (\<lambda>c. (c_video c, c_index c)) cs) \<and>
     (\<forall>c \<in> set cs. c_tenant c \<in> T \<and> c_video c \<in> V \<and> is_int32 (c_index c) \<and> length (c_embedding c) = vector_dims)"

definition summaries_table :: "string set \<Rightarrow> string set \<Rightarrow> summary list \<Rightarrow> bool" where
  "summaries_table T V ms \<longleftrightarrow> distinct (map m_id ms) \<and> distinct (map m_video ms) \<and>
     (\<forall>m \<in> set ms. m_tenant m \<in> T \<and> m_video m \<in> V \<and> m_status m \<in> set summary_statuses)"

definition audit_table :: "string set \<Rightarrow> string set \<Rightarrow> audit_log list \<Rightarrow> bool" where
  "audit_table T K as \<longleftrightarrow> distinct (map a_id as) \<and>
     (\<forall>a \<in> set as. a_tenant a \<in> T \<and> optional (\<lambda>k. k \<in> K) (a_actor a))"

definition schema_ok :: "pg \<Rightarrow> db \<Rightarrow> bool" where
  "schema_ok P d \<longleftrightarrow>
     (let T = set (d_tenants d); J = j_id ` set (d_jobs d); S = s_id ` set (d_segments d);
          V = v_id ` set (d_videos d)
      in distinct (d_tenants d) \<and> keys_table T (d_keys d) \<and> intents_table T (d_intents d) \<and>
         jobs_table T (i_id ` set (d_intents d)) (d_jobs d) \<and> segments_table P T (d_segments d) \<and>
         links_table T J S (d_job_segments d) \<and> videos_table T J (d_videos d) \<and>
         links_table T V S (d_video_segments d) \<and> transcripts_table T V (d_transcripts d) \<and>
         chunks_table T V (d_chunks d) \<and> summaries_table T V (d_summaries d) \<and>
         audit_table T (k_id ` set (d_keys d)) (d_audit d))"

lemmas tables = keys_table_def intents_table_def jobs_table_def segments_table_def links_table_def
  videos_table_def transcripts_table_def chunks_table_def summaries_table_def audit_table_def

section \<open>Statements\<close>

lemma keeps_uuid: "(\<And>u. keeps Q (f u)) \<Longrightarrow> keeps Q (uuid_arg P s f)"
  by (auto simp: keeps_def uuid_arg_def violation_def fail_def split: option.split)

lemma keeps_statement: "(\<And>d. Q d \<Longrightarrow> Q (snd (q d))) \<Longrightarrow> keeps Q q"
  by (simp add: keeps_def)

text \<open>Statements on other tables than \<open>jobs\<close>.\<close>

definition of_jobs :: "(db \<Rightarrow> bool) \<Rightarrow> bool" where
  "of_jobs Q \<longleftrightarrow> (\<forall>d d'. d_jobs d' = d_jobs d \<longrightarrow> Q d' = Q d)"

lemma jobs_elsewhere:
  assumes "of_jobs Q"
  shows "keeps Q (TouchAPIKeyLastUsed P now i0)" "keeps Q (InsertAuditLog P al)" "keeps Q (CreateUploadIntent P a)"
    "keeps Q (MarkUploadIntentConsumed P now key t0)" "keeps Q (EnsureSegmentByName P sg)" "keeps Q (AttachJobSegment P i0 s0 t0)"
    "keeps Q (AttachVideoSegment P i0 s0 t0)" "keeps Q (SoftDeleteVideo_q P now i0 t0)" "keeps Q (DeleteVideoByJobID_q P i0 t0)"
    "keeps Q (FailVideoByJobID_q P now i0 t0)" "keeps Q (UpdateVideoStatus_q P now i0 t0 st)" "keeps Q (UpsertTranscript P tr)"
    "keeps Q (CreateVideo_q P v)" "keeps Q (InsertChunk_q P c)" "keeps Q (UpsertSummary P now m)"
proof -
  have k: "keeps Q q" if "\<And>d. d_jobs (snd (q d)) = d_jobs d" for q :: "'a sql"
    using assms that unfolding of_jobs_def keeps_def by blast
  show "keeps Q (TouchAPIKeyLastUsed P now i0)" "keeps Q (InsertAuditLog P al)" "keeps Q (CreateUploadIntent P a)"
    "keeps Q (MarkUploadIntentConsumed P now key t0)" "keeps Q (EnsureSegmentByName P sg)" "keeps Q (AttachJobSegment P i0 s0 t0)"
    "keeps Q (AttachVideoSegment P i0 s0 t0)" "keeps Q (SoftDeleteVideo_q P now i0 t0)" "keeps Q (DeleteVideoByJobID_q P i0 t0)"
    "keeps Q (FailVideoByJobID_q P now i0 t0)" "keeps Q (UpdateVideoStatus_q P now i0 t0 st)" "keeps Q (UpsertTranscript P tr)"
    "keeps Q (CreateVideo_q P v)" "keeps Q (InsertChunk_q P c)" "keeps Q (UpsertSummary P now m)"
    by (rule k, simp add: TouchAPIKeyLastUsed_def InsertAuditLog_def CreateUploadIntent_def MarkUploadIntentConsumed_def
      EnsureSegmentByName_def AttachJobSegment_def AttachVideoSegment_def attach_def SoftDeleteVideo_q_def
      DeleteVideoByJobID_q_def FailVideoByJobID_q_def UpdateVideoStatus_q_def UpsertTranscript_def CreateVideo_q_def
      InsertChunk_q_def UpsertSummary_def Let_def uuid_arg_def violation_def fail_def guarded_snd split: option.split)+
qed

lemma keeps_conditions:
  "(\<And>d. Q d \<Longrightarrow> list_all fst (cs d) \<Longrightarrow> Q (snd (m d d))) \<Longrightarrow> keeps Q (\<lambda>d. guarded P (cs d) (m d) d)"
  by (simp add: keeps_def guarded_snd)

lemma map_update_rows [simp]: "(\<And>r. g (f r) = g r) \<Longrightarrow> map g (update_rows hit f rs) = map g rs"
  by (simp add: update_rows_def)

lemma image_update_rows: "(\<And>r. g (f r) = g r) \<Longrightarrow> g ` set (update_rows hit f rs) = g ` set rs"
  by (metis map_update_rows set_map)

lemma rows_update_rows: "(\<forall>r \<in> set rs. R r) \<Longrightarrow> (\<And>r. r \<in> set rs \<Longrightarrow> hit r \<Longrightarrow> R r \<Longrightarrow> R (f r)) \<Longrightarrow> \<forall>r \<in> set (update_rows hit f rs). R r"
  by (auto simp: update_rows_def)

lemma distinct_some_append: "distinct_some (ks @ [k]) \<longleftrightarrow> distinct_some ks \<and> (k = None \<or> k \<notin> set ks)"
  by (auto simp: distinct_some_def)

text \<open>A table with one more row, and a table with updated rows.\<close>

lemma audit_added:
  "audit_table T K as \<Longrightarrow> a_id a \<notin> a_id ` set as \<Longrightarrow> a_tenant a \<in> T \<Longrightarrow> optional (\<lambda>k. k \<in> K) (a_actor a) \<Longrightarrow>
   audit_table T K (as @ [a])"
  by (simp add: audit_table_def)

lemma intent_added:
  "intents_table T is \<Longrightarrow> i_id i \<notin> i_id ` set is \<Longrightarrow> i_file_key i \<notin> i_file_key ` set is \<Longrightarrow> i_tenant i \<in> T \<Longrightarrow>
   i_status i \<in> set intent_statuses \<Longrightarrow> intents_table T (is @ [i])"
  by (simp add: intents_table_def)

lemma job_added:
  "jobs_table T I js \<Longrightarrow> j_id j \<notin> j_id ` set js \<Longrightarrow> j_file_key j \<notin> j_file_key ` set js \<Longrightarrow>
   j_intent j = None \<or> j_intent j \<notin> j_intent ` set js \<Longrightarrow> j_tenant j \<in> T \<Longrightarrow> optional (\<lambda>i. i \<in> I) (j_intent j) \<Longrightarrow>
   j_kind j \<in> set job_kinds \<Longrightarrow> j_status j \<in> set job_statuses \<Longrightarrow> is_int32 (j_retry j) \<Longrightarrow> jobs_table T I (js @ [j])"
  by (simp add: jobs_table_def distinct_some_append)

lemma segment_added:
  "segments_table P T ss \<Longrightarrow> s_id s \<notin> s_id ` set ss \<Longrightarrow> filter (same_name P (s_tenant s) (s_name s)) ss = [] \<Longrightarrow>
   s_tenant s \<in> T \<Longrightarrow> segments_table P T (ss @ [s])"
  by (auto simp: segments_table_def same_name_def filter_empty_conv)

lemma link_added:
  "links_table T A S ls \<Longrightarrow> \<not> (\<exists>l \<in> set ls. l_owner l = x \<and> l_segment l = y) \<Longrightarrow> t \<in> T \<Longrightarrow> x \<in> A \<Longrightarrow> y \<in> S \<Longrightarrow>
   links_table T A S (ls @ [\<lparr>l_owner = x, l_segment = y, l_tenant = t\<rparr>])"
  by (auto simp: links_table_def)

lemma video_added:
  "videos_table T J vs \<Longrightarrow> v_id v \<notin> v_id ` set vs \<Longrightarrow> v_job v \<notin> v_job ` set vs \<Longrightarrow> v_file_key v \<notin> v_file_key ` set vs \<Longrightarrow>
   v_tenant v \<in> T \<Longrightarrow> v_job v \<in> J \<Longrightarrow> v_kind v \<in> set job_kinds \<Longrightarrow> v_status v \<in> set video_statuses \<Longrightarrow>
   optional (\<lambda>n. 0 < n \<and> is_int32 n) (v_duration v) \<Longrightarrow> videos_table T J (vs @ [v])"
  by (simp add: videos_table_def)

lemma transcript_added:
  "transcripts_table T V rs \<Longrightarrow> t_id r \<notin> t_id ` set rs \<Longrightarrow> t_video r \<notin> t_video ` set rs \<Longrightarrow> t_tenant r \<in> T \<Longrightarrow>
   t_video r \<in> V \<Longrightarrow> transcripts_table T V (rs @ [r])"
  by (simp add: transcripts_table_def)

lemma chunk_added:
  "chunks_table T V cs \<Longrightarrow> c_id c \<notin> c_id ` set cs \<Longrightarrow> \<forall>r \<in> set cs. \<not> (c_video r = c_video c \<and> c_index r = c_index c) \<Longrightarrow>
   c_tenant c \<in> T \<Longrightarrow> c_video c \<in> V \<Longrightarrow> is_int32 (c_index c) \<Longrightarrow> length (c_embedding c) = vector_dims \<Longrightarrow>
   chunks_table T V (cs @ [c])"
  by (auto simp: chunks_table_def)

lemma summary_added:
  "summaries_table T V ms \<Longrightarrow> m_id m \<notin> m_id ` set ms \<Longrightarrow> m_video m \<notin> m_video ` set ms \<Longrightarrow> m_tenant m \<in> T \<Longrightarrow>
   m_video m \<in> V \<Longrightarrow> m_status m \<in> set summary_statuses \<Longrightarrow> summaries_table T V (ms @ [m])"
  by (simp add: summaries_table_def)

lemmas added = audit_added intent_added job_added segment_added link_added video_added transcript_added chunk_added
  summary_added

lemma keys_updated:
  assumes "keys_table T ks" "\<And>k. k_id (f k) = k_id k" "\<And>k. k_hash (f k) = k_hash k"
    "\<And>k. k_tenant (f k) = k_tenant k" "\<And>k. k_scope (f k) = k_scope k"
  shows "keys_table T (update_rows hit f ks)"
  using assms unfolding keys_table_def by (intro conjI rows_update_rows) simp_all

lemma intents_updated:
  assumes "intents_table T is" "\<And>i. i_id (f i) = i_id i" "\<And>i. i_file_key (f i) = i_file_key i"
    "\<And>i. i_tenant (f i) = i_tenant i" "\<And>i. i_status (f i) \<in> set intent_statuses"
  shows "intents_table T (update_rows hit f is)"
  using assms unfolding intents_table_def by (intro conjI rows_update_rows) simp_all

lemma jobs_updated:
  assumes "jobs_table T I js" "\<And>j. j_id (f j) = j_id j" "\<And>j. j_file_key (f j) = j_file_key j"
    "\<And>j. j_intent (f j) = j_intent j" "\<And>j. j_tenant (f j) = j_tenant j" "\<And>j. j_kind (f j) = j_kind j"
    "\<And>j. j \<in> set js \<Longrightarrow> hit j \<Longrightarrow> is_int32 (j_retry j) \<Longrightarrow> j_status (f j) \<in> set job_statuses \<and> is_int32 (j_retry (f j))"
  shows "jobs_table T I (update_rows hit f js)"
  using assms unfolding jobs_table_def by (intro conjI rows_update_rows) simp_all

lemma videos_updated:
  assumes "videos_table T J vs" "\<And>v. v_id (f v) = v_id v" "\<And>v. v_job (f v) = v_job v"
    "\<And>v. v_file_key (f v) = v_file_key v" "\<And>v. v_tenant (f v) = v_tenant v" "\<And>v. v_kind (f v) = v_kind v"
    "\<And>v. v_duration (f v) = v_duration v"
    "\<And>v. v \<in> set vs \<Longrightarrow> hit v \<Longrightarrow> v_status v \<in> set video_statuses \<Longrightarrow> v_status (f v) \<in> set video_statuses"
  shows "videos_table T J (update_rows hit f vs)"
  using assms unfolding videos_table_def by (intro conjI rows_update_rows) simp_all

lemma transcripts_updated:
  assumes "transcripts_table T V rs" "\<And>r. t_id (f r) = t_id r" "\<And>r. t_video (f r) = t_video r" "\<And>r. t_tenant (f r) = t_tenant r"
  shows "transcripts_table T V (update_rows hit f rs)"
  using assms unfolding transcripts_table_def by (intro conjI rows_update_rows) simp_all

lemma summaries_updated:
  assumes "summaries_table T V ms" "\<And>m. m_id (f m) = m_id m" "\<And>m. m_video (f m) = m_video m"
    "\<And>m. m_tenant (f m) = m_tenant m" "\<And>m. m_status (f m) \<in> set summary_statuses"
  shows "summaries_table T V (update_rows hit f ms)"
  using assms unfolding summaries_table_def by (intro conjI rows_update_rows) simp_all

lemmas updated = keys_updated intents_updated jobs_updated videos_updated transcripts_updated summaries_updated

text \<open>The tables of a database, and one of them replaced.\<close>

lemma references_mono:
  "links_table T A S ls \<Longrightarrow> A \<subseteq> A' \<Longrightarrow> S \<subseteq> S' \<Longrightarrow> links_table T A' S' ls"
  "videos_table T A vs \<Longrightarrow> A \<subseteq> A' \<Longrightarrow> videos_table T A' vs"
  "jobs_table T A js \<Longrightarrow> A \<subseteq> A' \<Longrightarrow> jobs_table T A' js"
  "transcripts_table T A rs \<Longrightarrow> A \<subseteq> A' \<Longrightarrow> transcripts_table T A' rs"
  "chunks_table T A cs \<Longrightarrow> A \<subseteq> A' \<Longrightarrow> chunks_table T A' cs"
  "summaries_table T A ms \<Longrightarrow> A \<subseteq> A' \<Longrightarrow> summaries_table T A' ms"
  by (auto simp: tables optional_def split: option.splits)

lemma schema_tables:
  assumes "schema_ok P d"
  shows "keys_table (set (d_tenants d)) (d_keys d)" "intents_table (set (d_tenants d)) (d_intents d)"
    "jobs_table (set (d_tenants d)) (i_id ` set (d_intents d)) (d_jobs d)"
    "segments_table P (set (d_tenants d)) (d_segments d)"
    "links_table (set (d_tenants d)) (j_id ` set (d_jobs d)) (s_id ` set (d_segments d)) (d_job_segments d)"
    "videos_table (set (d_tenants d)) (j_id ` set (d_jobs d)) (d_videos d)"
    "links_table (set (d_tenants d)) (v_id ` set (d_videos d)) (s_id ` set (d_segments d)) (d_video_segments d)"
    "transcripts_table (set (d_tenants d)) (v_id ` set (d_videos d)) (d_transcripts d)"
    "chunks_table (set (d_tenants d)) (v_id ` set (d_videos d)) (d_chunks d)"
    "summaries_table (set (d_tenants d)) (v_id ` set (d_videos d)) (d_summaries d)"
    "audit_table (set (d_tenants d)) (k_id ` set (d_keys d)) (d_audit d)"
  using assms by (simp_all add: schema_ok_def Let_def)

lemma replaced:
  assumes "schema_ok P d"
  shows
    "keys_table (set (d_tenants d)) ks \<Longrightarrow> k_id ` set ks = k_id ` set (d_keys d) \<Longrightarrow> schema_ok P (d\<lparr>d_keys := ks\<rparr>)"
    "intents_table (set (d_tenants d)) is \<Longrightarrow> i_id ` set (d_intents d) \<subseteq> i_id ` set is \<Longrightarrow> schema_ok P (d\<lparr>d_intents := is\<rparr>)"
    "jobs_table (set (d_tenants d)) (i_id ` set (d_intents d)) js \<Longrightarrow> j_id ` set (d_jobs d) \<subseteq> j_id ` set js \<Longrightarrow>
      schema_ok P (d\<lparr>d_jobs := js\<rparr>)"
    "segments_table P (set (d_tenants d)) ss \<Longrightarrow> s_id ` set (d_segments d) \<subseteq> s_id ` set ss \<Longrightarrow> schema_ok P (d\<lparr>d_segments := ss\<rparr>)"
    "links_table (set (d_tenants d)) (j_id ` set (d_jobs d)) (s_id ` set (d_segments d)) ls \<Longrightarrow> schema_ok P (d\<lparr>d_job_segments := ls\<rparr>)"
    "videos_table (set (d_tenants d)) (j_id ` set (d_jobs d)) vs \<Longrightarrow> v_id ` set (d_videos d) \<subseteq> v_id ` set vs \<Longrightarrow>
      schema_ok P (d\<lparr>d_videos := vs\<rparr>)"
    "links_table (set (d_tenants d)) (v_id ` set (d_videos d)) (s_id ` set (d_segments d)) ls' \<Longrightarrow> schema_ok P (d\<lparr>d_video_segments := ls'\<rparr>)"
    "transcripts_table (set (d_tenants d)) (v_id ` set (d_videos d)) rs \<Longrightarrow> schema_ok P (d\<lparr>d_transcripts := rs\<rparr>)"
    "chunks_table (set (d_tenants d)) (v_id ` set (d_videos d)) cs \<Longrightarrow> schema_ok P (d\<lparr>d_chunks := cs\<rparr>)"
    "summaries_table (set (d_tenants d)) (v_id ` set (d_videos d)) ms \<Longrightarrow> schema_ok P (d\<lparr>d_summaries := ms\<rparr>)"
    "audit_table (set (d_tenants d)) (k_id ` set (d_keys d)) as \<Longrightarrow> schema_ok P (d\<lparr>d_audit := as\<rparr>)"
  using assms unfolding schema_ok_def Let_def
  by ((simp; fail) | (simp, blast intro: references_mono))+

lemmas stated = Let_def snd_conv one_row_db if_P if_not_P

lemma schema_touch: "keeps (schema_ok P) (TouchAPIKeyLastUsed P now i0)"
  unfolding TouchAPIKeyLastUsed_def
  by (intro keeps_uuid keeps_statement, simp only: stated, rule replaced(1), assumption, rule keys_updated,
    erule schema_tables, simp_all add: image_update_rows)

lemma schema_audit: "keeps (schema_ok P) (InsertAuditLog P al)"
  unfolding InsertAuditLog_def
  by (intro keeps_uuid keeps_conditions, simp only: stated, rule replaced(11), assumption,
    rule audit_added, erule schema_tables, simp_all add: optional_def)

lemma schema_intent: "keeps (schema_ok P) (CreateUploadIntent P i)"
  unfolding CreateUploadIntent_def
  by (intro keeps_uuid keeps_conditions, simp only: stated, rule replaced(2), assumption,
    rule intent_added, erule schema_tables, simp_all add: subset_insertI)

lemma schema_consume: "keeps (schema_ok P) (MarkUploadIntentConsumed P now key t0)"
  unfolding MarkUploadIntentConsumed_def
  by (intro keeps_uuid keeps_statement, simp only: stated, rule replaced(2), assumption, rule intents_updated,
    erule schema_tables, simp_all add: image_update_rows intent_statuses_def)

lemma schema_job: "new_job j \<Longrightarrow> keeps (schema_ok P) (CreateJob_q P j)"
  unfolding CreateJob_q_def
  by (intro keeps_uuid keeps_conditions, simp only: stated, rule replaced(3), assumption,
    rule job_added, erule schema_tables, simp_all add: subset_insertI new_job_def is_int32_def optional_def)

lemma schema_claim: "keeps (schema_ok P) (ClaimNextPendingJob_q now locked)"
proof (rule keeps_statement)
  fix d
  assume s: "schema_ok P d"
  have "schema_ok P (d\<lparr>d_jobs := update_rows hit (claim_update now) (d_jobs d)\<rparr>)" for hit
    by (rule replaced(3) [OF s], rule jobs_updated, rule schema_tables [OF s])
      (simp_all add: image_update_rows claim_update_def job_statuses_def)
  with s show "schema_ok P (snd (ClaimNextPendingJob_q now locked d))"
    by (simp add: ClaimNextPendingJob_q_def Let_def split: list.split)
qed

lemma schema_retry: "keeps (schema_ok P) (RetryJob_q P now i0 t0)"
  unfolding RetryJob_q_def Let_def
  by (intro keeps_uuid keeps_conditions, simp only: stated, rule replaced(3), assumption,
    rule jobs_updated, erule schema_tables, simp_all add: image_update_rows retry_update_def job_statuses_def is_int32_def)

lemma schema_status: "keeps (schema_ok P) (UpdateJobStatus_q P now i0 t0 st sg msg)"
  unfolding UpdateJobStatus_q_def Let_def
  by (intro keeps_uuid keeps_conditions, simp only: stated, rule replaced(3), assumption,
    rule jobs_updated, erule schema_tables) (auto simp: image_update_rows status_update_def filter_empty_conv)

lemma schema_segment: "keeps (schema_ok P) (EnsureSegmentByName P sg)"
  unfolding EnsureSegmentByName_def Let_def
proof (intro keeps_uuid keeps_conditions)
  fix i t d
  assume s: "schema_ok P d" and c: "list_all fst [((i \<in> s_id ` set (d_segments d) \<or>
      filter (same_name P t (s_name sg)) (d_segments d) \<noteq> []) \<or> t \<in> set (d_tenants d), ForeignKeyViolation ''segments_tenant_id_fkey'')]"
  let ?r = "sg\<lparr>s_id := i, s_tenant := t\<rparr>"
  have "schema_ok P (d\<lparr>d_segments := d_segments d @ [?r]\<rparr>)"
    if "i \<notin> s_id ` set (d_segments d)" "filter (same_name P t (s_name sg)) (d_segments d) = []"
    by (rule replaced(4) [OF s], rule segment_added, rule schema_tables [OF s]) (use that c in \<open>simp_all add: subset_insertI\<close>)
  with s show "schema_ok P (snd (if i \<in> s_id ` set (d_segments d) \<or> filter (same_name P t (s_name sg)) (d_segments d) \<noteq> []
      then one_row (filter (same_name P t (s_name sg)) (d_segments d)) d
      else (Inr ?r, d\<lparr>d_segments := d_segments d @ [?r]\<rparr>)))" by simp
qed

lemma schema_attach:
  "keeps (schema_ok P) (AttachJobSegment P i0 s0 t0)" "keeps (schema_ok P) (AttachVideoSegment P i0 s0 t0)"
proof -
  show "keeps (schema_ok P) (AttachJobSegment P i0 s0 t0)"
    unfolding AttachJobSegment_def attach_def Let_def
  proof (intro keeps_uuid keeps_conditions)
    fix x y t and d :: db
    let ?no = "\<exists>l \<in> set (d_job_segments d). l_owner l = x \<and> l_segment l = y"
    let ?l = "\<lparr>l_owner = x, l_segment = y, l_tenant = t\<rparr>"
    assume s: "schema_ok P d" and c: "list_all fst
      [(?no \<or> x \<in> j_id ` set (d_jobs d), ForeignKeyViolation ''job_segments''),
       (?no \<or> y \<in> s_id ` set (d_segments d), ForeignKeyViolation ''job_segments''),
       (?no \<or> t \<in> set (d_tenants d), ForeignKeyViolation ''job_segments'')]"
    have z: "t \<in> set (d_tenants d) \<and> x \<in> j_id ` set (d_jobs d) \<and> y \<in> s_id ` set (d_segments d)" if "\<not> ?no"
      using c that unfolding list.pred_inject fst_conv by blast
    have e: "d_job_segments_update (\<lambda>ls. ls @ [?l]) d = d\<lparr>d_job_segments := d_job_segments d @ [?l]\<rparr>" by (cases d) simp
    have "schema_ok P (d_job_segments_update (\<lambda>ls. ls @ [?l]) d)" if "\<not> ?no"
      unfolding e by (rule replaced(5) [OF s], rule link_added, rule schema_tables [OF s]) (use that z in blast)+
    then show "schema_ok P (snd (Inr (), if ?no then d else d_job_segments_update (\<lambda>ls. ls @ [?l]) d))"
      using s by (cases ?no) simp_all
  qed
  show "keeps (schema_ok P) (AttachVideoSegment P i0 s0 t0)"
    unfolding AttachVideoSegment_def attach_def Let_def
  proof (intro keeps_uuid keeps_conditions)
    fix x y t and d :: db
    let ?no = "\<exists>l \<in> set (d_video_segments d). l_owner l = x \<and> l_segment l = y"
    let ?l = "\<lparr>l_owner = x, l_segment = y, l_tenant = t\<rparr>"
    assume s: "schema_ok P d" and c: "list_all fst
      [(?no \<or> x \<in> v_id ` set (d_videos d), ForeignKeyViolation ''video_segments''),
       (?no \<or> y \<in> s_id ` set (d_segments d), ForeignKeyViolation ''video_segments''),
       (?no \<or> t \<in> set (d_tenants d), ForeignKeyViolation ''video_segments'')]"
    have z: "t \<in> set (d_tenants d) \<and> x \<in> v_id ` set (d_videos d) \<and> y \<in> s_id ` set (d_segments d)" if "\<not> ?no"
      using c that unfolding list.pred_inject fst_conv by blast
    have e: "d_video_segments_update (\<lambda>ls. ls @ [?l]) d = d\<lparr>d_video_segments := d_video_segments d @ [?l]\<rparr>" by (cases d) simp
    have "schema_ok P (d_video_segments_update (\<lambda>ls. ls @ [?l]) d)" if "\<not> ?no"
      unfolding e by (rule replaced(7) [OF s], rule link_added, rule schema_tables [OF s]) (use that z in blast)+
    then show "schema_ok P (snd (Inr (), if ?no then d else d_video_segments_update (\<lambda>ls. ls @ [?l]) d))"
      using s by (cases ?no) simp_all
  qed
qed

lemma schema_video: "new_video v \<Longrightarrow> keeps (schema_ok P) (CreateVideo_q P v)"
  unfolding CreateVideo_q_def
  by (intro keeps_uuid keeps_conditions, simp only: stated, rule replaced(6), assumption, rule video_added,
    erule schema_tables, simp_all add: subset_insertI)
    (auto simp: new_video_def optional_def split: option.splits)

lemma schema_video_update:
  shows schema_soft_delete: "keeps (schema_ok P) (SoftDeleteVideo_q P now i0 t0)"
    and schema_fail_video: "keeps (schema_ok P) (FailVideoByJobID_q P now i0 t0)"
    and schema_video_status: "keeps (schema_ok P) (UpdateVideoStatus_q P now i0 t0 st)"
proof -
  show "keeps (schema_ok P) (SoftDeleteVideo_q P now i0 t0)"
    unfolding SoftDeleteVideo_q_def
    by (intro keeps_uuid keeps_statement, simp only: stated, rule replaced(6), assumption, rule videos_updated,
      erule schema_tables, simp_all add: image_update_rows)
  show "keeps (schema_ok P) (FailVideoByJobID_q P now i0 t0)"
    unfolding FailVideoByJobID_q_def
    by (intro keeps_uuid keeps_statement, simp only: stated, rule replaced(6), assumption, rule videos_updated,
      erule schema_tables, simp_all add: image_update_rows video_statuses_def)
  show "keeps (schema_ok P) (UpdateVideoStatus_q P now i0 t0 st)"
    unfolding UpdateVideoStatus_q_def Let_def
    by (intro keeps_uuid keeps_conditions, simp only: stated, rule replaced(6), assumption, rule videos_updated,
      erule schema_tables) (auto simp: image_update_rows filter_empty_conv)
qed

lemma schema_transcript: "keeps (schema_ok P) (UpsertTranscript P tr)"
  unfolding UpsertTranscript_def Let_def
proof (intro keeps_uuid keeps_statement)
  fix i t v d
  assume s: "schema_ok P d"
  let ?old = "filter (\<lambda>r. t_video r = v) (d_transcripts d)" and ?r = "tr\<lparr>t_id := i, t_tenant := t, t_video := v\<rparr>"
  let ?f = "\<lambda>r. r\<lparr>t_content := t_content tr, t_language := t_language tr, t_model := t_model tr\<rparr>"
  have "schema_ok P (d\<lparr>d_transcripts := update_rows (\<lambda>r. t_video r = v) ?f (d_transcripts d)\<rparr>)"
    by (rule replaced(8) [OF s], rule transcripts_updated, rule schema_tables [OF s]) simp_all
  moreover have "schema_ok P (d\<lparr>d_transcripts := d_transcripts d @ [?r]\<rparr>)"
    if "?old = []" "i \<notin> t_id ` set (d_transcripts d)" "t \<in> set (d_tenants d)" "v \<in> v_id ` set (d_videos d)"
    by (rule replaced(8) [OF s], rule transcript_added, rule schema_tables [OF s])
      (use that in \<open>auto simp: filter_empty_conv\<close>)
  ultimately show "schema_ok P (snd (if ?old \<noteq> []
      then one_row (map ?f ?old) (d\<lparr>d_transcripts := update_rows (\<lambda>r. t_video r = v) ?f (d_transcripts d)\<rparr>)
      else guarded P
        [(i \<notin> t_id ` set (d_transcripts d), UniqueViolation ''transcripts_pkey''),
         (t \<in> set (d_tenants d), ForeignKeyViolation ''transcripts_tenant_id_fkey''),
         (v \<in> v_id ` set (d_videos d), ForeignKeyViolation ''transcripts_video_id_fkey'')]
        (\<lambda>d. (Inr ?r, d\<lparr>d_transcripts := d_transcripts d @ [?r]\<rparr>)) d))"
    using s by (simp add: guarded_snd)
qed

lemma schema_summary: "keeps (schema_ok P) (UpsertSummary P now m)"
  unfolding UpsertSummary_def Let_def
proof (intro keeps_uuid keeps_statement)
  fix i t v d
  assume s: "schema_ok P d"
  let ?old = "filter (\<lambda>r. m_video r = v) (d_summaries d)" and ?r = "m\<lparr>m_id := i, m_tenant := t, m_video := v\<rparr>"
  let ?f = "\<lambda>r. r\<lparr>m_status := m_status m, m_content := m_content m, m_language := m_language m,
    m_model := m_model m, m_error := m_error m, m_updated := now\<rparr>"
  have "schema_ok P (d\<lparr>d_summaries := update_rows (\<lambda>r. m_video r = v) ?f (d_summaries d)\<rparr>)"
    if "m_status m \<in> set summary_statuses"
    by (rule replaced(10) [OF s], rule summaries_updated, rule schema_tables [OF s]) (use that in simp_all)
  moreover have "schema_ok P (d\<lparr>d_summaries := d_summaries d @ [?r]\<rparr>)"
    if "m_status m \<in> set summary_statuses" "?old = []" "i \<notin> m_id ` set (d_summaries d)" "t \<in> set (d_tenants d)"
      "v \<in> v_id ` set (d_videos d)"
    by (rule replaced(10) [OF s], rule summary_added, rule schema_tables [OF s])
      (use that in \<open>auto simp: filter_empty_conv\<close>)
  ultimately show "schema_ok P (snd (guarded P [(m_status m \<in> set summary_statuses, CheckViolation ''summaries_status_check'')]
      (if ?old \<noteq> []
       then (\<lambda>d. one_row (map ?f (filter (\<lambda>r. m_video r = v) (d_summaries d)))
         (d\<lparr>d_summaries := update_rows (\<lambda>r. m_video r = v) ?f (d_summaries d)\<rparr>))
       else guarded P
        [(i \<notin> m_id ` set (d_summaries d), UniqueViolation ''summaries_pkey''),
         (t \<in> set (d_tenants d), ForeignKeyViolation ''summaries_tenant_id_fkey''),
         (v \<in> v_id ` set (d_videos d), ForeignKeyViolation ''summaries_video_id_fkey'')]
        (\<lambda>d. (Inr ?r, d\<lparr>d_summaries := d_summaries d @ [?r]\<rparr>))) d))"
    using s by (simp add: guarded_snd)
qed

lemma schema_chunk: "is_int32 (c_index c) \<Longrightarrow> keeps (schema_ok P) (InsertChunk_q P c)"
  unfolding InsertChunk_q_def
  by (intro keeps_uuid keeps_conditions, simp only: stated, rule replaced(9), assumption, rule chunk_added,
    erule schema_tables, simp_all)

text \<open>The rows that a deletion leaves refer to rows that it leaves.\<close>

lemma schema_delete_videos:
  assumes "schema_ok P d"
  shows "schema_ok P (delete_videos job t d)"
proof -
  let ?hit = "\<lambda>v. v_job v = job \<and> v_tenant v = t"
  let ?gone = "v_id ` set (filter ?hit (d_videos d))" and ?V' = "v_id ` set (filter (\<lambda>v. \<not> ?hit v) (d_videos d))"
  have V: "x \<in> ?V'" if "x \<in> v_id ` set (d_videos d)" "x \<notin> ?gone" for x
    using that by auto
  note t = schema_tables [OF assms]
  have "videos_table (set (d_tenants d)) (j_id ` set (d_jobs d)) (filter (\<lambda>v. \<not> ?hit v) (d_videos d))"
    using t(6) by (simp add: videos_table_def distinct_map_filter)
  moreover have "links_table (set (d_tenants d)) ?V' (s_id ` set (d_segments d)) (filter (\<lambda>l. l_owner l \<notin> ?gone) (d_video_segments d))"
    using t(7) V unfolding links_table_def by (simp only: set_filter mem_Collect_eq) (simp add: distinct_map_filter)
  moreover have "transcripts_table (set (d_tenants d)) ?V' (filter (\<lambda>r. t_video r \<notin> ?gone) (d_transcripts d))"
    using t(8) V unfolding transcripts_table_def by (simp only: set_filter mem_Collect_eq) (simp add: distinct_map_filter)
  moreover have "chunks_table (set (d_tenants d)) ?V' (filter (\<lambda>c. c_video c \<notin> ?gone) (d_chunks d))"
    using t(9) V unfolding chunks_table_def by (simp only: set_filter mem_Collect_eq) (simp add: distinct_map_filter)
  moreover have "summaries_table (set (d_tenants d)) ?V' (filter (\<lambda>m. m_video m \<notin> ?gone) (d_summaries d))"
    using t(10) V unfolding summaries_table_def by (simp only: set_filter mem_Collect_eq) (simp add: distinct_map_filter)
  ultimately show ?thesis using assms t unfolding schema_ok_def delete_videos_def Let_def by simp
qed

lemma schema_delete: "keeps (schema_ok P) (DeleteVideoByJobID_q P job0 t0)"
proof -
  have "DeleteVideoByJobID_q P job0 t0 = uuid_arg P job0 (\<lambda>job. uuid_arg P t0 (\<lambda>t d. (Inr (), delete_videos job t d)))"
    by (simp add: DeleteVideoByJobID_q_def delete_videos_def Let_def)
  then show ?thesis by (simp only:) (intro keeps_uuid keeps_statement, simp add: schema_delete_videos)
qed

interpretation schema: kept_by_statements P "schema_ok P" "\<lambda>_. True" for P
  by unfold_locales (simp_all add: schema_touch schema_audit schema_intent schema_consume schema_job schema_status
    schema_retry schema_claim schema_segment schema_attach schema_video schema_soft_delete schema_delete
    schema_fail_video schema_video_status schema_transcript schema_chunk schema_summary)

text \<open>A session with the server for itself.\<close>

definition alone :: "environ \<Rightarrow> environ" where
  "alone E = E\<lparr>e_other := \<lambda>n d. d\<rparr>"

lemma alone_facts [simp]: "e_pg (alone E) = e_pg E" "stable (alone E) Q"
  by (simp_all add: alone_def stable_def)

interpretation schema_alone: db_invariant "alone E" "schema_ok (e_pg E)" "\<lambda>_. True" for E
  by (rule schema.session) simp_all

section \<open>The schema in every run\<close>


text \<open>A failed job is retried over the API, claimed and processed.\<close>

definition retry_world :: "string list job_world_scheme" where
  "retry_world = \<lparr>w_db = w_db (snd (serve exact demo_env (demo_handler :: unit api_world_ext handler)
     (demo_request (RRetryJob ''j1'') ''ka'') (new_api_world exact demo_db))), w_tick = 0, jw_stage = [], \<dots> = []\<rparr>"

lemma demo_stable: "stable demo_env Q"
  by (simp add: stable_def demo_env_def)

lemma retry_run:
  "live demo_pg Q (\<lambda>_. True) (demo_handler :: unit api_world_ext handler) queue_pipe demo_db
    (w_db (ProcessJob demo_env queue_pipe ''j1'' (snd (Jobs_ClaimNextPending demo_env retry_world))))"
proof -
  let ?L = "live demo_pg Q (\<lambda>_. True) (demo_handler :: unit api_world_ext handler) queue_pipe demo_db"
  have pg: "e_pg demo_env = demo_pg" by (simp add: demo_env_def)
  have "?L (w_db (new_api_world exact demo_db))" by (simp add: new_api_world_def live.Begin)
  from live.Served [OF this pg demo_stable] have "?L (w_db retry_world)" unfolding retry_world_def world.select_convs .
  from live.Taken [OF this pg demo_stable] show ?thesis by (rule live.Worked [OF _ pg demo_stable]) simp
qed

lemma demo_schema: "schema_ok demo_pg demo_db"
  by (simp add: schema_ok_def tables Let_def demo_db_def demo_key_def demo_intent_def demo_job_def demo_video_def
      demo_chunk_def intent_statuses_def job_kinds_def job_statuses_def video_statuses_def vector_dims_def
      is_int32_def optional_def distinct_some_def)


end
