(* ===== verification/Lifecycle.thy ===== *)
theory Lifecycle
  imports Schema
begin

text \<open>
  The life cycle of the rows that change state: the columns of a job, an upload intent and a summary
  agree with its status in every run. The columns that a statement writes follow from how it is
  called, so nothing has to be assumed about the order of steps, crashes or lost commits.
\<close>

section \<open>States of rows\<close>

text \<open>
  A pending job has no trace of an earlier attempt, a job in progress was started and has no error,
  a completed one is finished without an error, and a failed one is finished and says why.
\<close>

definition job_cycle :: "job \<Rightarrow> bool" where
  "job_cycle j \<longleftrightarrow> 0 \<le> j_retry j \<and>
     (j_status j = ''pending'' \<longrightarrow>
        j_stage j = ''queued'' \<and> j_error j = None \<and> j_started j = None \<and> j_finished j = None) \<and>
     (j_status j = ''processing'' \<longrightarrow> j_started j \<noteq> None \<and> j_error j = None) \<and>
     (j_status j = ''completed'' \<longrightarrow> j_stage j = ''completed'' \<and> j_finished j \<noteq> None \<and> j_error j = None) \<and>
     (j_status j = ''failed'' \<longrightarrow> j_finished j \<noteq> None \<and> j_error j \<noteq> None \<and> j_error j \<noteq> Some [])"

definition intent_cycle :: "upload_intent \<Rightarrow> bool" where
  "intent_cycle i \<longleftrightarrow> (i_status i = ''issued'') = (i_consumed i = None)"

definition summary_cycle :: "summary \<Rightarrow> bool" where
  "summary_cycle m \<longleftrightarrow> summary_call m"

definition cycles :: "db \<Rightarrow> bool" where
  "cycles d \<longleftrightarrow> (\<forall>j \<in> set (d_jobs d). job_cycle j) \<and> (\<forall>i \<in> set (d_intents d). intent_cycle i) \<and>
     (\<forall>m \<in> set (d_summaries d). summary_cycle m)"

definition cycle_ok :: "pg \<Rightarrow> db \<Rightarrow> bool" where
  "cycle_ok P d \<longleftrightarrow> schema_ok P d \<and> cycles d"

section \<open>Statements\<close>

lemma keeps_cycle:
  "keeps (schema_ok P) q \<Longrightarrow> (\<And>d. schema_ok P d \<Longrightarrow> cycles d \<Longrightarrow> cycles (snd (q d))) \<Longrightarrow> keeps (cycle_ok P) q"
  by (simp add: keeps_def cycle_ok_def)

text \<open>Statements on other tables, and deletions.\<close>

lemma cycles_less:
  "cycles d \<Longrightarrow> set (d_jobs d') \<subseteq> set (d_jobs d) \<Longrightarrow> set (d_intents d') \<subseteq> set (d_intents d) \<Longrightarrow>
   set (d_summaries d') \<subseteq> set (d_summaries d) \<Longrightarrow> cycles d'"
  unfolding cycles_def by blast

definition elsewhere :: "'a sql \<Rightarrow> bool" where
  "elsewhere q \<longleftrightarrow> (\<forall>d. d_jobs (snd (q d)) = d_jobs d \<and> d_intents (snd (q d)) = d_intents d \<and>
     set (d_summaries (snd (q d))) \<subseteq> set (d_summaries d))"

lemma keeps_elsewhere: "keeps (schema_ok P) q \<Longrightarrow> elsewhere q \<Longrightarrow> keeps (cycle_ok P) q"
  unfolding elsewhere_def by (rule keeps_cycle, assumption, erule cycles_less) simp_all

lemma jobs_statement:
  assumes "cycles d" "\<And>j. j \<in> set (d_jobs d) \<Longrightarrow> job_cycle j \<Longrightarrow> hit j \<Longrightarrow> job_cycle (f j)"
  shows "cycles (d\<lparr>d_jobs := update_rows hit f (d_jobs d)\<rparr>)"
  using assms by (auto simp: cycles_def update_rows_def)

lemma cycle_status:
  assumes "status_call st sg msg"
  shows "keeps (cycle_ok P) (UpdateJobStatus_q P now i0 t0 st sg msg)"
proof (rule keeps_cycle [OF schema_status])
  fix d
  assume c: "cycles d"
  have "job_cycle (status_update now st sg msg j)" if "job_cycle j" for j
    using assms unfolding status_call_def by (elim disjE conjE; use that in \<open>simp add: job_cycle_def status_update_def split: option.split\<close>)
  with c have "cycles (d\<lparr>d_jobs := update_rows hit (status_update now st sg msg) (d_jobs d)\<rparr>)" for hit
    by (rule jobs_statement)
  with c show "cycles (snd (UpdateJobStatus_q P now i0 t0 st sg msg d))"
    by (simp add: UpdateJobStatus_q_def Let_def uuid_arg_def violation_def fail_def guarded_snd split: option.split)
qed

lemma cycle_retry: "keeps (cycle_ok P) (RetryJob_q P now i0 t0)"
proof (rule keeps_cycle [OF schema_retry])
  fix d
  assume c: "cycles d"
  then have "cycles (d\<lparr>d_jobs := update_rows hit (retry_update now) (d_jobs d)\<rparr>)" for hit
    by (rule jobs_statement) (simp add: job_cycle_def retry_update_def)
  with c show "cycles (snd (RetryJob_q P now i0 t0 d))"
    by (simp add: RetryJob_q_def Let_def uuid_arg_def violation_def fail_def guarded_snd split: option.split)
qed

text \<open>The claimed row is the pending one that was found, the ids being unique.\<close>

lemma cycle_claim: "keeps (cycle_ok P) (ClaimNextPendingJob_q now locked)"
proof (rule keeps_cycle [OF schema_claim])
  fix d
  assume s: "schema_ok P d" and c: "cycles d"
  show "cycles (snd (ClaimNextPendingJob_q now locked d))"
  proof (cases "sort_key j_created (filter (\<lambda>j. j_status j = ''pending'' \<and> \<not> locked j) (d_jobs d))")
    case (Cons n ns)
    then have n: "n \<in> set (d_jobs d)" "j_status n = ''pending''"
      using set_sort [of j_created "filter (\<lambda>j. j_status j = ''pending'' \<and> \<not> locked j) (d_jobs d)"] by auto
    have "j = n" if "j \<in> set (d_jobs d)" "j_id j = j_id n" for j
      using that n(1) schema_tables(3) [OF s] by (auto simp: jobs_table_def distinct_map dest: inj_onD)
    then have "cycles (d\<lparr>d_jobs := update_rows (\<lambda>j. j_id j = j_id n) (claim_update now) (d_jobs d)\<rparr>)"
      using c n(2) by (intro jobs_statement) (auto simp: job_cycle_def claim_update_def split: option.splits)
    then show ?thesis by (simp add: ClaimNextPendingJob_q_def Cons Let_def)
  qed (use c in \<open>simp add: ClaimNextPendingJob_q_def\<close>)
qed

lemma cycle_job: "new_job j \<Longrightarrow> keeps (cycle_ok P) (CreateJob_q P j)"
  by (rule keeps_cycle [OF schema_job])
    (auto simp: CreateJob_q_def Let_def uuid_arg_def violation_def fail_def guarded_snd cycles_def job_cycle_def
      new_job_def split: option.split)

lemma cycle_intent: "new_intent i \<Longrightarrow> keeps (cycle_ok P) (CreateUploadIntent P i)"
  by (rule keeps_cycle [OF schema_intent])
    (auto simp: CreateUploadIntent_def Let_def uuid_arg_def violation_def fail_def guarded_snd cycles_def
      intent_cycle_def new_intent_def split: option.split)

lemma cycle_consume: "keeps (cycle_ok P) (MarkUploadIntentConsumed P now key t0)"
  by (rule keeps_cycle [OF schema_consume])
    (auto simp: MarkUploadIntentConsumed_def Let_def uuid_arg_def violation_def fail_def cycles_def
      intent_cycle_def update_rows_def split: option.split)

lemma cycle_summary: "summary_call m \<Longrightarrow> keeps (cycle_ok P) (UpsertSummary P now m)"
  by (rule keeps_cycle [OF schema_summary])
    (auto simp: UpsertSummary_def Let_def uuid_arg_def violation_def fail_def guarded_snd cycles_def
      summary_cycle_def summary_call_def update_rows_def split: option.split)

lemma elsewhere_statements:
  "elsewhere (TouchAPIKeyLastUsed P now i0)" "elsewhere (InsertAuditLog P al)"
  "elsewhere (EnsureSegmentByName P sg)" "elsewhere (AttachJobSegment P i0 s0 t0)"
  "elsewhere (AttachVideoSegment P i0 s0 t0)" "elsewhere (SoftDeleteVideo_q P now i0 t0)"
  "elsewhere (FailVideoByJobID_q P now i0 t0)" "elsewhere (UpdateVideoStatus_q P now i0 t0 st)"
  "elsewhere (UpsertTranscript P tr)" "elsewhere (DeleteVideoByJobID_q P i0 t0)"
  "elsewhere (CreateVideo_q P v)" "elsewhere (InsertChunk_q P c)"
  by (simp_all add: elsewhere_def TouchAPIKeyLastUsed_def InsertAuditLog_def EnsureSegmentByName_def AttachJobSegment_def
    AttachVideoSegment_def attach_def SoftDeleteVideo_q_def FailVideoByJobID_q_def UpdateVideoStatus_q_def
    UpsertTranscript_def DeleteVideoByJobID_q_def CreateVideo_q_def InsertChunk_q_def Let_def uuid_arg_def
    violation_def fail_def guarded_snd split: option.split)

lemma cycle_others:
  "keeps (cycle_ok P) (TouchAPIKeyLastUsed P now i0)" "keeps (cycle_ok P) (InsertAuditLog P al)"
  "keeps (cycle_ok P) (EnsureSegmentByName P sg)" "keeps (cycle_ok P) (AttachJobSegment P i0 s0 t0)"
  "keeps (cycle_ok P) (AttachVideoSegment P i0 s0 t0)" "keeps (cycle_ok P) (SoftDeleteVideo_q P now i0 t0)"
  "keeps (cycle_ok P) (FailVideoByJobID_q P now i0 t0)" "keeps (cycle_ok P) (UpdateVideoStatus_q P now i0 t0 st)"
  "keeps (cycle_ok P) (UpsertTranscript P tr)" "keeps (cycle_ok P) (DeleteVideoByJobID_q P i0 t0)"
  "new_video v \<Longrightarrow> keeps (cycle_ok P) (CreateVideo_q P v)"
  "is_int32 (c_index c) \<Longrightarrow> keeps (cycle_ok P) (InsertChunk_q P c)"
  by (intro keeps_elsewhere elsewhere_statements schema.statements; assumption)+

interpretation cycle: kept_by_statements P "cycle_ok P" "\<lambda>_. True" for P
  by unfold_locales (simp_all add: cycle_others cycle_intent cycle_consume cycle_job cycle_status cycle_retry
    cycle_claim cycle_summary)

section \<open>In every run\<close>



end
