(* ===== verification/History.thy ===== *)
theory History
  imports Schema
begin

text \<open>
  What a run of the server and the worker never loses. Compared with an earlier database: jobs,
  upload intents, segments, their links, API keys and the audit log only grow at the end; a job keeps its
  identity and its retry count never falls, a consumed intent is final, an audit entry never changes.
  (Videos with their transcripts, chunks and summaries are replaced when a job is run again.)
\<close>

section \<open>Growing tables\<close>

definition grows :: "('r \<Rightarrow> 'r \<Rightarrow> bool) \<Rightarrow> 'r list \<Rightarrow> 'r list \<Rightarrow> bool" where
  "grows R xs ys \<longleftrightarrow> length xs \<le> length ys \<and> list_all2 R xs (take (length xs) ys)"

lemma grows_same: "(\<And>x. R x x) \<Longrightarrow> grows R xs xs"
  by (simp add: grows_def list_all2_refl)

lemma grows_more: "grows R xs ys \<Longrightarrow> grows R xs (ys @ zs)"
  by (simp add: grows_def)

lemma grows_updated:
  assumes "grows R xs ys" "\<And>x y. R x y \<Longrightarrow> hit y \<Longrightarrow> R x (f y)"
  shows "grows R xs (update_rows hit f ys)"
  using assms by (auto simp: grows_def update_rows_def take_map list_all2_conv_all_nth)

definition key_later :: "api_key \<Rightarrow> api_key \<Rightarrow> bool" where
  "key_later k k' \<longleftrightarrow> k_id k' = k_id k \<and> k_tenant k' = k_tenant k \<and> k_name k' = k_name k \<and>
     k_hash k' = k_hash k \<and> k_scope k' = k_scope k \<and> k_revoked k' = k_revoked k \<and> k_created k' = k_created k"

definition intent_later :: "upload_intent \<Rightarrow> upload_intent \<Rightarrow> bool" where
  "intent_later i i' \<longleftrightarrow> i_id i' = i_id i \<and> i_tenant i' = i_tenant i \<and> i_file_key i' = i_file_key i \<and>
     i_content_type i' = i_content_type i \<and> i_expires i' = i_expires i \<and> i_created i' = i_created i \<and>
     (i_status i = ''consumed'' \<longrightarrow> i' = i)"

definition job_later :: "job \<Rightarrow> job \<Rightarrow> bool" where
  "job_later j j' \<longleftrightarrow> j_id j' = j_id j \<and> j_tenant j' = j_tenant j \<and> j_intent j' = j_intent j \<and>
     j_file_key j' = j_file_key j \<and> j_title j' = j_title j \<and> j_kind j' = j_kind j \<and> j_created j' = j_created j \<and>
     j_retry j \<le> j_retry j'"

definition history :: "db \<Rightarrow> db \<Rightarrow> bool" where
  "history d0 d \<longleftrightarrow> d_tenants d = d_tenants d0 \<and> length (d_keys d) = length (d_keys d0) \<and>
     grows key_later (d_keys d0) (d_keys d) \<and> grows intent_later (d_intents d0) (d_intents d) \<and>
     grows job_later (d_jobs d0) (d_jobs d) \<and> grows (=) (d_segments d0) (d_segments d) \<and>
     grows (=) (d_job_segments d0) (d_job_segments d) \<and> grows (=) (d_audit d0) (d_audit d)"

lemma history_refl: "history d d"
  by (simp add: history_def grows_same key_later_def intent_later_def job_later_def)

section \<open>Statements\<close>

lemma history_jobs:
  "history d0 d \<Longrightarrow> (\<And>j j'. job_later j j' \<Longrightarrow> job_later j (f j')) \<Longrightarrow>
   history d0 (d\<lparr>d_jobs := update_rows hit f (d_jobs d)\<rparr>)"
  by (simp add: history_def grows_updated)

lemma history_status: "keeps (history d0) (UpdateJobStatus_q P now i0 t0 st sg msg)"
  unfolding UpdateJobStatus_q_def Let_def
  by (intro keeps_uuid keeps_conditions, simp only: stated, erule history_jobs)
    (simp add: job_later_def status_update_def)

lemma history_retry: "keeps (history d0) (RetryJob_q P now i0 t0)"
  unfolding RetryJob_q_def Let_def
  by (intro keeps_uuid keeps_conditions, simp only: stated, erule history_jobs)
    (simp add: job_later_def retry_update_def)

lemma history_claim: "keeps (history d0) (ClaimNextPendingJob_q now locked)"
proof (rule keeps_statement)
  fix d
  assume h: "history d0 d"
  then have "history d0 (d\<lparr>d_jobs := update_rows hit (claim_update now) (d_jobs d)\<rparr>)" for hit
    by (rule history_jobs) (simp add: job_later_def claim_update_def)
  with h show "history d0 (snd (ClaimNextPendingJob_q now locked d))"
    by (simp add: ClaimNextPendingJob_q_def Let_def split: list.split)
qed

lemma history_consume: "keeps (history d0) (MarkUploadIntentConsumed P now key t0)"
  unfolding MarkUploadIntentConsumed_def Let_def
proof (intro keeps_uuid keeps_statement, simp only: stated)
  fix t d
  assume h: "history d0 d"
  have "grows intent_later (d_intents d0) (update_rows (\<lambda>i. i_file_key i = key \<and> i_tenant i = t \<and> i_status i = ''issued'')
      (\<lambda>i. i\<lparr>i_status := ''consumed'', i_consumed := Some now\<rparr>) (d_intents d))"
    by (rule grows_updated) (use h in \<open>auto simp: history_def intent_later_def\<close>)
  with h show "history d0 (d\<lparr>d_intents := update_rows (\<lambda>i. i_file_key i = key \<and> i_tenant i = t \<and> i_status i = ''issued'')
      (\<lambda>i. i\<lparr>i_status := ''consumed'', i_consumed := Some now\<rparr>) (d_intents d)\<rparr>)" by (simp add: history_def)
qed

lemma history_touch: "keeps (history d0) (TouchAPIKeyLastUsed P now i0)"
  unfolding TouchAPIKeyLastUsed_def
proof (intro keeps_uuid keeps_statement, simp only: stated)
  fix i d
  assume h: "history d0 d"
  have "key_later k (k'\<lparr>k_last_used := a, k_updated := b\<rparr>)" if "key_later k k'" for k k' a b
    using that by (simp add: key_later_def)
  with h show "history d0 (d\<lparr>d_keys := update_rows (\<lambda>k. k_id k = i) (\<lambda>k. k\<lparr>k_last_used := Some now, k_updated := now\<rparr>) (d_keys d)\<rparr>)"
    by (simp add: history_def grows_updated) (simp add: update_rows_def)
qed

text \<open>Insertions, and statements on other tables.\<close>

lemma history_append:
  "keeps (history d0) (CreateUploadIntent P i)" "keeps (history d0) (CreateJob_q P j)"
  "keeps (history d0) (InsertAuditLog P al)" "keeps (history d0) (EnsureSegmentByName P sg)"
  "keeps (history d0) (AttachJobSegment P i0 s0 t0)"
  by (auto intro!: keeps_statement simp: CreateUploadIntent_def CreateJob_q_def InsertAuditLog_def EnsureSegmentByName_def
    AttachJobSegment_def attach_def Let_def uuid_arg_def violation_def fail_def guarded_snd history_def grows_more
    split: option.split)

lemma history_elsewhere:
  "keeps (history d0) (AttachVideoSegment P i0 s0 t0)" "keeps (history d0) (SoftDeleteVideo_q P now i0 t0)"
  "keeps (history d0) (DeleteVideoByJobID_q P i0 t0)" "keeps (history d0) (FailVideoByJobID_q P now i0 t0)"
  "keeps (history d0) (UpdateVideoStatus_q P now i0 t0 st)" "keeps (history d0) (UpsertTranscript P tr)"
  "keeps (history d0) (CreateVideo_q P v)" "keeps (history d0) (InsertChunk_q P c)" "keeps (history d0) (UpsertSummary P now m)"
  by (auto intro!: keeps_statement simp: AttachVideoSegment_def attach_def SoftDeleteVideo_q_def DeleteVideoByJobID_q_def
    FailVideoByJobID_q_def UpdateVideoStatus_q_def UpsertTranscript_def CreateVideo_q_def InsertChunk_q_def UpsertSummary_def
    Let_def uuid_arg_def violation_def fail_def guarded_snd history_def split: option.split)

interpretation history: kept_by_statements P "history d0" "\<lambda>_. True" for P d0
  by unfold_locales (simp_all add: history_status history_retry history_claim history_consume history_touch
    history_append history_elsewhere)

section \<open>In every run\<close>



end
