(* ===== verification/Orphan.thy ===== *)
theory Orphan
  imports Schema
begin

text \<open>
  The other side of the graceful shutdown: when the grace period ends, \<open>jobCancel\<close> cancels the context
  of the jobs in flight, and every database call of \<open>fail\<close> with that context is an error. The
  job's row stays as it is, in \<open>processing\<close>, and no request, claim or retention pass changes it any more.
\<close>

section \<open>A job in progress that nobody works on\<close>

definition held :: "job \<Rightarrow> db \<Rightarrow> bool" where
  "held j d \<longleftrightarrow> j_status j = ''processing'' \<and> j \<in> set (d_jobs d) \<and> distinct (map j_id (d_jobs d))"

text \<open>Ids of other jobs.\<close>

definition names_other :: "pg \<Rightarrow> job \<Rightarrow> string \<Rightarrow> bool" where
  "names_other P j i \<longleftrightarrow> pg_uuid P i \<noteq> Some (j_id j)"

lemma held_update:
  assumes "held j d" "\<not> hit j" "\<And>r. j_id (f r) = j_id r"
  shows "held j (d\<lparr>d_jobs := update_rows hit f (d_jobs d)\<rparr>)"
proof -
  have "j \<in> set (update_rows hit f (d_jobs d))"
    using assms(1,2) unfolding held_def update_rows_def set_map by (intro image_eqI [of _ _ j]) simp_all
  then show ?thesis using assms(1,3) by (simp add: held_def)
qed

lemma held_status:
  assumes "names_other P j i0"
  shows "keeps (held j) (UpdateJobStatus_q P now i0 t0 st sg msg)"
proof (rule keeps_statement)
  fix d
  assume h: "held j d"
  have "held j (d\<lparr>d_jobs := update_rows (\<lambda>r. j_id r = i \<and> j_tenant r = t) (status_update now st sg msg) (d_jobs d)\<rparr>)"
    if "pg_uuid P i0 = Some i" for i t
    using that assms by (intro held_update h) (auto simp: names_other_def status_update_def)
  with h show "held j (snd (UpdateJobStatus_q P now i0 t0 st sg msg d))"
    by (simp add: UpdateJobStatus_q_def Let_def uuid_arg_def violation_def fail_def guarded_snd split: option.split)
qed

lemma held_retry: "keeps (held j) (RetryJob_q P now i0 t0)"
  unfolding RetryJob_q_def Let_def
  by (intro keeps_uuid keeps_conditions, simp only: stated, rule held_update) (auto simp: held_def retry_update_def)

lemma held_claim: "keeps (held j) (ClaimNextPendingJob_q now locked)"
proof (rule keeps_statement)
  fix d
  assume h: "held j d"
  show "held j (snd (ClaimNextPendingJob_q now locked d))"
  proof (cases "sort_key j_created (filter (\<lambda>j. j_status j = ''pending'' \<and> \<not> locked j) (d_jobs d))")
    case (Cons n ns)
    then have n: "n \<in> set (d_jobs d)" "j_status n = ''pending''"
      using set_sort [of j_created "filter (\<lambda>j. j_status j = ''pending'' \<and> \<not> locked j) (d_jobs d)"] by auto
    have "j_id j \<noteq> j_id n"
    proof
      assume "j_id j = j_id n"
      moreover have "inj_on j_id (set (d_jobs d))" "j \<in> set (d_jobs d)" using h by (simp_all add: held_def distinct_map)
      ultimately have "j = n" using n(1) by (blast dest: inj_onD)
      with n(2) h show False by (simp add: held_def)
    qed
    then have "held j (d\<lparr>d_jobs := update_rows (\<lambda>r. j_id r = j_id n) (claim_update now) (d_jobs d)\<rparr>)"
      by (intro held_update h) (simp_all add: claim_update_def)
    then show ?thesis by (simp add: ClaimNextPendingJob_q_def Cons Let_def)
  qed (use h in \<open>simp add: ClaimNextPendingJob_q_def\<close>)
qed

lemma held_job: "keeps (held j) (CreateJob_q P a)"
  unfolding CreateJob_q_def
  by (intro keeps_uuid keeps_conditions) (auto simp: held_def Let_def)

lemma of_jobs_held: "of_jobs (held j)"
  by (simp add: of_jobs_def held_def)

lemmas held_elsewhere = jobs_elsewhere [of "held j" for j, OF of_jobs_held]

interpretation held: kept_by_statements P "held j" "names_other P j" for P j
  by unfold_locales (simp_all add: held_status held_retry held_claim held_job held_elsewhere)

section \<open>Cancellation\<close>

text \<open>From tick \<open>n\<close> on, every call to the database is an error: its context is cancelled.\<close>

definition cancelled_from :: "environ \<Rightarrow> nat \<Rightarrow> bool" where
  "cancelled_from E n \<longleftrightarrow> (\<forall>m \<ge> n. e_fault E m \<noteq> None)"

lemma cancelled_tx:
  fixes w :: "'z world_scheme"
  assumes "cancelled_from E (w_tick w)" "quiet E"
  shows "w_db (snd (WithTenantTx E t fn w)) = w_db w \<and> w_tick w \<le> w_tick (snd (WithTenantTx E t fn w))"
  using assms by (auto simp: WithTenantTx_def Let_def cancelled_from_def quiet_def split: option.split)

lemma cancelled_fail:
  fixes w :: "'y job_world_scheme"
  assumes "cancelled_from E (w_tick w)" "quiet E"
  shows "w_db (snd (fail_job E job0 e w)) = w_db w"
proof -
  obtain r w1 where u: "Jobs_UpdateStatus E (j_id job0) (j_tenant job0) ''failed'' (jw_stage w) (Some (sanitizeError e)) w = (r, w1)"
    by fastforce
  with cancelled_tx [OF assms] have w1: "w_db w1 = w_db w" "w_tick w \<le> w_tick w1"
    unfolding Jobs_UpdateStatus_def by (metis snd_conv)+
  then have "cancelled_from E (w_tick w1)" using assms(1) by (simp add: cancelled_from_def)
  note c = cancelled_tx [OF this assms(2)]
  show ?thesis using w1(1) u by (simp add: fail_job_def andthen_def best_effort_def Videos_FailByJobID_def c)
qed


text \<open>The grace period of a shutdown ends; after the restart the operator retries the job and a worker asks for work.\<close>

definition cancelled_env :: environ where
  "cancelled_env = demo_env\<lparr>e_fault := \<lambda>n. Some (Leaf ''context canceled'')\<rparr>"

definition stuck_job :: job where
  "stuck_job = demo_job\<lparr>j_status := ''processing'', j_error := None, j_finished := None\<rparr>"

definition stuck_world :: "string list job_world_scheme" where
  "stuck_world = \<lparr>w_db = demo_db\<lparr>d_jobs := [stuck_job]\<rparr>, w_tick = 0, jw_stage = ''parsing'', \<dots> = []\<rparr>"


end
