(* ===== verification/Exclusive.thy ===== *)
theory Exclusive
  imports Schema
begin

text \<open>
  Several workers on one queue, in this process and in others: a worker claims a job (\<open>FOR UPDATE SKIP
  LOCKED\<close>), works on it, and claims again, while requests, retries included, and retention passes
  go on. \<open>crew\<close> records which worker has claimed which job; the property is that no two of them ever
  have the same one. What happens at the database while one of these steps is under way is the
  \<open>e_other\<close> of its environment, of which only that it keeps the claims is assumed.
\<close>

section \<open>Claims and their rows\<close>

text \<open>The text of a stored uuid is read back as itself.\<close>

definition uuids_stable :: "pg \<Rightarrow> bool" where
  "uuids_stable P \<longleftrightarrow> (\<forall>s u. pg_uuid P s = Some u \<longrightarrow> pg_uuid P u = Some u)"

text \<open>\<open>crew_ok P h d\<close>: the jobs claimed according to \<open>h\<close> are in progress.\<close>

definition crew_ok :: "pg \<Rightarrow> (nat \<Rightarrow> string option) \<Rightarrow> db \<Rightarrow> bool" where
  "crew_ok P h d \<longleftrightarrow> distinct (map j_id (d_jobs d)) \<and>
     (uuids_stable P \<longrightarrow> (\<forall>j \<in> set (d_jobs d). pg_uuid P (j_id j) = Some (j_id j))) \<and>
     (\<forall>i \<in> ran h. \<exists>j \<in> set (d_jobs d). j_id j = i \<and> j_status j = ''processing'')"

definition spares :: "pg \<Rightarrow> (nat \<Rightarrow> string option) \<Rightarrow> string \<Rightarrow> bool" where
  "spares P h s \<longleftrightarrow> (\<forall>i \<in> ran h. pg_uuid P s \<noteq> Some i)"

lemma crew_ok_row:
  assumes "crew_ok P h d" "i \<in> ran h" "r \<in> set (d_jobs d)" "j_id r = i"
  shows "j_status r = ''processing''"
proof -
  obtain j where j: "j \<in> set (d_jobs d)" "j_id j = i" "j_status j = ''processing''"
    using assms(1,2) unfolding crew_ok_def by blast
  have "inj_on j_id (set (d_jobs d))" using assms(1) by (simp add: crew_ok_def distinct_map)
  with j assms(3,4) have "j = r" by (simp add: inj_on_def)
  with j(3) show ?thesis by simp
qed

text \<open>An update of rows that leaves the claimed jobs in progress.\<close>

lemma crew_update:
  assumes "crew_ok P h d" "\<And>r. j_id (f r) = j_id r"
    "\<And>r. r \<in> set (d_jobs d) \<Longrightarrow> hit r \<Longrightarrow> j_id r \<in> ran h' \<Longrightarrow> j_status (f r) = ''processing''"
    "\<And>i. i \<in> ran h' \<Longrightarrow> i \<in> ran h \<or> (\<exists>r \<in> set (d_jobs d). j_id r = i \<and> hit r)"
  shows "crew_ok P h' (d\<lparr>d_jobs := update_rows hit f (d_jobs d)\<rparr>)"
  unfolding crew_ok_def
proof (intro conjI ballI)
  let ?js = "update_rows hit f (d_jobs d)"
  show "distinct (map j_id (d_jobs (d\<lparr>d_jobs := ?js\<rparr>)))" using assms(1,2) by (simp add: crew_ok_def)
  show "uuids_stable P \<longrightarrow> (\<forall>j \<in> set (d_jobs (d\<lparr>d_jobs := ?js\<rparr>)). pg_uuid P (j_id j) = Some (j_id j))"
    using assms(1,2) by (auto simp: crew_ok_def update_rows_def)
  fix i assume i: "i \<in> ran h'"
  have "\<exists>r \<in> set (d_jobs d). j_id r = i \<and> (hit r \<or> j_status r = ''processing'')"
    using assms(1) assms(4) [OF i] unfolding crew_ok_def by blast
  then obtain r where r: "r \<in> set (d_jobs d)" "j_id r = i" "hit r \<or> j_status r = ''processing''" by blast
  then have "(if hit r then f r else r) \<in> set ?js" by (auto simp: update_rows_def)
  moreover have "j_status (if hit r then f r else r) = ''processing''" using r i assms(3) by auto
  ultimately show "\<exists>j \<in> set (d_jobs (d\<lparr>d_jobs := ?js\<rparr>)). j_id j = i \<and> j_status j = ''processing''"
    using r(2) assms(2) by (intro bexI [of _ "if hit r then f r else r"]) simp_all
qed

section \<open>Statements\<close>

lemma crew_status:
  assumes "spares P h i0"
  shows "keeps (crew_ok P h) (UpdateJobStatus_q P now i0 t0 st sg msg)"
proof (rule keeps_statement)
  fix d
  assume c: "crew_ok P h d"
  have "crew_ok P h (d\<lparr>d_jobs := update_rows (\<lambda>r. j_id r = i \<and> j_tenant r = t) (status_update now st sg msg) (d_jobs d)\<rparr>)"
    if "pg_uuid P i0 = Some i" for i t
    by (rule crew_update [OF c]) (use that assms in \<open>auto simp: spares_def status_update_def\<close>)
  with c show "crew_ok P h (snd (UpdateJobStatus_q P now i0 t0 st sg msg d))"
    by (simp add: UpdateJobStatus_q_def Let_def uuid_arg_def violation_def fail_def guarded_snd split: option.split)
qed

lemma crew_retry: "keeps (crew_ok P h) (RetryJob_q P now i0 t0)"
  unfolding RetryJob_q_def Let_def
proof (intro keeps_uuid keeps_conditions, simp only: stated)
  fix i t d
  assume c: "crew_ok P h d"
  show "crew_ok P h (d\<lparr>d_jobs := update_rows (\<lambda>j. j_id j = i \<and> j_tenant j = t \<and> j_status j = ''failed'') (retry_update now) (d_jobs d)\<rparr>)"
    by (rule crew_update [OF c]) (use crew_ok_row [OF c] in \<open>auto simp: retry_update_def\<close>)
qed

text \<open>A claim takes a job that nobody has, and puts it in progress.\<close>

lemma crew_claim:
  assumes "crew_ok P h d" "ClaimNextPendingJob_q now locked d = (r, d')"
  shows "case r of Inl e \<Rightarrow> d' = d | Inr j \<Rightarrow> j_id j \<notin> ran h \<and> (\<forall>h'. ran h' \<subseteq> insert (j_id j) (ran h) \<longrightarrow> crew_ok P h' d')"
proof (cases "sort_key j_created (filter (\<lambda>j. j_status j = ''pending'' \<and> \<not> locked j) (d_jobs d))")
  case Nil
  with assms(2) show ?thesis by (auto simp: ClaimNextPendingJob_q_def)
next
  case (Cons n ns)
  then have n: "n \<in> set (d_jobs d)" "j_status n = ''pending''"
    using set_sort [of j_created "filter (\<lambda>j. j_status j = ''pending'' \<and> \<not> locked j) (d_jobs d)"] by auto
  have "filter (\<lambda>j. j_id j = j_id n) (d_jobs d) = [n]"
    using assms(1) n(1) by (intro distinct_filter_key) (simp_all add: crew_ok_def)
  with assms(2) Cons have r: "r = Inr (claim_update now n)"
    "d' = d\<lparr>d_jobs := update_rows (\<lambda>j. j_id j = j_id n) (claim_update now) (d_jobs d)\<rparr>"
    by (simp_all add: ClaimNextPendingJob_q_def one_row_def ret_def Let_def)
  have "j_id n \<notin> ran h" using crew_ok_row [OF assms(1) _ n(1)] n(2) by auto
  moreover have "crew_ok P h' d'" if "ran h' \<subseteq> insert (j_id n) (ran h)" for h'
    unfolding r(2) by (rule crew_update [OF assms(1)]) (use that n(1) in auto)
  ultimately show ?thesis by (simp add: r(1))
qed

lemma crew_claim_keeps: "keeps (crew_ok P h) (ClaimNextPendingJob_q now locked)"
proof (rule keeps_statement)
  fix d
  assume c: "crew_ok P h d"
  obtain r d' where q: "ClaimNextPendingJob_q now locked d = (r, d')" by fastforce
  from crew_claim [OF c this] c show "crew_ok P h (snd (ClaimNextPendingJob_q now locked d))"
    by (cases r) (auto simp: q)
qed

lemma crew_job: "keeps (crew_ok P h) (CreateJob_q P a)"
proof (rule keeps_statement)
  fix d
  assume "crew_ok P h d"
  then show "crew_ok P h (snd (CreateJob_q P a d))"
    by (auto simp: crew_ok_def CreateJob_q_def Let_def uuid_arg_def violation_def fail_def guarded_snd uuids_stable_def
        split: option.split)
qed

lemma of_jobs_crew: "of_jobs (crew_ok P h)"
  by (simp add: of_jobs_def crew_ok_def)

interpretation crew: kept_by_statements P "crew_ok P h" "spares P h" for P h
  by unfold_locales (simp_all add: crew_status crew_retry crew_claim_keeps crew_job jobs_elsewhere [OF of_jobs_crew])

section \<open>Runs of a crew\<close>

text \<open>What \<open>workerLoop\<close> makes of a claim: a job to work on, or nothing.\<close>

definition taken_job :: "go_error + job option \<Rightarrow> string option" where
  "taken_job r = (case r of Inr (Some job) \<Rightarrow> (if j_id job = [] then None else Some (j_id job)) | _ \<Rightarrow> None)"

text \<open>
  Workers are numbered, over all processes. \<open>Dies\<close>: a process is killed or panics, and its worker forgets
  the job it had.
\<close>

inductive crew :: "pg \<Rightarrow> 'y api_world_ext handler \<Rightarrow> 'x pipeline \<Rightarrow> db \<Rightarrow> db \<Rightarrow> (nat \<Rightarrow> string option) \<Rightarrow> bool"
  for P H D d0 where
  Start: "crew P H D d0 d0 (\<lambda>k. None)"
| Request: "crew P H D d0 (w_db w) h \<Longrightarrow> e_pg E = P \<Longrightarrow> stable E (crew_ok P h) \<Longrightarrow>
    crew P H D d0 (w_db (snd (serve rnd E H req w))) h"
| Claims: "crew P H D d0 (w_db w) h \<Longrightarrow> e_pg E = P \<Longrightarrow> stable E (crew_ok P h) \<Longrightarrow> h k = None \<Longrightarrow>
    Jobs_ClaimNextPending E (w :: 'x job_world_scheme) = (r, w') \<Longrightarrow> crew P H D d0 (w_db w') (h(k := taken_job r))"
| Works: "crew P H D d0 (w_db w) h \<Longrightarrow> e_pg E = P \<Longrightarrow> stable E (crew_ok P (h(k := None))) \<Longrightarrow> h k = Some i \<Longrightarrow>
    crew P H D d0 (w_db (ProcessJob E D i w)) (h(k := None))"
| Cleans: "crew P H D d0 (w_db w) h \<Longrightarrow> e_pg E = P \<Longrightarrow> stable E (crew_ok P h) \<Longrightarrow>
    crew P H D d0 (w_db (snd (runRetention E D w))) h"
| Dies: "crew P H D d0 d h \<Longrightarrow> crew P H D d0 d (h(k := None))"

lemma claimed_step:
  fixes w :: "'z world_scheme"
  assumes "Jobs_ClaimNextPending E w = (r, w')" "stable E (crew_ok (e_pg E) h)" "crew_ok (e_pg E) h (w_db w)" "h k = None"
  shows "crew_ok (e_pg E) (h(k := taken_job r)) (w_db w') \<and> (\<forall>i. taken_job r = Some i \<longrightarrow> i \<notin> ran h)"
proof -
  let ?d = "e_other E (w_tick w) (w_db w)"
  have c: "crew_ok (e_pg E) h ?d" using assms(2,3) by (simp add: stable_def)
  have same: "h(k := None) = h" using assms(4) by auto
  obtain x d' where q: "ClaimNextPendingJob_q (e_time E (w_tick w)) (e_locked E (w_tick w)) ?d = (x, d')" by fastforce
  note n = crew_claim [OF c q]
  show ?thesis
  proof (cases "e_fault E (w_tick w)")
    case None
    show ?thesis
    proof (cases x)
      case (Inl e)
      with assms(1) None q n c same show ?thesis
        by (auto simp: Jobs_ClaimNextPending_def pool_stmt_def stmt_def taken_job_def split: if_splits)
    next
      case (Inr j)
      then have r: "r = Inr (Some (mapJob j))" "w_db w' = d'"
        using assms(1) None q by (auto simp: Jobs_ClaimNextPending_def pool_stmt_def stmt_def)
      have "ran (h(k := taken_job r)) \<subseteq> insert (j_id j) (ran h)"
        by (auto simp: r taken_job_def ran_def split: if_splits)
      with n Inr r show ?thesis by (simp add: taken_job_def)
    qed
  next
    case (Some e)
    with assms(1) c same show ?thesis
      by (auto simp: Jobs_ClaimNextPending_def pool_stmt_def stmt_def taken_job_def split: if_splits)
  qed
qed

lemma ran_release: "ran (h(k := None)) \<subseteq> ran h"
  by (auto simp: ran_def)

lemma crew_ok_fewer: "crew_ok P h d \<Longrightarrow> ran h' \<subseteq> ran h \<Longrightarrow> crew_ok P h' d"
  unfolding crew_ok_def by blast

lemma crew_ok_uuid: "crew_ok P h d \<Longrightarrow> uuids_stable P \<Longrightarrow> i \<in> ran h \<Longrightarrow> pg_uuid P i = Some i"
  by (auto simp: crew_ok_def)

lemma spares_others:
  assumes "inj_on h (dom h)" "h k = Some i" "pg_uuid P i = Some i" "pg_uuid P i = Some u"
  shows "spares P (h(k := None)) u"
proof -
  have "l = k" if "h l = Some i" for l
    using inj_onD [OF assms(1), of l k] assms(2) that by auto
  then have "i \<notin> ran (h(k := None))" by (auto simp: ran_def)
  then show ?thesis using assms(3,4) by (auto simp: spares_def)
qed

lemma crew_invariant:
  assumes "crew P H D d0 d h" "ports_inert H" "inert_ports D" "uuids_stable P" "crew_ok P (\<lambda>k. None) d0"
  shows "crew_ok P h d \<and> inj_on h (dom h)"
  using assms(1)
proof (induction rule: crew.induct)
  case Start
  show ?case using assms(5) by simp
next
  case (Request w h E rnd req)
  with db_invariant.serve_keeps [OF crew.session assms(2)] show ?case by blast
next
  case (Claims w h E k r w')
  from claimed_step [OF Claims.hyps(5)] Claims have c: "crew_ok P (h(k := taken_job r)) (w_db w')"
    "\<forall>i. taken_job r = Some i \<longrightarrow> i \<notin> ran h" by auto
  have "inj_on (h(k := taken_job r)) (dom (h(k := taken_job r)))"
    using Claims.IH c(2) by (auto simp: inj_on_def ran_def dom_def split: if_splits)
  with c(1) show ?case by blast
next
  case (Works w h E k i)
  have "i \<in> ran h" using Works.hyps(4) by (auto simp: ran_def)
  with Works.IH assms(4) have i: "pg_uuid P i = Some i" by (blast intro: crew_ok_uuid)
  have "spares P (h(k := None)) u" if "pg_uuid P i = Some u" for u
    by (rule spares_others [OF Works.IH [THEN conjunct2] Works.hyps(4) i that])
  moreover have "crew_ok P (h(k := None)) (w_db w)"
    by (rule crew_ok_fewer [OF Works.IH [THEN conjunct1] ran_release])
  ultimately have "crew_ok P (h(k := None)) (w_db (ProcessJob E D i w))"
    using db_invariant.process_keeps [OF crew.session [OF Works.hyps(2,3)] assms(3)] Works.hyps(2) by blast
  moreover have "inj_on (h(k := None)) (dom (h(k := None)))"
    using Works.IH by (auto simp: inj_on_def dom_def split: if_splits)
  ultimately show ?case by (rule conjI)
next
  case (Cleans w h E)
  with db_invariant.retention_keeps [OF crew.session assms(3)] show ?case by blast
next
  case (Dies d h k)
  then have "crew_ok P (h(k := None)) d" by (blast intro: crew_ok_fewer [OF _ ran_release])
  moreover have "inj_on (h(k := None)) (dom (h(k := None)))"
    using Dies.IH by (auto simp: inj_on_def dom_def split: if_splits)
  ultimately show ?case by (rule conjI)
qed



end
