(* ===== verification/Publish.thy ===== *)
theory Publish
  imports WorkerData Schema
begin

text \<open>
  What a completed job leaves behind: one material of the job's tenant with its transcript and its
  chunks, ready for search. The steps of \<open>pipelineDeps.run\<close> are specified one by one on the rows of the
  new video, by what holds of the database after a success, and chained the way the code does.
\<close>

section \<open>Success triples\<close>

text \<open>\<open>results A m B\<close>: from a database with \<open>A\<close>, a success of \<open>m\<close> with the value \<open>a\<close> leads to one with \<open>B a\<close>.\<close>

definition results :: "(db \<Rightarrow> bool) \<Rightarrow> ('z, 'a) act \<Rightarrow> ('a \<Rightarrow> db \<Rightarrow> bool) \<Rightarrow> bool" where
  "results A m B \<longleftrightarrow> (\<forall>w a w'. A (w_db w) \<longrightarrow> m w = (Inr a, w') \<longrightarrow> B a (w_db w'))"

lemma resultsD: "results A m B \<Longrightarrow> A (w_db w) \<Longrightarrow> m w = (Inr a, w') \<Longrightarrow> B a (w_db w')"
  unfolding results_def by blast

lemma results_andthen: "results A m B \<Longrightarrow> (\<And>a. results (B a) (f a) C) \<Longrightarrow> results A (andthen m f) C"
  unfolding results_def andthen_ok by blast

lemma results_map_err: "results A m B \<Longrightarrow> results A (map_err g m) B"
  by (simp add: results_def map_err_ok)

lemma results_ret: "(\<And>d. A d \<Longrightarrow> B a d) \<Longrightarrow> results A (ret a) B"
  by (simp add: results_def ret_def)

lemma results_fail: "results A (fail e) B"
  by (simp add: results_def fail_def)

lemma results_if: "(b \<Longrightarrow> results A m B) \<Longrightarrow> (\<not> b \<Longrightarrow> results A n B) \<Longrightarrow> results A (if b then m else n) B"
  by simp

lemma results_ex: "(\<And>x. results (A x) m B) \<Longrightarrow> results (\<lambda>d. \<exists>x. A x d) m B"
  unfolding results_def by blast

lemma results_pure: "(p \<Longrightarrow> results A m B) \<Longrightarrow> results (\<lambda>d. p \<and> A d) m B"
  unfolding results_def by blast

lemma results_post: "results A m B \<Longrightarrow> (\<And>a d. B a d \<Longrightarrow> C a d) \<Longrightarrow> results A m C"
  unfolding results_def by blast

lemma results_keeps: "keeps_db A m \<Longrightarrow> results A m (\<lambda>_. A)"
  by (simp add: results_def keeps_def) (metis snd_conv)

text \<open>A value comes from a call that returned it.\<close>

lemma results_value: "results A m B \<Longrightarrow> results A m (\<lambda>a d. (\<exists>w w'. m w = (Inr a, w')) \<and> B a d)"
  unfolding results_def by blast

lemma results_frame: "preserves g m \<Longrightarrow> results (\<lambda>d. Q (g d)) m (\<lambda>_ d. Q (g d))"
  by (intro results_keeps) (simp add: keeps_def preserves_def)

lemma results_tx:
  assumes "quiet E" "\<And>now. results A (fn now) B"
  shows "results A (WithTenantTx E t fn) B"
  unfolding results_def
proof (intro allI impI)
  fix w :: "'a world_scheme" and a and w' :: "'a world_scheme"
  assume "A (w_db w)" "WithTenantTx E t fn w = (Inr a, w')"
  with assms(1) obtain now and w1 w2 :: "'a world_scheme" where
    "fn now w1 = (Inr a, w2)" "w_db w1 = w_db w" "w_db w' = w_db w2" by (auto simp: quiet_def elim!: tx_ok)
  with resultsD [OF assms(2)] \<open>A (w_db w)\<close> show "B a (w_db w')" by metis
qed

lemma results_stmt: "(\<And>d a d'. A d \<Longrightarrow> q d = (Inr a, d') \<Longrightarrow> B a d') \<Longrightarrow> results A (stmt E q) B"
  by (auto simp: results_def stmt_ok)

lemma results_deferred:
  assumes "results A m B" "\<And>w. w_db (f w) = w_db w"
  shows "results A (deferred f m) B"
  unfolding results_def
proof (intro allI impI)
  fix w :: "'a world_scheme" and a and w' :: "'a world_scheme"
  assume a: "A (w_db w)" "deferred f m w = (Inr a, w')"
  then obtain w1 where "m w = (Inr a, w1)" "w' = f w1" by (auto simp: deferred_ok)
  with resultsD [OF assms(1) a(1)] assms(2) show "B a (w_db w')" by simp
qed

section \<open>The rows of a material\<close>

text \<open>The videos of the job, those of the id, its transcripts and its chunks.\<close>

definition entry :: "string \<Rightarrow> string \<Rightarrow> db \<Rightarrow> video list \<times> video list \<times> transcript list \<times> chunk list" where
  "entry jid vid d = (filter (\<lambda>v. v_job v = jid) (d_videos d), filter (\<lambda>v. v_id v = vid) (d_videos d),
     filter (\<lambda>r. t_video r = vid) (d_transcripts d), filter (\<lambda>c. c_video c = vid) (d_chunks d))"

definition pages :: "db \<Rightarrow> video list \<times> transcript list \<times> chunk list" where
  "pages d = (d_videos d, d_transcripts d, d_chunks d)"

lemma results_pages: "preserves pages m \<Longrightarrow> results (\<lambda>d. entry jid vid d = x) m (\<lambda>_ d. entry jid vid d = x)"
  by (rule results_keeps) (auto simp: keeps_def preserves_def pages_def entry_def)

lemmas pieces = preserves_basic preserves_andthen preserves_map_err preserves_for_collect preserves_for_each
  preserves_best_effort preserves_if preserves_stmt preserves_tx preserves_ports

lemma pages_same [simp]:
  "pages (snd (EnsureSegmentByName P s d)) = pages d" "pages (snd (AttachVideoSegment P a b c d)) = pages d"
  "pages (snd (ListSegmentNamesByJobID P a b d)) = pages d" "pages (snd (UpsertSummary P now sm d)) = pages d"
  "pages (snd (UpdateJobStatus_q P now a b st sg msg d)) = pages d"
  by (auto simp: pages_def EnsureSegmentByName_def AttachVideoSegment_def attach_def UpsertSummary_def
      ListSegmentNamesByJobID_def UpdateJobStatus_q_def uuid_arg_def violation_def fail_def guarded_snd Let_def
      split: option.split)

lemma pages_repos:
  assumes "quiet E"
  shows "preserves pages (copyJobSegments E job vid)" "preserves pages (setStage E job stage)"
    "preserves pages (Jobs_UpdateStatus E a b st sg msg)" "preserves pages (recordSummary E job video s)"
proof -
  have u: "preserves pages (Jobs_UpdateStatus E a b st sg msg)" for a b st sg msg
    unfolding Jobs_UpdateStatus_def by (intro pieces assms pages_same)
  then show "preserves pages (Jobs_UpdateStatus E a b st sg msg)" .
  show "preserves pages (setStage E job stage)"
    unfolding setStage_def by (intro pieces u) (simp add: preserves_def)
qed (unfold copyJobSegments_def Segments_ListNamesByJobID_def Segments_EnsureByName_def
  Segments_AttachVideoSegments_def recordSummary_def Summaries_Upsert_def, (intro pieces assms pages_same)+)


section \<open>The steps\<close>

text \<open>A fresh video has no transcript and no chunks, by the foreign keys.\<close>

lemma cleanup_step:
  assumes "quiet E"
  shows "results (schema_ok (e_pg E)) (Videos_DeleteByJobID E a b) (\<lambda>_. schema_ok (e_pg E))"
  unfolding Videos_DeleteByJobID_def
  by (intro results_keeps tx_keeps quiet_stable assms stmt_keeps schema.delete_video)

definition draft :: "job \<Rightarrow> video \<Rightarrow> bool" where
  "draft job v \<longleftrightarrow> v_tenant v = j_tenant job \<and> v_job v = j_id job \<and> v_title v = j_title job \<and> v_kind v = j_kind job \<and>
     v_file_key v = j_file_key job \<and> v_deleted v = None"

lemma create_step:
  fixes job :: job
  assumes "quiet E" "pg_uuid (e_pg E) (j_id job) = Some (j_id job)" "pg_uuid (e_pg E) (j_tenant job) = Some (j_tenant job)"
    "draft job video"
  shows "results (schema_ok (e_pg E)) (Videos_Create E video) (\<lambda>_ d. \<exists>v. (draft job v \<and> pg_uuid (e_pg E) (v_id video) = Some (v_id v)) \<and>
    entry (j_id job) (v_id v) d = ([v], [v], [], []))"
  unfolding Videos_Create_def
proof (intro results_tx assms(1) results_andthen results_stmt results_ret)
  fix now d a d'
  let ?video = "video\<lparr>v_duration := fromIntPtr (v_duration video), v_deleted := fromTimePtr (v_deleted video),
    v_created := fromTime (v_created video), v_updated := fromTime (v_updated video)\<rparr>"
  assume s: "schema_ok (e_pg E) d" and c: "CreateVideo_q (e_pg E) ?video d = (Inr a, d')"
  from c assms(2-4) obtain u where u: "pg_uuid (e_pg E) (v_id video) = Some u" "u \<notin> v_id ` set (d_videos d)"
      "j_id job \<notin> v_job ` set (d_videos d)" "d' = d\<lparr>d_videos := d_videos d @ [a]\<rparr>"
      "a = ?video\<lparr>v_id := u, v_tenant := j_tenant job, v_job := j_id job\<rparr>"
    by (auto simp: CreateVideo_q_def uuid_arg_ok guarded_ok Let_def draft_def)
  then have "filter (\<lambda>v. v_job v = j_id job) (d_videos d) = []" "filter (\<lambda>v. v_id v = u) (d_videos d) = []"
    "filter (\<lambda>r. t_video r = u) (d_transcripts d) = []" "filter (\<lambda>c. c_video c = u) (d_chunks d) = []"
    using schema_tables(8,9) [OF s] by (force simp: filter_empty_conv transcripts_table_def chunks_table_def)+
  then have "entry (j_id job) (v_id a) d' = ([a], [a], [], [])" using u(4,5) by (simp add: entry_def)
  moreover have "draft job a" using assms(4) u(5) by (simp add: draft_def fromTimePtr_def)
  ultimately show "\<exists>v. (draft job v \<and> pg_uuid (e_pg E) (v_id video) = Some (v_id v)) \<and>
      entry (j_id job) (v_id v) d' = ([v], [v], [], [])"
    using u(1,5) by (intro exI [of _ a]) simp
qed assumption

lemma upsert_step:
  assumes "quiet E" "pg_uuid (e_pg E) (t_video tr) = Some vid"
  shows "results (\<lambda>d. entry jid vid d = (vs, us, [], [])) (Transcripts_Upsert E tr)
    (\<lambda>_ d. \<exists>r. t_content r = t_content tr \<and> entry jid vid d = (vs, us, [r], []))" (is "results ?A _ (\<lambda>_. ?B)")
  unfolding Transcripts_Upsert_def
proof (intro results_tx assms(1), rule results_andthen)
  show "results ?A (stmt E (UpsertTranscript (e_pg E) (tr\<lparr>t_language := fromStrPtr (t_language tr),
      t_model := fromStrPtr (t_model tr), t_created := fromTime (t_created tr)\<rparr>))) (\<lambda>_. ?B)"
    by (rule results_stmt) (use assms(2) in \<open>auto simp: UpsertTranscript_def uuid_arg_ok guarded_ok Let_def entry_def\<close>)
qed (rule results_ret)

lemma transcript_step:
  assumes "quiet E" "pg_uuid (e_pg E) (v_id video) = Some vid"
  shows "results (\<lambda>d. entry jid vid d = (vs, us, [], [])) (upsert_transcript E job video tr0)
    (\<lambda>tr d. t_content tr = t_content tr0 \<and> (\<exists>r. t_content r = t_content tr \<and> entry jid vid d = (vs, us, [r], [])))"
    (is "results ?A _ ?B")
proof -
  have "results ?A (andthen (map_err g (Transcripts_Upsert E (tr0\<lparr>t_tenant := a, t_video := v_id video, t_created := now\<rparr>)))
      (\<lambda>_. ret (tr0\<lparr>t_tenant := a, t_video := v_id video, t_created := now\<rparr>))) ?B" for a now g
    by (rule results_andthen, rule results_map_err, rule upsert_step [OF assms(1)])
      (use assms(2) in \<open>auto intro: results_ret\<close>)
  then show ?thesis unfolding upsert_transcript_def Let_def
    by (intro results_andthen [OF results_pages [OF preserves_basic(3)]])
qed

text \<open>What the file of a job says: the content of its transcription, or of its parse.\<close>

definition extracted :: "'y pipeline \<Rightarrow> job \<Rightarrow> string \<Rightarrow> bool" where
  "extracted D job content \<longleftrightarrow>
     (if j_kind job = ''pdf'' then \<exists>dest mime w w'. p_parse D dest mime w = (Inr content, w')
      else \<exists>dest w tr w'. p_transcribe D dest w = (Inr tr, w') \<and> t_content tr = content)"

lemma extract_step:
  fixes D :: "'y pipeline"
  assumes "quiet E" "inert_ports D" "pg_uuid (e_pg E) (v_id video) = Some vid"
  shows "results (\<lambda>d. entry jid vid d = (vs, us, [], [])) (extractTranscript E D job video)
    (\<lambda>tr d. extracted D job (t_content tr) \<and> (\<exists>r. t_content r = t_content tr \<and> entry jid vid d = (vs, us, [r], [])))"
    (is "results ?A _ ?B")
proof -
  let ?C = "\<lambda>tr0 tr d. t_content tr = t_content (tr0 :: transcript) \<and>
    (\<exists>r. t_content r = t_content tr \<and> entry jid vid d = (vs, us, [r], []))"
  note p = pages_repos [OF assms(1)] preserves_validate [OF assms(2)] preserves_ports [OF assms(2)]
  have media: "results ?A (andthen (map_err g (p_transcribe D dest)) (upsert_transcript E job video)) ?B"
    if "j_kind job \<noteq> ''pdf''" for dest g
    by (rule results_andthen, rule results_map_err, rule results_value, rule results_pages, rule p, rule results_pure,
        rule results_post, rule transcript_step [OF assms(1,3)]) (use that in \<open>auto simp: extracted_def\<close>)
  have pdf: "results ?A (andthen (map_err g (p_parse D dest mt)) (\<lambda>text1. upsert_transcript E job video
      \<lparr>t_id = [], t_tenant = [], t_video = [], t_content = text1, t_language = None, t_model = None, t_created = zero_time\<rparr>)) ?B"
    if "j_kind job = ''pdf''" for dest mt g
    by (rule results_andthen, rule results_map_err, rule results_value, rule results_pages, rule p, rule results_pure,
        rule results_post, rule transcript_step [OF assms(1,3)]) (use that in \<open>auto simp: extracted_def\<close>)
  have "results ?A (extract_from E D job video dest) ?B" for dest
    unfolding extract_from_def
    by (intro results_andthen [OF results_pages] results_andthen [OF results_map_err [OF results_pages]] results_if
        results_fail media pdf p) auto
  then have "results ?A (deferred (p_rmdir D dir) (extract_from E D job video dest)) ?B" for dir dest
    by (rule results_deferred) (use assms(2) in \<open>simp add: inert_ports_def\<close>)
  then show ?thesis unfolding extractTranscript_def
    by (intro results_andthen [OF results_map_err [OF results_pages]] p)
qed

text \<open>The chunks: the sections in order, with the vectors of the consecutive batches.\<close>

definition vectors :: "'y pipeline \<Rightarrow> string list \<Rightarrow> vec list \<Rightarrow> bool" where
  "vectors D sections es \<longleftrightarrow> (\<exists>vss. es = concat vss \<and> list_all2 (\<lambda>b vs. \<exists>w w'. p_embed D b w = (Inr vs, w'))
     (batches (nat (if p_batch D \<le> 0 then 16 else p_batch D)) sections) vss)"

lemma embed_step:
  assumes "inert_ports D" "\<forall>texts w vs w'. p_embed D texts w = (Inr vs, w') \<longrightarrow> length vs = length texts"
  shows "results (\<lambda>d. entry jid vid d = x) (embedSections E D job video sections) (\<lambda>cs d.
    (map c_content cs = sections \<and> map c_index cs = map int [0..<length sections] \<and>
     (\<forall>c \<in> set cs. c_tenant c = j_tenant job \<and> c_video c = v_id video) \<and> vectors D sections (map c_embedding cs)) \<and>
    entry jid vid d = x)"
proof (rule results_post, rule results_value, rule results_pages, rule preserves_embed [OF assms(1)])
  fix cs d
  assume a: "(\<exists>w w'. embedSections E D job video sections w = (Inr cs, w')) \<and> entry jid vid d = x"
  then obtain w w' where e: "embedSections E D job video sections w = (Inr cs, w')" by blast
  note s = sections_embedded [OF e, folded vectors_def]
  show "(map c_content cs = sections \<and> map c_index cs = map int [0..<length sections] \<and>
      (\<forall>c \<in> set cs. c_tenant c = j_tenant job \<and> c_video c = v_id video) \<and> vectors D sections (map c_embedding cs)) \<and>
      entry jid vid d = x"
    by (intro conjI s [THEN conjunct1] s [THEN conjunct2, THEN conjunct1] s [THEN conjunct2, THEN conjunct2, THEN conjunct1]
        s [THEN conjunct2, THEN conjunct2, THEN conjunct2] a [THEN conjunct2]) (erule assms(2) [rule_format])+
qed

definition stored_as :: "string \<Rightarrow> string \<Rightarrow> chunk \<Rightarrow> chunk \<Rightarrow> bool" where
  "stored_as t vid c c' \<longleftrightarrow> c_tenant c' = t \<and> c_video c' = vid \<and> c_content c' = c_content c \<and>
     c_index c' = wrap32 (c_index c) \<and> c_embedding c' = c_embedding c"

lemma insert_steps:
  assumes "pg_uuid (e_pg E) t = Some t" "pg_uuid (e_pg E) u = Some vid" "\<forall>c \<in> set cs. c_tenant c = t \<and> c_video c = u"
  shows "results (\<lambda>d. entry jid vid d = (vs, us, ts, xs)) (for_each (\<lambda>c. andthen (stmt E (InsertChunk_q (e_pg E)
      (c\<lparr>c_index := wrap32 (c_index c), c_created := fromTime (c_created c)\<rparr>))) (\<lambda>_. ret ())) cs)
    (\<lambda>_ d. \<exists>cs'. list_all2 (stored_as t vid) cs cs' \<and> entry jid vid d = (vs, us, ts, xs @ cs'))"
    (is "results _ (for_each ?f cs) _")
  using assms(3)
proof (induction cs arbitrary: xs)
  case Nil
  then show ?case by (auto intro: results_ret)
next
  case (Cons c cs)
  let ?B = "\<lambda>c' d. stored_as t vid c c' \<and> entry jid vid d = (vs, us, ts, xs @ [c'])"
    and ?C = "\<lambda>_ d. \<exists>cs'. list_all2 (stored_as t vid) (c # cs) cs' \<and> entry jid vid d = (vs, us, ts, xs @ cs')"
  have s: "results (\<lambda>d. entry jid vid d = (vs, us, ts, xs)) (?f c) (\<lambda>_ d. \<exists>c'. ?B c' d)"
  proof (rule results_andthen, rule results_stmt [where B = "\<lambda>_ d. \<exists>c'. ?B c' d"])
    fix d a d'
    let ?c = "c\<lparr>c_index := wrap32 (c_index c), c_created := fromTime (c_created c)\<rparr>"
    let ?a = "\<lambda>i. ?c\<lparr>c_id := i, c_tenant := t, c_video := vid\<rparr>"
    assume e: "entry jid vid d = (vs, us, ts, xs)" and q: "InsertChunk_q (e_pg E) ?c d = (Inr a, d')"
    have "c_tenant ?c = t" "c_video ?c = u" using Cons.prems by simp_all
    with q assms(1,2) obtain i where "d' = d\<lparr>d_chunks := d_chunks d @ [?a i]\<rparr>"
      by (auto simp: InsertChunk_q_def uuid_arg_ok guarded_ok Let_def)
    with e have "?B (?a i) d'" by (simp add: entry_def stored_as_def)
    then show "\<exists>c'. ?B c' d'" by blast
  qed (rule results_ret)
  have "results (\<lambda>d. \<exists>c'. ?B c' d) (for_each ?f cs) ?C"
  proof (intro results_ex results_pure)
    fix c'
    assume c': "stored_as t vid c c'"
    have p: "\<forall>c \<in> set cs. c_tenant c = t \<and> c_video c = u" using Cons.prems by simp
    show "results (\<lambda>d. entry jid vid d = (vs, us, ts, xs @ [c'])) (for_each ?f cs) ?C"
    proof (rule results_post [OF Cons.IH [OF p]])
      fix d
      assume "\<exists>cs'. list_all2 (stored_as t vid) cs cs' \<and> entry jid vid d = (vs, us, ts, (xs @ [c']) @ cs')"
      then obtain cs' where "list_all2 (stored_as t vid) cs cs'" "entry jid vid d = (vs, us, ts, xs @ c' # cs')" by auto
      with c' show "?C () d" by (intro exI [of _ "c' # cs'"]) simp
    qed
  qed
  then show ?case unfolding for_each.simps by (rule results_andthen [OF s])
qed

lemma insert_step:
  assumes "quiet E" "pg_uuid (e_pg E) t = Some t" "pg_uuid (e_pg E) u = Some vid"
    "\<forall>c \<in> set cs. c_tenant c = t \<and> c_video c = u"
  shows "results (\<lambda>d. entry jid vid d = (vs, us, ts, [])) (if cs \<noteq> [] then map_err g (Chunks_Insert E cs) else ret ())
    (\<lambda>_ d. \<exists>cs'. list_all2 (stored_as t vid) cs cs' \<and> entry jid vid d = (vs, us, ts, cs'))"
proof (cases cs)
  case Nil
  then show ?thesis by (auto intro: results_ret)
next
  case (Cons c0 cs0)
  then show ?thesis
    using insert_steps [OF assms(2,3), of cs jid vs us ts "[]"] assms(4)
    by (simp add: Chunks_Insert_def) (intro results_map_err results_tx assms(1), simp)
qed

lemma filter_update: "(\<And>r. p (f r) = p r) \<Longrightarrow> filter p (update_rows hit f rs) = update_rows hit f (filter p rs)"
  by (induction rs) (auto simp: update_rows_def)

lemma update_one: "update_rows hit f [r] = [if hit r then f r else r]"
  by (simp add: update_rows_def)

lemma publish_step:
  assumes "quiet E" "pg_uuid (e_pg E) t = Some t" "pg_uuid (e_pg E) u = Some (v_id v)" "v_tenant v = t"
  shows "results (\<lambda>d. entry jid (v_id v) d = ([v], [v], ts, cs)) (Videos_UpdateStatus E u t st)
    (\<lambda>_ d. \<exists>now. entry jid (v_id v) d = ([v\<lparr>v_status := st, v_updated := now\<rparr>], [v\<lparr>v_status := st, v_updated := now\<rparr>], ts, cs))"
    (is "results ?A _ (\<lambda>_. ?B)")
  unfolding Videos_UpdateStatus_def
proof (intro results_tx assms(1), rule results_andthen)
  fix now
  show "results ?A (stmt E (UpdateVideoStatus_q (e_pg E) now u t st)) (\<lambda>_. ?B)"
    by (rule results_stmt) (use assms(2-4) in \<open>auto simp: UpdateVideoStatus_q_def uuid_arg_ok guarded_ok one_row_ok
      Let_def entry_def filter_update update_one\<close>)
qed (rule results_ret)

section \<open>The pipeline\<close>

text \<open>What a completed job has published.\<close>

definition published :: "pg \<Rightarrow> 'y pipeline \<Rightarrow> job \<Rightarrow> db \<Rightarrow> bool" where
  "published P D job d \<longleftrightarrow> (\<exists>v r cs. entry (j_id job) (v_id v) d = ([v], [v], [r], cs) \<and> draft job v \<and>
     v_status v = ''completed'' \<and> extracted D job (t_content r) \<and>
     map c_content cs = Chunk (t_content r) \<and> map c_index cs = map (\<lambda>i. wrap32 (int i)) [0..<length cs] \<and>
     vectors D (Chunk (t_content r)) (map c_embedding cs) \<and>
     (\<forall>c \<in> set cs. c_tenant c = j_tenant job \<and> (c, v) \<in> set (search_rows P (j_tenant job) None d)))"

lemma entry_searchable:
  assumes "entry jid (v_id v) d = ([v], [v], ts, cs)" "c \<in> set cs" "c_tenant c = t" "v_status v = ''completed''"
    "v_deleted v = None"
  shows "(c, v) \<in> set (search_rows P t None d)"
proof -
  have "c \<in> set (d_chunks d)" "c_video c = v_id v" using assms(1,2) by (auto simp: entry_def)
  moreover have "v \<in> set (d_videos d)"
    using assms(1) by (metis entry_def filter_is_subset list.set_intros(1) prod.inject subsetD)
  ultimately show ?thesis using assms(3-5) by (auto simp: search_rows_def in_segment_def intro!: bexI [of _ c])
qed

lemma stored_rows:
  assumes "list_all2 (stored_as t vid) cs cs'" "map c_index cs = map int [0..<n]"
  shows "map c_content cs' = map c_content cs" "map c_embedding cs' = map c_embedding cs"
    "map c_index cs' = map (\<lambda>i. wrap32 (int i)) [0..<length cs']" "\<forall>c \<in> set cs'. c_tenant c = t"
proof -
  note l = list_all2_lengthD [OF assms(1)] and s = list_all2_nthD [OF assms(1), unfolded stored_as_def]
  have n: "length cs = n" using arg_cong [OF assms(2), of length] by simp
  have i: "c_index (cs ! i) = int i" if "i < n" for i
    using arg_cong [OF assms(2), of "\<lambda>xs. xs ! i"] that n by simp
  show "map c_content cs' = map c_content cs" "map c_embedding cs' = map c_embedding cs"
    "map c_index cs' = map (\<lambda>i. wrap32 (int i)) [0..<length cs']"
    by (rule nth_equalityI; use l s i n in simp)+
  show "\<forall>c \<in> set cs'. c_tenant c = t" using l s by (auto simp: in_set_conv_nth)
qed

lemma run_from_step:
  fixes D :: "'y pipeline" and job :: job
  assumes "quiet E" "inert_ports D" "pg_uuid (e_pg E) (j_tenant job) = Some (j_tenant job)"
    "pg_uuid (e_pg E) (v_id video) = Some (v_id v)" "draft job v" "extracted D job (t_content tr)" "t_content r = t_content tr"
    "\<forall>texts w vs w'. p_embed D texts w = (Inr vs, w') \<longrightarrow> length vs = length texts"
  shows "results (\<lambda>d. entry (j_id job) (v_id v) d = ([v], [v], [r], [])) (run_from E D job video tr)
    (\<lambda>_. published (e_pg E) D job)" (is "results ?A _ ?B")
proof -
  let ?ss = "Chunk (t_content tr)" and ?e = "entry (j_id job) (v_id v)"
  note p = pages_repos [OF assms(1)]
  have tail: "results (\<lambda>d. ?e d = ([v], [v], [r], cs')) (andthen (map_err g1
        (Jobs_UpdateStatus E (j_id job) (j_tenant job) ''completed'' ''completed'' None)) (\<lambda>_.
      andthen (map_err g2 (Videos_UpdateStatus E (v_id video) (j_tenant job) ''completed'')) (\<lambda>_.
        generateSummary E D job video tr))) ?B"
    if c: "map c_content cs = ?ss \<and> map c_index cs = map int [0..<length ?ss] \<and> vectors D ?ss (map c_embedding cs)"
      "list_all2 (stored_as (j_tenant job) (v_id v)) cs cs'" for cs cs' g1 g2
  proof -
    note s = stored_rows [OF c(2) c(1) [THEN conjunct2, THEN conjunct1]]
    have "results (\<lambda>d. ?e d = ([v\<lparr>v_status := ''completed'', v_updated := now\<rparr>], [v\<lparr>v_status := ''completed'', v_updated := now\<rparr>], [r], cs'))
        (generateSummary E D job video tr) ?B" for now
    proof (rule results_post [OF results_pages [OF preserves_generate_if [OF assms(2) p(4)]]])
      fix d
      let ?v = "v\<lparr>v_status := ''completed'', v_updated := now\<rparr>"
      assume e: "?e d = ([?v], [?v], [r], cs')"
      then have "entry (j_id job) (v_id ?v) d = ([?v], [?v], [r], cs')" by simp
      moreover from entry_searchable [OF this] s(4) assms(5) have "(c, ?v) \<in> set (search_rows (e_pg E) (j_tenant job) None d)"
        if "c \<in> set cs'" for c using that by (simp add: draft_def)
      ultimately show "published (e_pg E) D job d"
        unfolding published_def using assms(5-7) c(1) s
        by (intro exI [of _ ?v] exI [of _ r] exI [of _ cs']) (simp add: draft_def)
    qed
    note fin = results_ex [OF this]
    have v: "v_tenant v = j_tenant job" using assms(5) by (simp add: draft_def)
    show ?thesis
      by (intro results_andthen [OF results_map_err [OF results_pages [OF p(3)]]]
          results_andthen [OF results_map_err [OF publish_step [OF assms(1,3,4) v]]] fin)
  qed
  show ?thesis
    unfolding run_from_def
  proof (intro results_andthen [OF results_pages [OF p(2)]] results_andthen [OF embed_step [OF assms(2,8)]] results_pure)
    fix cs :: "chunk list"
    assume c: "map c_content cs = ?ss \<and> map c_index cs = map int [0..<length ?ss] \<and>
      (\<forall>c \<in> set cs. c_tenant c = j_tenant job \<and> c_video c = v_id video) \<and> vectors D ?ss (map c_embedding cs)"
    then have t: "\<forall>c \<in> set cs. c_tenant c = j_tenant job \<and> c_video c = v_id video" by blast
    show "results ?A (andthen (if cs \<noteq> [] then map_err (wrapf ''worker: insert chunks'') (Chunks_Insert E cs) else ret ())
      (\<lambda>_. andthen (map_err (wrapf ''worker: complete job'') (Jobs_UpdateStatus E (j_id job) (j_tenant job) ''completed'' ''completed'' None)) (\<lambda>_.
      andthen (map_err (wrapf ''worker: complete video'') (Videos_UpdateStatus E (v_id video) (j_tenant job) ''completed'')) (\<lambda>_.
        generateSummary E D job video tr)))) ?B"
      by (rule results_andthen [OF insert_step [OF assms(1,3,4) t]], intro results_ex results_pure tail)
        (use c in auto)
  qed
qed

lemma run_step:
  fixes D :: "'y pipeline" and job :: job
  assumes "quiet E" "inert_ports D" "pg_uuid (e_pg E) (j_id job) = Some (j_id job)"
    "pg_uuid (e_pg E) (j_tenant job) = Some (j_tenant job)"
    "\<forall>texts w vs w'. p_embed D texts w = (Inr vs, w') \<longrightarrow> length vs = length texts"
  shows "results (schema_ok (e_pg E)) (run E D job) (\<lambda>_. published (e_pg E) D job)"
proof -
  have rest: "results (\<lambda>d. entry (j_id job) (v_id v) d = ([v], [v], [], []))
      (andthen (map_err g (copyJobSegments E job u)) (\<lambda>_. andthen (extractTranscript E D job video) (run_from E D job video)))
      (\<lambda>_. published (e_pg E) D job)"
    if v: "draft job v \<and> pg_uuid (e_pg E) (v_id video) = Some (v_id v)" for v video u g
    by (intro results_andthen [OF results_map_err [OF results_pages [OF pages_repos(1) [OF assms(1)]]]]
        results_andthen [OF extract_step [OF assms(1,2) v [THEN conjunct2]]] results_pure results_ex)
      (intro run_from_step assms v [THEN conjunct1] v [THEN conjunct2]; simp)
  have start: "results (schema_ok (e_pg E)) (andthen (map_err g1 (Videos_Create E video)) (\<lambda>_.
      andthen (map_err g2 (copyJobSegments E job u)) (\<lambda>_. andthen (extractTranscript E D job video) (run_from E D job video))))
      (\<lambda>_. published (e_pg E) D job)"
    if "draft job video" for video u g1 g2
    by (rule results_andthen, rule results_map_err, rule create_step [OF assms(1,3,4) that], intro results_ex results_pure rest)
  show ?thesis unfolding run_def Let_def
    by (intro results_andthen [OF results_map_err [OF cleanup_step [OF assms(1)]]]
        results_andthen [OF results_frame [where g = "\<lambda>d. d", OF preserves_basic(3)]]
        results_andthen [OF results_frame [where g = "\<lambda>d. d", OF preserves_basic(4)]] start) (simp add: draft_def)
qed


text \<open>A video whose transcriber gives the transcript an id.\<close>

definition talk :: job where
  "talk = (queue_job ''a'')\<lparr>j_file_key := ''a.mp4'', j_kind := ''video''\<rparr>"

definition talk_world :: "string list job_world_scheme" where
  "talk_world = queue_world\<lparr>w_db := demo_db\<lparr>d_jobs := [talk, demo_job], d_chunks := []\<rparr>\<rparr>"

definition talk_pipe :: "string list pipeline" where
  "talk_pipe = queue_pipe\<lparr>p_transcribe := (\<lambda>p. ret ((transcript_of ''One. Two.'' None ''m'')\<lparr>t_id := ''x''\<rparr>))\<rparr>"

lemma talk_completes:
  "map (\<lambda>j. (j_id j, j_status j)) (d_jobs (w_db (ProcessJob demo_env talk_pipe ''a'' talk_world))) =
   [(''a'', ''completed''), (''j1'', ''failed'')]"
  by code_simp

lemma talk_facts:
  "inert_ports talk_pipe" "keys_ok demo_env (w_db talk_world)" "talk \<in> set (d_jobs (w_db talk_world))"
  "j_id talk = ''a''" "j_kind talk = ''video''"
  using queue_facts(3) by (simp_all add: inert_ports_def talk_pipe_def inert_def ret_def talk_def talk_world_def keys_ok_def
      job_idents_def queue_job_def demo_job_def demo_env_def demo_pg_def)

lemma talk_schema: "schema_ok (e_pg demo_env) (w_db talk_world)"
  by (simp add: schema_ok_def tables Let_def talk_world_def demo_db_def demo_key_def demo_intent_def talk_def queue_job_def demo_job_def
      demo_video_def intent_statuses_def job_kinds_def job_statuses_def video_statuses_def is_int32_def optional_def distinct_some_def)


end
