(* ===== verification/Journey.thy ===== *)
theory Journey
  imports Schema
begin

text \<open>
  The way of a job through both programs: \<open>CreateJob\<close> on the server accepts it, a worker that shares
  the database drains its queue, and \<open>GetJob\<close> shows the outcome.
\<close>

section \<open>The jobs table after an accepted request\<close>

lemma jobs_kept_tx:
  "keeps (\<lambda>d. d_jobs d = X) (MarkUploadIntentConsumed P now key t)" "keeps (\<lambda>d. d_jobs d = X) (EnsureSegmentByName P sg)"
  by (rule jobs_elsewhere, simp add: of_jobs_def)+

lemma jobs_kept_ensure: "keeps_db (\<lambda>d. d_jobs d = X) (ensure_segment E t n)"
  unfolding ensure_segment_def by (intro io_inv_rules stmt_keeps jobs_kept_tx)

lemma CreateJob_appends:
  fixes w :: "'z world_scheme"
  assumes "CreateJob E H i (Inr req) w = (Inr r, w')" "quiet E"
  obtains jr row where "r = \<lparr>rp_status = 201, rp_body = JobBody jr\<rparr>" "j_id (jr_job jr) = j_id row" "j_status (jr_job jr) = ''pending''"
    "d_jobs (w_db w') = d_jobs (w_db w) @ [row]" "j_id row \<notin> j_id ` set (d_jobs (w_db w))" "j_status row = ''pending''"
    "\<exists>u. pg_uuid (e_pg E) u = Some (j_id row)" "pg_uuid (e_pg E) (id_tenant i) = Some (j_tenant row)"
proof -
  obtain jr and w1 w2 :: "'z world_scheme" where
    tx: "create_job_tx E (id_tenant i) req (e_time E (w_tick w)) w1 = (Inr jr, w2)" and db: "w_db w1 = w_db w"
    and kept: "d_jobs (w_db w') = d_jobs (w_db w2)" and r: "r = \<lparr>rp_status = 201, rp_body = JobBody jr\<rparr>"
    by (rule CreateJob_run [OF assms])
  obtain intent segs kind ext row0 and w3 w4 :: "'z world_scheme" where
    m: "MarkUploadIntentConsumed (e_pg E) (e_time E (w_tick w)) (cr_file_key req) (id_tenant i) (w_db w1) = (Inr row0, w_db w3)" and
    s: "for_collect (ensure_segment E (id_tenant i)) (cr_segments req) w3 = (Inr segs, w4)" and
    ins: "insert_job E (id_tenant i) req intent kind segs w4 = (Inr jr, w2)"
    by (rule create_job_tx_ok [OF tx])
  have "d_jobs (w_db w3) = d_jobs (w_db w1)"
    using jobs_kept_tx(1) [of "d_jobs (w_db w1)" "e_pg E" "e_time E (w_tick w)" "cr_file_key req" "id_tenant i"] m
    unfolding keeps_def by (metis snd_conv)
  moreover have "d_jobs (w_db w4) = d_jobs (w_db w3)"
    by (rule keepsD [OF keeps_for_collect [OF jobs_kept_ensure] refl s])
  ultimately have j: "d_jobs (w_db w4) = d_jobs (w_db w)" using db by simp
  show ?thesis by (rule insert_job_row [OF ins]) (rule that [OF r]; simp add: kept j)
qed

lemma accepted_keys:
  fixes w :: "'z world_scheme"
  assumes "d_jobs d' = d_jobs d @ [row]" "j_id row \<notin> j_id ` set (d_jobs d)" "keys_ok E d"
    "\<exists>u. pg_uuid (e_pg E) u = Some (j_id row)" "pg_uuid (e_pg E) t = Some (j_tenant row)"
    "\<forall>s u. pg_uuid (e_pg E) s = Some u \<longrightarrow> u \<noteq> [] \<and> pg_uuid (e_pg E) u = Some u"
  shows "keys_ok E d'"
  using assms by (auto simp: keys_ok_def job_idents_def comp_def)

section \<open>Reading a job\<close>

lemma read_runs:
  fixes w :: "'z world_scheme"
  assumes "faultless E" "quiet E" "q (w_db w) = (Inr a, w_db w)"
  shows "\<exists>w'. WithTenantTx E t (\<lambda>now. andthen (stmt E q) (\<lambda>x. ret (g x))) w = (Inr (g a), w') \<and> w_db w' = w_db w"
    "\<exists>w'. WithTenantTx E t (\<lambda>now. stmt E q) w = (Inr a, w') \<and> w_db w' = w_db w"
  using assms by (simp_all add: WithTenantTx_def stmt_def andthen_def ret_def faultless_def quiet_def Let_def)

lemma GetJob_runs:
  fixes w :: "'z world_scheme"
  assumes "faultless E" "quiet E" "keys_ok E (w_db w)" "job \<in> set (d_jobs (w_db w))"
    "pg_uuid (e_pg E) (id_tenant i) = Some (j_tenant job)"
  shows "\<exists>names w'. GetJob E H i (j_id job) w = (Inr \<lparr>rp_status = 200, rp_body = JobBody \<lparr>jr_job = job, jr_segments = names\<rparr>\<rparr>, w')"
proof -
  note k = keys_okD [OF assms(3,4)]
  have "filter (\<lambda>j. j_id j = j_id job) (d_jobs (w_db w)) = [job]"
    by (rule distinct_filter_key [OF keys_ok_distinct [OF assms(3)] assms(4)])
  then have "filter (\<lambda>j. j_tenant j = j_tenant job) (filter (\<lambda>j. j_id j = j_id job) (d_jobs (w_db w))) = [job]" by simp
  then have "filter (\<lambda>j. j_id j = j_id job \<and> j_tenant j = j_tenant job) (d_jobs (w_db w)) = [job]" by (simp add: conj_commute)
  then have "GetJobByID_q (e_pg E) (j_id job) (id_tenant i) (w_db w) = (Inr job, w_db w)"
    using k(2) assms(5) by (simp add: GetJobByID_q_def uuid_arg_def one_row_def ret_def)
  from read_runs(1) [where w = w and q = "GetJobByID_q (e_pg E) (j_id job) (id_tenant i)" and t = "id_tenant i" and g = mapJob,
      OF assms(1,2) this] obtain w1 :: "'z world_scheme" where
    g: "Jobs_GetByID E (j_id job) (id_tenant i) w = (Inr job, w1)" "w_db w1 = w_db w"
    by (auto simp: Jobs_GetByID_def map_err_def mapJob_def uuidPtr_def toStrPtr_def toTimePtr_def toTime_def)
  obtain names where "ListSegmentNamesByJobID (e_pg E) (j_id job) (id_tenant i) (w_db w1) = (Inr names, w_db w1)"
    using k(2) assms(5) by (simp add: ListSegmentNamesByJobID_def uuid_arg_def)
  from read_runs(2) [where w = w1 and q = "ListSegmentNamesByJobID (e_pg E) (j_id job) (id_tenant i)" and t = "id_tenant i",
      OF assms(1,2) this] obtain w2 :: "'z world_scheme" where
    "Segments_ListNamesByJobID E (j_id job) (id_tenant i) w1 = (Inr names, w2)"
    by (auto simp: Segments_ListNamesByJobID_def)
  with g(1) show ?thesis by (simp add: GetJob_def andthen_def ret_def ok_reply_def toJobResponse_def)
qed

section \<open>From request to outcome\<close>

lemma keys_ok_pg: "e_pg F = e_pg E \<Longrightarrow> keys_ok F d = keys_ok E d"
  by (simp add: keys_ok_def)



end
