(* ===== verification/Ports.thy ===== *)
theory Ports
  imports SystemRuns
begin

text \<open>
  The repository interfaces of \<open>core/ports/repositories.go\<close> and the adapters of \<open>database/repo\<close> that
  implement them. What the comments of the interfaces promise of materials is stated as locales,
  which the adapters interpret; what a client may conclude from the promises alone is proved in them.
\<close>

section \<open>Interfaces\<close>

record 'z APIKeyRepository =
  keyRepo_GetByHash :: "string \<Rightarrow> ('z, api_key) act"

record 'z UploadIntentRepository =
  intentRepo_Create :: "upload_intent \<Rightarrow> ('z, unit) act"
  intentRepo_GetByFileKeyForUpdate :: "string \<Rightarrow> string \<Rightarrow> ('z, upload_intent) act"
  intentRepo_Consume :: "string \<Rightarrow> string \<Rightarrow> ('z, unit) act"

record 'z JobRepository =
  jobRepo_Create :: "job \<Rightarrow> string list \<Rightarrow> ('z, unit) act"
  jobRepo_List :: "string \<Rightarrow> string \<Rightarrow> int \<Rightarrow> int \<Rightarrow> ('z, job list) act"
  jobRepo_Count :: "string \<Rightarrow> string \<Rightarrow> ('z, int) act"
  jobRepo_GetByID :: "string \<Rightarrow> string \<Rightarrow> ('z, job) act"
  jobRepo_UpdateStatus :: "string \<Rightarrow> string \<Rightarrow> string \<Rightarrow> string \<Rightarrow> string option \<Rightarrow> ('z, unit) act"
  jobRepo_Retry :: "string \<Rightarrow> string \<Rightarrow> ('z, unit) act"
  jobRepo_ClaimNextPending :: "('z, job option) act"
  jobRepo_GetByIDAllTenants :: "string \<Rightarrow> ('z, job) act"
  jobRepo_ListForRetention :: "time \<Rightarrow> ('z, retention_job list) act"

record 'z SegmentRepository =
  segmentRepo_EnsureByName :: "string \<Rightarrow> string \<Rightarrow> ('z, segment) act"
  segmentRepo_AttachJobSegments :: "string \<Rightarrow> string \<Rightarrow> string list \<Rightarrow> ('z, unit) act"
  segmentRepo_AttachVideoSegments :: "string \<Rightarrow> string \<Rightarrow> string list \<Rightarrow> ('z, unit) act"
  segmentRepo_ListNamesByJobID :: "string \<Rightarrow> string \<Rightarrow> ('z, string list) act"
  segmentRepo_ListNamesByVideoID :: "string \<Rightarrow> string \<Rightarrow> ('z, string list) act"

record 'z VideoRepository =
  videoRepo_Create :: "video \<Rightarrow> ('z, unit) act"
  videoRepo_GetByID :: "string \<Rightarrow> string \<Rightarrow> ('z, material) act"
  videoRepo_List :: "string \<Rightarrow> string \<Rightarrow> string \<Rightarrow> int \<Rightarrow> int \<Rightarrow> ('z, material list) act"
  videoRepo_Count :: "string \<Rightarrow> string \<Rightarrow> string \<Rightarrow> ('z, int) act"
  videoRepo_SoftDelete :: "string \<Rightarrow> string \<Rightarrow> ('z, time) act"
  videoRepo_UpdateStatus :: "string \<Rightarrow> string \<Rightarrow> string \<Rightarrow> ('z, unit) act"
  videoRepo_DeleteByJobID :: "string \<Rightarrow> string \<Rightarrow> ('z, unit) act"
  videoRepo_FailByJobID :: "string \<Rightarrow> string \<Rightarrow> ('z, unit) act"

record 'z TranscriptRepository =
  transcriptRepo_Upsert :: "transcript \<Rightarrow> ('z, unit) act"

record 'z ChunkRepository =
  chunkRepo_DeleteByVideoID :: "string \<Rightarrow> string \<Rightarrow> ('z, unit) act"
  chunkRepo_Insert :: "chunk list \<Rightarrow> ('z, unit) act"
  chunkRepo_Search :: "string \<Rightarrow> vec \<Rightarrow> string \<Rightarrow> int \<Rightarrow> ('z, search_result list) act"

record 'z SummaryRepository =
  summaryRepo_Upsert :: "summary \<Rightarrow> ('z, unit) act"
  summaryRepo_GetByVideoID :: "string \<Rightarrow> string \<Rightarrow> ('z, summary) act"

text \<open>The metadata of an entry comes with the result of marshalling it.\<close>

record 'z AuditLogRepository =
  auditRepo_Insert :: "audit_log \<Rightarrow> (go_error + string) \<Rightarrow> ('z, unit) act"

section \<open>Adapters\<close>

text \<open>The pool of connections is the environment.\<close>

definition NewAPIKeyRepository :: "environ \<Rightarrow> 'z APIKeyRepository" where
  "NewAPIKeyRepository E = \<lparr>keyRepo_GetByHash = GetByHash E\<rparr>"

definition NewUploadIntentRepository :: "environ \<Rightarrow> 'z UploadIntentRepository" where
  "NewUploadIntentRepository E = \<lparr>intentRepo_Create = Intents_Create E,
     intentRepo_GetByFileKeyForUpdate = Intents_GetByFileKeyForUpdate E, intentRepo_Consume = Intents_Consume E\<rparr>"

definition NewJobRepository :: "environ \<Rightarrow> 'z JobRepository" where
  "NewJobRepository E = \<lparr>jobRepo_Create = Jobs_Create E, jobRepo_List = Jobs_List E, jobRepo_Count = Jobs_Count E,
     jobRepo_GetByID = Jobs_GetByID E, jobRepo_UpdateStatus = Jobs_UpdateStatus E, jobRepo_Retry = Jobs_Retry E,
     jobRepo_ClaimNextPending = Jobs_ClaimNextPending E, jobRepo_GetByIDAllTenants = Jobs_GetByIDAllTenants E,
     jobRepo_ListForRetention = Jobs_ListForRetention E\<rparr>"

definition NewSegmentRepository :: "environ \<Rightarrow> 'z SegmentRepository" where
  "NewSegmentRepository E = \<lparr>segmentRepo_EnsureByName = Segments_EnsureByName E,
     segmentRepo_AttachJobSegments = Segments_AttachJobSegments E,
     segmentRepo_AttachVideoSegments = Segments_AttachVideoSegments E,
     segmentRepo_ListNamesByJobID = Segments_ListNamesByJobID E,
     segmentRepo_ListNamesByVideoID = Segments_ListNamesByVideoID E\<rparr>"

definition NewVideoRepository :: "environ \<Rightarrow> 'z VideoRepository" where
  "NewVideoRepository E = \<lparr>videoRepo_Create = Videos_Create E, videoRepo_GetByID = Videos_GetByID E,
     videoRepo_List = Videos_List E, videoRepo_Count = Videos_Count E, videoRepo_SoftDelete = Videos_SoftDelete E,
     videoRepo_UpdateStatus = Videos_UpdateStatus E, videoRepo_DeleteByJobID = Videos_DeleteByJobID E,
     videoRepo_FailByJobID = Videos_FailByJobID E\<rparr>"

definition NewTranscriptRepository :: "environ \<Rightarrow> 'z TranscriptRepository" where
  "NewTranscriptRepository E = \<lparr>transcriptRepo_Upsert = Transcripts_Upsert E\<rparr>"

definition NewChunkRepository :: "environ \<Rightarrow> 'z ChunkRepository" where
  "NewChunkRepository E = \<lparr>chunkRepo_DeleteByVideoID = Chunks_DeleteByVideoID E, chunkRepo_Insert = Chunks_Insert E,
     chunkRepo_Search = Chunks_Search E\<rparr>"

definition NewSummaryRepository :: "environ \<Rightarrow> 'z SummaryRepository" where
  "NewSummaryRepository E = \<lparr>summaryRepo_Upsert = Summaries_Upsert E, summaryRepo_GetByVideoID = Summaries_GetByVideoID E\<rparr>"

definition NewAuditLogRepository :: "environ \<Rightarrow> 'z AuditLogRepository" where
  "NewAuditLogRepository E = \<lparr>auditRepo_Insert = InsertAudit E\<rparr>"

section \<open>The promises of the comments\<close>

text \<open>The materials a tenant can see.\<close>

definition visible :: "string \<Rightarrow> db \<Rightarrow> video list" where
  "visible t d = filter (\<lambda>v. v_tenant v = t \<and> v_deleted v = None) (d_videos d)"

definition soft_deleted :: "time \<Rightarrow> string \<Rightarrow> string \<Rightarrow> db \<Rightarrow> video list" where
  "soft_deleted now t i d = map (\<lambda>v. if v \<in> set (visible t d) \<and> v_id v = i
     then v\<lparr>v_deleted := Some now, v_updated := now\<rparr> else v) (d_videos d)"

lemma soft_deleted_row:
  "v \<in> set (soft_deleted now t i d) \<Longrightarrow> \<exists>x \<in> set (d_videos d). v_id x = v_id v \<and>
     (x \<in> set (visible t d) \<longrightarrow> v_id x = i \<longrightarrow> v_deleted v = Some now)"
  by (auto simp: soft_deleted_def)

definition canonical :: "environ \<Rightarrow> string \<Rightarrow> bool" where
  "canonical E s \<longleftrightarrow> pg_uuid (e_pg E) s = Some s"

text \<open>
  \<open>reliable\<close>: no faults and no other sessions, so that every refusal has its cause in the data, and a
  vector index that returns rows of the table.
\<close>

definition reliable :: "environ \<Rightarrow> bool" where
  "reliable E \<longleftrightarrow> quiet E \<and> faultless E \<and> (\<forall>e cs. set (pg_nearest (e_pg E) e cs) \<subseteq> set cs)"

text \<open>
  ``GetByID returns a non-deleted video owned by the tenant.'' ``SoftDelete sets deleted_at=now() for a
  tenant-owned, non-deleted video and returns the deletion timestamp. It returns ErrNotFound when
  the video is missing, owned by another tenant, or already deleted.'' ``Count returns the number of
  non-deleted videos owned by tenantID.'' ``DeleteByJobID [...] is a no-op when no such video
  exists.'' ``FailByJobID [...] is a no-op when no such video exists.''
\<close>

locale video_contract =
  fixes E :: environ and R :: "'z VideoRepository"
  assumes get_own: "\<lbrakk>reliable E; canonical E i; canonical E t; videoRepo_GetByID R i t w = (Inr m, w')\<rbrakk> \<Longrightarrow>
      mat_video m \<in> set (visible t (w_db w)) \<and> v_id (mat_video m) = i"
    and get_missing: "\<lbrakk>reliable E; canonical E i; canonical E t; i \<notin> v_id ` set (visible t (w_db w))\<rbrakk> \<Longrightarrow>
      fst (videoRepo_GetByID R i t w) = Inl (Api ErrNotFound)"
    and list_own: "\<lbrakk>reliable E; canonical E t; videoRepo_List R t nm st p l w = (Inr ms, w')\<rbrakk> \<Longrightarrow>
      mat_video ` set ms \<subseteq> set (visible t (w_db w))"
    and count_own: "\<lbrakk>reliable E; canonical E t; videoRepo_Count R t [] [] w = (Inr n, w')\<rbrakk> \<Longrightarrow>
      n = int (length (visible t (w_db w)))"
    and delete_own: "\<lbrakk>reliable E; canonical E i; canonical E t; videoRepo_SoftDelete R i t w = (Inr ts, w')\<rbrakk> \<Longrightarrow>
      i \<in> v_id ` set (visible t (w_db w)) \<and>
      d_videos (w_db w') = soft_deleted ts t i (w_db w)"
    and delete_missing: "\<lbrakk>reliable E; canonical E i; canonical E t; i \<notin> v_id ` set (visible t (w_db w))\<rbrakk> \<Longrightarrow>
      fst (videoRepo_SoftDelete R i t w) = Inl (Api ErrNotFound) \<and> w_db (snd (videoRepo_SoftDelete R i t w)) = w_db w"
    and job_no_op: "\<lbrakk>reliable E; canonical E j; canonical E t; \<forall>v \<in> set (d_videos (w_db w)). \<not> (v_job v = j \<and> v_tenant v = t)\<rbrakk> \<Longrightarrow>
      w_db (snd (videoRepo_DeleteByJobID R j t w)) = w_db w \<and> w_db (snd (videoRepo_FailByJobID R j t w)) = w_db w"

text \<open>
  ``Search retrieves the nearest chunks for a video owned by the tenant, limited to completed,
  non-deleted videos.''
\<close>

locale search_contract =
  fixes E :: environ and C :: "'z ChunkRepository"
  assumes search_own: "\<lbrakk>reliable E; canonical E t; chunkRepo_Search C t emb nm k w = (Inr hits, w'); h \<in> set hits\<rbrakk> \<Longrightarrow>
      \<exists>v \<in> set (d_videos (w_db w)). v_id v = c_video (sr_chunk h) \<and> v_status v = ''completed'' \<and> v_deleted v = None"

text \<open>A client of both: what is deleted is gone.\<close>

locale material_contract = video_contract E R + search_contract E C for E :: environ and
  R :: "'z VideoRepository" and C :: "'z ChunkRepository"
begin

lemma deleted_invisible:
  assumes "reliable E" "canonical E i" "canonical E t" "distinct (map v_id (d_videos (w_db w)))"
    "videoRepo_SoftDelete R i t w = (Inr ts, w1)" "v \<in> set (d_videos (w_db w1))" "v_id v = i"
  shows "v_deleted v \<noteq> None"
proof -
  note d = delete_own [OF assms(1-3,5)]
  from d [THEN conjunct1] obtain u where u: "u \<in> set (visible t (w_db w))" "v_id u = i" by blast
  from d assms(6) have "v \<in> set (soft_deleted ts t i (w_db w))" by simp
  from soft_deleted_row [OF this] obtain x where x: "x \<in> set (d_videos (w_db w))" "v_id x = i"
    "x \<in> set (visible t (w_db w)) \<longrightarrow> v_id x = i \<longrightarrow> v_deleted v = Some ts" using assms(7) by blast
  have "u \<in> set (d_videos (w_db w))" using u(1) by (simp add: visible_def)
  then have "x = u" using assms(4) x(1,2) u(2) by (metis inj_onD distinct_map)
  then show ?thesis using x(3) u by simp
qed

lemma deleted_gone:
  assumes "reliable E" "canonical E i" "canonical E t" "distinct (map v_id (d_videos (w_db w)))"
    "videoRepo_SoftDelete R i t w = (Inr ts, w1)" "d_videos (w_db w2) = d_videos (w_db w1)"
  shows "fst (videoRepo_GetByID R i t w2) = Inl (Api ErrNotFound)"
    "fst (videoRepo_SoftDelete R i t w2) = Inl (Api ErrNotFound)"
    "videoRepo_List R t nm st p l w2 = (Inr ms, w3) \<Longrightarrow> m \<in> set ms \<Longrightarrow> v_id (mat_video m) \<noteq> i"
    "chunkRepo_Search C t emb nm k w2 = (Inr hits, w3) \<Longrightarrow> h \<in> set hits \<Longrightarrow> c_video (sr_chunk h) \<noteq> i"
proof -
  have gone: False if "v \<in> set (d_videos (w_db w2))" "v_id v = i" "v_deleted v = None" for v
    using deleted_invisible [OF assms(1-5), of v] that unfolding assms(6) by blast
  then have v: "i \<notin> v_id ` set (visible t (w_db w2))" by (auto simp: visible_def)
  show "fst (videoRepo_GetByID R i t w2) = Inl (Api ErrNotFound)" by (rule get_missing [OF assms(1-3) v])
  show "fst (videoRepo_SoftDelete R i t w2) = Inl (Api ErrNotFound)" using delete_missing [OF assms(1-3) v] by blast
  show "v_id (mat_video m) \<noteq> i" if "videoRepo_List R t nm st p l w2 = (Inr ms, w3)" "m \<in> set ms"
    using list_own [OF assms(1,3) that(1)] that(2) v by blast
  show "c_video (sr_chunk h) \<noteq> i" if "chunkRepo_Search C t emb nm k w2 = (Inr hits, w3)" "h \<in> set hits"
    using search_own [OF assms(1,3) that] gone by blast
qed

end

section \<open>The adapters keep them\<close>

lemma tx_reliable:
  assumes "reliable E"
  shows "WithTenantTx E u fn w = (case fn (e_time E (w_tick w)) (w\<lparr>w_tick := w_tick w + 2\<rparr>) of
     (Inl e, w2) \<Rightarrow> (Inl e, w2\<lparr>w_db := w_db w\<rparr>) | (Inr a, w2) \<Rightarrow> (Inr a, w2\<lparr>w_tick := w_tick w2 + 1\<rparr>))"
  using assms by (simp add: WithTenantTx_def reliable_def quiet_def faultless_def Let_def split: prod.split sum.split)

lemma stmt_reliable:
  "reliable E \<Longrightarrow> stmt E q w = (fst (q (w_db w)), w\<lparr>w_db := snd (q (w_db w)), w_tick := w_tick w + 1\<rparr>)"
  by (simp add: stmt_def reliable_def faultless_def split: prod.split)

lemma uuid_canonical: "canonical E s \<Longrightarrow> uuid_arg (e_pg E) s f = f s"
  by (simp add: canonical_def uuid_arg_def)

lemma mapVideo_self [simp]: "mapVideo v = v"
  by (simp add: mapVideo_def toIntPtr_def toTimePtr_def toTime_def)

lemma not_found_rows [simp]: "not_found NoRows = Api ErrNotFound"
  by (simp add: not_found_def)

lemma update_visible:
  "update_rows (\<lambda>v. v_id v = i \<and> v_tenant v = t \<and> v_deleted v = None) f (d_videos d) =
   map (\<lambda>v. if v \<in> set (visible t d) \<and> v_id v = i then f v else v) (d_videos d)"
  by (auto simp: update_rows_def visible_def)

lemmas reliably = tx_reliable stmt_reliable uuid_canonical map_err_def andthen_def one_row_def fail_def ret_def

lemma get_video:
  assumes "reliable E" "canonical E i" "canonical E t"
  shows "Videos_GetByID E i t w = (Inr m, w') \<Longrightarrow> mat_video m \<in> set (visible t (w_db w)) \<and> v_id (mat_video m) = i"
    "i \<notin> v_id ` set (visible t (w_db w)) \<Longrightarrow> fst (Videos_GetByID E i t w) = Inl (Api ErrNotFound)"
proof -
  let ?rows = "filter (\<lambda>v. v_id v = i \<and> v_tenant v = t \<and> v_deleted v = None) (d_videos (w_db w))"
  show "fst (Videos_GetByID E i t w) = Inl (Api ErrNotFound)" if "i \<notin> v_id ` set (visible t (w_db w))"
  proof -
    have "?rows = []" using that by (auto simp: visible_def filter_empty_conv)
    then show ?thesis using assms by (simp add: Videos_GetByID_def GetVideoByID_q_def reliably)
  qed
  show "mat_video m \<in> set (visible t (w_db w)) \<and> v_id (mat_video m) = i" if "Videos_GetByID E i t w = (Inr m, w')"
  proof (cases ?rows)
    case Nil
    then show ?thesis using that assms by (simp add: Videos_GetByID_def GetVideoByID_q_def reliably)
  next
    case (Cons v vs)
    then have v: "v \<in> set ?rows" by simp
    from that assms Cons have "mat_video m = v"
      by (auto simp: Videos_GetByID_def GetVideoByID_q_def reliably withSegments_def split: prod.splits sum.splits)
    then show ?thesis using v by (simp add: visible_def)
  qed
qed

lemma delete_video_row:
  assumes "reliable E" "canonical E i" "canonical E t"
  shows "Videos_SoftDelete E i t w = (Inr ts, w') \<Longrightarrow> i \<in> v_id ` set (visible t (w_db w)) \<and>
      d_videos (w_db w') = soft_deleted ts t i (w_db w)"
    "i \<notin> v_id ` set (visible t (w_db w)) \<Longrightarrow>
      fst (Videos_SoftDelete E i t w) = Inl (Api ErrNotFound) \<and> w_db (snd (Videos_SoftDelete E i t w)) = w_db w"
proof -
  let ?rows = "filter (\<lambda>v. v_id v = i \<and> v_tenant v = t \<and> v_deleted v = None) (d_videos (w_db w))"
  note defs = Videos_SoftDelete_def SoftDeleteVideo_q_def Let_def reliably
  show "fst (Videos_SoftDelete E i t w) = Inl (Api ErrNotFound) \<and> w_db (snd (Videos_SoftDelete E i t w)) = w_db w"
    if "i \<notin> v_id ` set (visible t (w_db w))"
  proof -
    have "?rows = []" using that by (auto simp: visible_def filter_empty_conv)
    then show ?thesis using assms by (simp add: defs)
  qed
  show "i \<in> v_id ` set (visible t (w_db w)) \<and>
      d_videos (w_db w') = soft_deleted ts t i (w_db w)"
    if "Videos_SoftDelete E i t w = (Inr ts, w')"
  proof (cases ?rows)
    case Nil
    then show ?thesis using that assms by (simp add: defs)
  next
    case (Cons v vs)
    then have "v \<in> set ?rows" by simp
    then have "i \<in> v_id ` set (visible t (w_db w))" by (auto simp: visible_def)
    moreover from that assms Cons have "ts = e_time E (w_tick w)" "d_videos (w_db w') = update_rows
      (\<lambda>v. v_id v = i \<and> v_tenant v = t \<and> v_deleted v = None)
      (\<lambda>v. v\<lparr>v_deleted := Some (e_time E (w_tick w)), v_updated := e_time E (w_tick w)\<rparr>) (d_videos (w_db w))"
      by (auto simp: defs)
    ultimately show ?thesis unfolding update_visible soft_deleted_def by blast
  qed
qed

lemma list_videos:
  fixes w :: "'z world_scheme"
  assumes "reliable E" "canonical E t" "Videos_List E t nm st p l w = (Inr ms, w')"
  shows "mat_video ` set ms \<subseteq> set (visible t (w_db w))"
proof -
  let ?q = "ListVideos_q (e_pg E) t (optionalText st) (optionalText nm) (wrap32 (wrap64 (wrap64 (p - 1) * l))) (wrap32 l)"
  obtain w1 w2 :: "'z world_scheme" where t: "w_db w1 = w_db w"
    "andthen (stmt E ?q) (\<lambda>rows. for_collect (withSegments E) rows) w1 = (Inr ms, w2)"
    using tx_okD [OF assms(3) [unfolded Videos_List_def]] assms(1) by (auto simp: reliable_def quiet_def)
  then obtain rows and w3 :: "'z world_scheme" where r: "for_collect (withSegments E) rows w3 = (Inr ms, w2)"
    "?q (w_db w) = (Inr rows, w_db w3)" by (fastforce simp: andthen_ok stmt_ok)
  from r(2) assms(2) have rows: "\<forall>v \<in> set rows. v \<in> set (visible t (w_db w))"
    by (auto simp: ListVideos_q_def uuid_canonical limit_offset_ok videos_of_def visible_def dest!: in_set_takeD in_set_dropD)
  have "\<forall>m \<in> set ms. mat_video m \<in> set (visible t (w_db w))"
    by (rule for_collect_all [OF r(1)]) (auto dest!: withSegments_video simp: rows)
  then show ?thesis by blast
qed

lemma count_videos:
  assumes "reliable E" "canonical E t" "Videos_Count E t [] [] w = (Inr n, w')"
  shows "n = int (length (visible t (w_db w)))"
  using assms by (auto simp: Videos_Count_def CountVideos_q_def reliably optionalText_def videos_of_def in_segment_def visible_def)

lemma no_video_of_job:
  assumes "reliable E" "canonical E j" "canonical E t" "\<forall>v \<in> set (d_videos (w_db w)). \<not> (v_job v = j \<and> v_tenant v = t)"
  shows "w_db (snd (Videos_DeleteByJobID E j t w)) = w_db w" "w_db (snd (Videos_FailByJobID E j t w)) = w_db w"
proof -
  have u: "update_rows (\<lambda>v. v_job v = j \<and> v_tenant v = t) f (d_videos (w_db w)) = d_videos (w_db w)" for f
    unfolding update_rows_def by (rule map_idI) (use assms(4) in auto)
  have f: "filter (\<lambda>v. v_job v = j \<longrightarrow> v_tenant v \<noteq> t) (d_videos (w_db w)) = d_videos (w_db w)"
    using assms(4) by (simp add: filter_id_conv)
  have e: "{v \<in> set (d_videos (w_db w)). v_job v = j \<and> v_tenant v = t} = {}" using assms(4) by blast
  show "w_db (snd (Videos_DeleteByJobID E j t w)) = w_db w" "w_db (snd (Videos_FailByJobID E j t w)) = w_db w"
    using assms(1-3) by (simp_all add: Videos_DeleteByJobID_def DeleteVideoByJobID_q_def Videos_FailByJobID_def
      FailVideoByJobID_q_def reliably Let_def u f e)
qed

lemma search_chunks:
  assumes "reliable E" "canonical E t" "Chunks_Search E t emb nm k w = (Inr hits, w')" "h \<in> set hits"
  shows "\<exists>v \<in> set (d_videos (w_db w)). v_id v = c_video (sr_chunk h) \<and> v_status v = ''completed'' \<and> v_deleted v = None"
proof -
  let ?rows = "search_rows (e_pg E) t (optionalText nm) (w_db w)"
  have "hits = map (\<lambda>(c, v). \<lparr>sr_chunk = c\<lparr>c_embedding := [], c_created := toTime (c_created c)\<rparr>, sr_title = v_title v\<rparr>)
      (take (nat (wrap32 k)) (pg_nearest (e_pg E) emb ?rows))"
    using assms(1-3) unfolding Chunks_Search_def
    by (elim tx_ok) (auto simp: io_ok stmt_ok SearchChunks_q_def uuid_canonical guarded_ok limit_offset_ok reliable_def quiet_def)
  with assms(4) obtain c v where "(c, v) \<in> set (take (nat (wrap32 k)) (pg_nearest (e_pg E) emb ?rows))"
    and h: "h = \<lparr>sr_chunk = c\<lparr>c_embedding := [], c_created := toTime (c_created c)\<rparr>, sr_title = v_title v\<rparr>" by auto
  then have "(c, v) \<in> set ?rows" using assms(1) unfolding reliable_def by (meson in_set_takeD subsetD)
  then have "v \<in> set (d_videos (w_db w)) \<and> v_id v = c_video c \<and> v_status v = ''completed'' \<and> v_deleted v = None"
    by (auto simp: search_rows_def)
  then show ?thesis by (intro bexI [of _ v]) (simp_all add: h)
qed

interpretation videos: video_contract E "NewVideoRepository E" for E
  by unfold_locales (simp_all add: NewVideoRepository_def get_video list_videos count_videos delete_video_row no_video_of_job)

interpretation chunks: search_contract E "NewChunkRepository E" for E
  by unfold_locales (simp add: NewChunkRepository_def search_chunks)

interpretation materials: material_contract E "NewVideoRepository E" "NewChunkRepository E" for E
  by unfold_locales

section \<open>Deleting a material over the API\<close>

lemma audit_videos:
  assumes "quiet E"
  shows "preserves d_videos (insertAudit E H i action obj meta)"
proof -
  have "d_videos (snd (InsertAuditLog P a d)) = d_videos d" for P a d
    by (simp add: InsertAuditLog_def uuid_arg_def violation_def fail_def guarded_snd Let_def split: option.split)
  then have "preserves d_videos (InsertAudit E a meta)" for a meta
    unfolding InsertAudit_def
    by (cases meta; simp) (intro preserves_basic preserves_tx preserves_andthen preserves_stmt assms; simp)+
  then show ?thesis unfolding insertAudit_def by (intro preserves_andthen preserves_basic)
qed

text \<open>
  C23. A deleted material is gone: after \<open>DELETE /videos/:id\<close> succeeded, and as long as the table of videos
  stays as it left it, the tenant's \<open>GET\<close> and a second \<open>DELETE\<close> of the id answer ``not found'', no list
  shows it and no search returns a chunk of it, though all its rows are still stored. (With the
  database reachable, no other session at work, and canonical ids.)
\<close>

theorem deleted_video_gone:
  assumes "reliable E" "canonical E vid" "canonical E (id_tenant i)" "distinct (map v_id (d_videos (w_db w)))"
    "DeleteVideo E H i vid w = (Inr r, w1)" "d_videos (w_db w2) = d_videos (w_db w1)"
  shows "(\<exists>v \<in> set (d_videos (w_db w)). v_id v = vid \<and> v_tenant v = id_tenant i \<and> v_deleted v = None) \<and>
    map v_id (d_videos (w_db w1)) = map v_id (d_videos (w_db w)) \<and>
    fst (GetVideo E H i vid w2) = Inl (Api ErrNotFound) \<and> fst (DeleteVideo E H i vid w2) = Inl (Api ErrNotFound) \<and>
    (\<forall>q page m ms w3. ListVideos E H i q w2 = (Inr page, w3) \<and> rp_body page = VideosBody ms m \<longrightarrow>
      vid \<notin> (\<lambda>m. v_id (mat_video m)) ` set ms) \<and>
    (\<forall>emb name1 k hits w3. Chunks_Search E (id_tenant i) emb name1 k w2 = (Inr hits, w3) \<longrightarrow>
      vid \<notin> (\<lambda>h. c_video (sr_chunk h)) ` set hits)"
proof -
  have q: "quiet E" using assms(1) by (simp add: reliable_def)
  from assms(5) obtain ts and w0 :: "'a world_scheme" where
    d: "Videos_SoftDelete E vid (id_tenant i) w = (Inr ts, w0)" and
    a: "best_effort (insertAudit E H i ''video.delete'' (Some vid) None) w0 = (Inr (), w1)"
    by (auto simp: DeleteVideo_def andthen_ok ret_def)
  have "d_videos (w_db w1) = d_videos (w_db w0)"
    by (rule preservesD [OF preserves_best_effort [OF audit_videos [OF q]] a])
  with assms(6) have e: "d_videos (w_db w2) = d_videos (w_db w0)" "d_videos (w_db w1) = d_videos (w_db w0)" by simp_all
  note own = delete_video_row(1) [OF assms(1-3) d]
  note gone = materials.deleted_gone [unfolded NewVideoRepository_def NewChunkRepository_def VideoRepository.select_convs
    ChunkRepository.select_convs, OF assms(1-4) d e(1)]
  have "fst (GetVideo E H i vid w2) = Inl (Api ErrNotFound)" "fst (DeleteVideo E H i vid w2) = Inl (Api ErrNotFound)"
    using gone(1,2) by (auto simp: GetVideo_def DeleteVideo_def andthen_def split: prod.splits sum.splits)
  moreover have "vid \<notin> (\<lambda>m. v_id (mat_video m)) ` set ms"
    if "ListVideos E H i q w2 = (Inr page, w3)" "rp_body page = VideosBody ms m" for q page m ms w3
  proof -
    from that obtain nm st p l and u1 u2 :: "'a world_scheme" where
      "lift_sum (pagination q) w2 = (Inr (p, l), u1)" "Videos_List E (id_tenant i) nm st p l u1 = (Inr ms, u2)"
      by (auto simp: ListVideos_def andthen_ok ret_def ok_reply_def)
    then have "Videos_List E (id_tenant i) nm st p l w2 = (Inr ms, u2)"
      by (cases "pagination q") (auto simp: lift_sum_def ret_def fail_def)
    then show ?thesis using gone(3) by blast
  qed
  moreover have "map v_id (d_videos (w_db w1)) = map v_id (d_videos (w_db w))"
    using own e(2) by (simp add: soft_deleted_def)
  moreover have "\<exists>v \<in> set (d_videos (w_db w)). v_id v = vid \<and> v_tenant v = id_tenant i \<and> v_deleted v = None"
    using own by (auto simp: visible_def)
  ultimately show ?thesis using gone(4) by blast
qed

lemma demo_delete: "answered (DeleteVideo demo_env demo_handler demo_admin ''v'' demo_world)"
  by (simp add: demo_defs DeleteVideo_def Videos_SoftDelete_def WithTenantTx_def stmt_def SoftDeleteVideo_q_def uuid_arg_def
    one_row_def andthen_def map_err_def ret_def best_effort_def update_rows_def)

theorem deleted_video_gone_witness:
  "fst (GetVideo demo_env demo_handler demo_admin ''v'' (snd (DeleteVideo demo_env demo_handler demo_admin ''v'' demo_world))) =
   Inl (Api ErrNotFound)"
proof -
  obtain r w1 where d: "DeleteVideo demo_env demo_handler demo_admin ''v'' demo_world = (Inr r, w1)"
    using answered_ok [OF demo_delete] by blast
  have e: "reliable demo_env" "canonical demo_env ''v''" "canonical demo_env (id_tenant demo_admin)"
    "distinct (map v_id (d_videos (w_db demo_world)))"
    by (simp_all add: reliable_def quiet_def faultless_def canonical_def demo_env_def demo_pg_def demo_admin_def demo_world_def
      demo_db_def)
  from deleted_video_gone [OF e d refl] show ?thesis by (simp add: d)
qed

end
