(* ===== verification/Startup.thy ===== *)
theory Startup
  imports Ports
begin

text \<open>
  Process start: \<open>database.NewPool\<close>, \<open>worker.New\<close> with its validation, and the two \<open>main\<close> functions from
  the environment variables to the point where they serve. A call of \<open>log.Fatalf\<close> ends the program and
  is the left value; its deferred calls do not run. The driver of the pool is a parameter.
\<close>

section \<open>The connection pool\<close>

record 'n pool_driver =
  pool_new :: "string \<Rightarrow> (go_error, 'n, unit) io"
  pool_ping :: "(go_error, 'n, unit) io"
  pool_close :: "'n \<Rightarrow> 'n"

definition NewPool :: "'n pool_driver \<Rightarrow> string \<Rightarrow> (go_error, 'n, unit) io" where
  "NewPool P url =
     andthen (map_err (wrapf ''database: create pool'') (pool_new P url)) (\<lambda>_ n.
       case pool_ping P n of
         (Inl e, n1) \<Rightarrow> (Inl (wrapf ''database: ping pool'' e), pool_close P n1)
       | (Inr u, n1) \<Rightarrow> (Inr (), n1))"

section \<open>Service interfaces\<close>

record 'w Storage =
  storage_GenerateUploadURL :: "string \<Rightarrow> string \<Rightarrow> time \<Rightarrow> (go_error, 'w, string) io"
  storage_Download :: "string \<Rightarrow> string \<Rightarrow> (go_error, 'w, unit) io"
  storage_Delete :: "string \<Rightarrow> (go_error, 'w, unit) io"

record 'w Transcriber =
  transcriber_Transcribe :: "transcribe_input \<Rightarrow> (go_error, 'w, transcript) io"

record 'w DocumentParser =
  parser_Parse :: "string \<Rightarrow> string \<Rightarrow> (go_error, 'w, string) io"

record 'w Embedder =
  embedder_EmbedBatch :: "string list \<Rightarrow> (go_error, 'w, vec list) io"

record 'w LLM =
  llm_Summarize :: "string \<Rightarrow> string \<Rightarrow> (go_error, 'w, string) io"
  llm_AnswerQuery :: "string \<Rightarrow> string \<Rightarrow> (go_error, 'w, string) io"

text \<open>What implements them in both programs: the providers, four of them with a breaker in their world.\<close>

definition r2_storage :: "'n object_store \<times> string \<Rightarrow> 'n Storage" where
  "r2_storage st = \<lparr>storage_GenerateUploadURL = GenerateUploadURL (fst st) (snd st),
     storage_Download = Download (fst st) (snd st), storage_Delete = Delete (fst st) (snd st)\<rparr>"

definition groq_transcriber :: "'n services \<Rightarrow> transcriber \<Rightarrow> (breaker \<times> 'n) Transcriber" where
  "groq_transcriber S tc = \<lparr>transcriber_Transcribe = Transcribe tc (sv_media S) (sv_runtime S)\<rparr>"

definition llama_parser :: "'n services \<Rightarrow> parser \<Rightarrow> (breaker \<times> 'n) DocumentParser" where
  "llama_parser S ps = \<lparr>parser_Parse = Parse ps (sv_parse S) (sv_runtime S)\<rparr>"

definition cloudflare_embedder :: "'n services \<Rightarrow> embedder \<Rightarrow> (breaker \<times> 'n) Embedder" where
  "cloudflare_embedder S em = \<lparr>embedder_EmbedBatch = EmbedBatch em (sv_embed S) (sv_runtime S)\<rparr>"

definition deepseek_llm :: "'n services \<Rightarrow> chat_llm \<Rightarrow> (breaker \<times> 'n) LLM" where
  "deepseek_llm S ll = \<lparr>llm_Summarize = SummarizeText ll (sv_chat S) (sv_runtime S),
     llm_AnswerQuery = AnswerQuery ll (sv_chat S) (sv_runtime S)\<rparr>"

section \<open>The worker's configuration\<close>

text \<open>An absent dependency is a nil interface or pointer; the pool is the environment of the database calls.\<close>

record ('n, 'z) worker_config =
  wc_Cfg :: "config option"
  wc_Pool :: "environ option"
  wc_Log :: "unit option"
  wc_Jobs :: "'z JobRepository option"
  wc_Videos :: "'z VideoRepository option"
  wc_Segments :: "'z SegmentRepository option"
  wc_Transcripts :: "'z TranscriptRepository option"
  wc_Chunks :: "'z ChunkRepository option"
  wc_Summaries :: "'z SummaryRepository option"
  wc_Storage :: "'n Storage option"
  wc_Transcriber :: "(breaker \<times> 'n) Transcriber option"
  wc_Parser :: "(breaker \<times> 'n) DocumentParser option"
  wc_Embedder :: "(breaker \<times> 'n) Embedder option"
  wc_LLM :: "(breaker \<times> 'n) LLM option"
  wc_Summarizer :: "summarizer option"

fun first_missing :: "(string \<times> bool) list \<Rightarrow> go_error option" where
  "first_missing [] = None"
| "first_missing ((name1, ok) # ds) =
     (if ok then first_missing ds else Some (Leaf (''worker: '' @ name1 @ '' is required'')))"

definition present_deps :: "('n, 'z) worker_config \<Rightarrow> (string \<times> bool) list" where
  "present_deps c =
     [(''jobs'', wc_Jobs c \<noteq> None), (''videos'', wc_Videos c \<noteq> None), (''segments'', wc_Segments c \<noteq> None),
      (''transcripts'', wc_Transcripts c \<noteq> None), (''chunks'', wc_Chunks c \<noteq> None),
      (''summaries'', wc_Summaries c \<noteq> None), (''storage'', wc_Storage c \<noteq> None),
      (''transcriber'', wc_Transcriber c \<noteq> None), (''parser'', wc_Parser c \<noteq> None),
      (''embedder'', wc_Embedder c \<noteq> None), (''llm'', wc_LLM c \<noteq> None)]"

definition validate_worker :: "('n, 'z) worker_config \<Rightarrow> go_error option" where
  "validate_worker c =
     (if wc_Cfg c = None then Some (Leaf ''worker: config is required'')
      else if wc_Pool c = None then Some (Leaf ''worker: pool is required'')
      else if wc_Log c = None then Some (Leaf ''worker: logger is required'')
      else first_missing (present_deps c))"

record ('n, 'z, 'y) worker =
  wk_cfg :: config
  wk_pool :: environ
  wk_jobs :: "'z JobRepository"
  wk_deps :: "('n, 'y) worker_world_ext pipeline"

text \<open>The repositories of the pipeline are those over \<open>wk_pool\<close>, see \<open>Worker\<close>.\<close>

text \<open>The ports of the pipeline, on the parts of the worker's world; files and MIME detection are services.\<close>

definition pipelineDeps :: "'n services \<Rightarrow> config \<Rightarrow> 'n Storage \<Rightarrow> (breaker \<times> 'n) Transcriber \<Rightarrow> (breaker \<times> 'n) DocumentParser
    \<Rightarrow> (breaker \<times> 'n) Embedder \<Rightarrow> (breaker \<times> 'n) LLM \<Rightarrow> summarizer \<Rightarrow> ('n, 'y) worker_world_ext pipeline" where
  "pipelineDeps S cfg st tc ps em ll sm = \<lparr>
     p_download = (\<lambda>key dest. on_net (storage_Download st key dest)),
     p_delete = (\<lambda>key. on_net (storage_Delete st key)),
     p_mkdir = on_net (sv_mkdir S),
     p_rmdir = (\<lambda>dir w. w\<lparr>ww_net := sv_rmdir S dir (ww_net w)\<rparr>),
     p_stat = (\<lambda>p. on_net (sv_stat S p)),
     p_detect = (\<lambda>p. on_net (sv_detect S p)),
     p_transcribe = (\<lambda>p. on_groq (transcriber_Transcribe tc \<lparr>ti_path = p, ti_language = [], ti_model = []\<rparr>)),
     p_parse = (\<lambda>p ct. on_llama (parser_Parse ps p ct)),
     p_embed = (\<lambda>ts. on_cf (embedder_EmbedBatch em ts)),
     p_llm = (\<lambda>prompt t. on_ds (llm_Summarize ll prompt t)),
     p_summarizer = sm,
     p_max_bytes = MaxUploadBytes cfg,
     p_batch = EmbeddingBatchSize cfg\<rparr>"

definition NewWorker :: "'n services \<Rightarrow> ('n, 'z) worker_config \<Rightarrow> go_error + ('n, 'z, 'y) worker" where
  "NewWorker S c =
     (case validate_worker c of
        Some e \<Rightarrow> Inl e
      | None \<Rightarrow>
         (let cfg = the (wc_Cfg c);
              sm = (case wc_Summarizer c of None \<Rightarrow> newSummarizer (SummaryMaxTokens cfg) | Some s \<Rightarrow> s)
          in Inr \<lparr>wk_cfg = cfg, wk_pool = the (wc_Pool c), wk_jobs = the (wc_Jobs c),
               wk_deps = pipelineDeps S cfg (the (wc_Storage c)) (the (wc_Transcriber c)) (the (wc_Parser c))
                 (the (wc_Embedder c)) (the (wc_LLM c)) sm\<rparr>))"

text \<open>With every dependency present \<open>New\<close> succeeds, and the values read with \<open>the\<close> are there.\<close>

lemma first_missing_iff: "first_missing ds = None \<longleftrightarrow> list_all snd ds"
  by (induction ds rule: first_missing.induct) simp_all

lemma validate_worker_ok:
  "validate_worker c = None \<longleftrightarrow> wc_Cfg c \<noteq> None \<and> wc_Pool c \<noteq> None \<and> wc_Log c \<noteq> None \<and> list_all snd (present_deps c)"
  by (simp add: validate_worker_def first_missing_iff)

section \<open>The programs\<close>

definition lift_fatal :: "fatal + 'a \<Rightarrow> (fatal + go_error, 'n, 'a) io" where
  "lift_fatal r n = (case r of Inl e \<Rightarrow> (Inl (Inl e), n) | Inr a \<Rightarrow> (Inr a, n))"

definition lift_start :: "go_error + 'a \<Rightarrow> (fatal + go_error, 'n, 'a) io" where
  "lift_start r n = (case r of Inl e \<Rightarrow> (Inl (Inr e), n) | Inr a \<Rightarrow> (Inr a, n))"

text \<open>\<open>main\<close> of the worker up to \<open>wk.Run\<close>; \<open>E\<close> is what the pool connects to.\<close>

definition main_config :: "'n services \<Rightarrow> environ \<Rightarrow> config \<Rightarrow> 'n object_store \<times> string \<Rightarrow> transcriber \<Rightarrow> parser
    \<Rightarrow> embedder \<Rightarrow> chat_llm \<Rightarrow> ('n, 'z) worker_config" where
  "main_config S E cfg st tc ps em ll = \<lparr>wc_Cfg = Some cfg, wc_Pool = Some E, wc_Log = Some (),
     wc_Jobs = Some (NewJobRepository E), wc_Videos = Some (NewVideoRepository E),
     wc_Segments = Some (NewSegmentRepository E), wc_Transcripts = Some (NewTranscriptRepository E),
     wc_Chunks = Some (NewChunkRepository E), wc_Summaries = Some (NewSummaryRepository E),
     wc_Storage = Some (r2_storage st), wc_Transcriber = Some (groq_transcriber S tc), wc_Parser = Some (llama_parser S ps),
     wc_Embedder = Some (cloudflare_embedder S em), wc_LLM = Some (deepseek_llm S ll),
     wc_Summarizer = Some (newSummarizer (SummaryMaxTokens cfg))\<rparr>"

definition worker_process :: "'n pool_driver \<Rightarrow> 'n services \<Rightarrow> environ \<Rightarrow> environment
    \<Rightarrow> (fatal + go_error, 'n, ('n, ('n, 'y) worker_world_ext job_world_ext, 'y) worker \<times> (db \<Rightarrow> 'n \<Rightarrow> 'n worker_world)) io" where
  "worker_process P S E env =
     andthen (lift_fatal (Load env)) (\<lambda>cfg.
     andthen (map_err (\<lambda>e. Inr (wrapf ''worker: open database'' e)) (NewPool P (DatabaseURL cfg))) (\<lambda>_.
     (let cb = breaker_config cfg in
      lift_start (
      init ''worker: init r2 storage'' (newStorage S cfg) (\<lambda>st.
      init ''worker: init transcriber'' (newTranscriber (GroqAPIKey cfg) [] cb) (\<lambda>(tc, b1).
      init ''worker: init parser'' (newParser (LlamaParseAPIKey cfg) 0 0 cb) (\<lambda>(ps, b2).
      init ''worker: init embedder'' (newEmbedder (CloudflareAccountID cfg) (CloudflareAPIToken cfg)
          (EmbeddingBatchSize cfg) [] cb) (\<lambda>(em, b3).
      init ''worker: init llm'' (newLLM (DeepSeekAPIKey cfg) [] cb) (\<lambda>(ll, b4).
      init ''worker: init'' (NewWorker S (main_config S E cfg st tc ps em ll)) (\<lambda>wk.
        Inr (wk, \<lambda>d n. \<lparr>w_db = d, w_tick = 0, jw_stage = [], ww_net = n, ww_groq = b1, ww_llama = b2,
            ww_cf = b3, ww_ds = b4\<rparr>)))))))))))"

definition server_process :: "rounding \<Rightarrow> 'n pool_driver \<Rightarrow> 'n services \<Rightarrow> environment
    \<Rightarrow> (fatal + go_error, 'n, ('n, 'y) server_world_ext api_world_ext handler \<times> (db \<Rightarrow> 'n \<Rightarrow> 'n server_world)) io" where
  "server_process rnd P S env =
     andthen (lift_fatal (Load env)) (\<lambda>cfg.
     andthen (map_err (\<lambda>e. Inr (wrapf ''server: open database'' e)) (NewPool P (DatabaseURL cfg))) (\<lambda>_.
       lift_start (server_main rnd S cfg)))"

section \<open>What start-up gives\<close>

text \<open>With the dependencies \<open>main\<close> passes, the validation accepts and the pipeline is that of \<open>Wiring\<close>.\<close>

lemma main_config_valid:
  "NewWorker S (main_config S E cfg st tc ps em ll) = Inr \<lparr>wk_cfg = cfg, wk_pool = E, wk_jobs = NewJobRepository E,
     wk_deps = newPipeline S cfg st tc ps em ll\<rparr>"
  by (simp add: NewWorker_def main_config_def validate_worker_def present_deps_def Let_def newPipeline_def
      pipelineDeps_def r2_storage_def groq_transcriber_def llama_parser_def cloudflare_embedder_def deepseek_llm_def)

text \<open>So the process serves with what \<open>worker_main\<close> of \<open>Wiring\<close> builds, whose properties hold of it.\<close>

lemma worker_process_runs:
  assumes "Load env = Inr cfg" "NewPool P (DatabaseURL cfg) n = (Inr (), n1)"
  shows "worker_process P S E env n = (case worker_main S cfg of
      Inl e \<Rightarrow> (Inl (Inr e), n1)
    | Inr (D, w0) \<Rightarrow> (Inr (\<lparr>wk_cfg = cfg, wk_pool = E, wk_jobs = NewJobRepository E, wk_deps = D\<rparr>, w0), n1))"
  using assms by (simp add: worker_process_def worker_main_def andthen_def lift_fatal_def map_err_def lift_start_def Let_def
      main_config_valid init_def split: sum.split prod.split)

lemma server_process_runs:
  assumes "Load env = Inr cfg" "NewPool P (DatabaseURL cfg) n = (Inr (), n1)"
  shows "server_process rnd P S env n = (case server_main rnd S cfg of Inl e \<Rightarrow> (Inl (Inr e), n1) | Inr x \<Rightarrow> (Inr x, n1))"
  using assms by (simp add: server_process_def andthen_def lift_fatal_def map_err_def lift_start_def split: sum.split)

text \<open>Neither main starts without a valid configuration and a database that answers.\<close>

lemma process_needs:
  "worker_process P S E env n = (Inr x, n') \<Longrightarrow> \<exists>cfg n1. Load env = Inr cfg \<and> NewPool P (DatabaseURL cfg) n = (Inr (), n1)"
  "server_process rnd P S env n = (Inr y, n') \<Longrightarrow> \<exists>cfg n1. Load env = Inr cfg \<and> NewPool P (DatabaseURL cfg) n = (Inr (), n1)"
  by (auto simp: worker_process_def server_process_def andthen_ok map_err_ok lift_fatal_def split: sum.splits)

text \<open>The variables that the constructors of the providers require; \<open>Load\<close> does not check them.\<close>

definition server_keys :: "config \<Rightarrow> bool" where
  "server_keys cfg \<longleftrightarrow> CloudflareAccountID cfg \<noteq> [] \<and> CloudflareAPIToken cfg \<noteq> [] \<and> DeepSeekAPIKey cfg \<noteq> []"

lemma case_starts:
  "(\<exists>x n'. (case m of Inl e \<Rightarrow> (Inl (f e), n1) | Inr y \<Rightarrow> (Inr y, n1)) = (Inr x, n')) \<longleftrightarrow> (\<exists>y. m = Inr y)"
  "(\<exists>x n'. (case m' of Inl e \<Rightarrow> (Inl (f e), n1) | Inr (a, b) \<Rightarrow> (Inr (g a b), n1)) = (Inr x, n')) \<longleftrightarrow> (\<exists>y. m' = Inr y)"
  by (cases m; simp) (cases m'; force)

lemma worker_main_starts:
  "(\<exists>x. worker_main S cfg = Inr x) \<longleftrightarrow> (\<exists>st. newStorage S cfg = Inr st) \<and> GroqAPIKey cfg \<noteq> [] \<and> LlamaParseAPIKey cfg \<noteq> [] \<and>
     server_keys cfg"
  by (auto simp: worker_main_def server_keys_def newTranscriber_def newParser_def newEmbedder_def newLLM_def init_def Let_def
      split: sum.splits)

lemma server_main_starts:
  "(\<exists>x. server_main rnd S cfg = Inr x) \<longleftrightarrow> (\<exists>st. newStorage S cfg = Inr st) \<and> server_keys cfg"
  by (auto simp: server_main_def server_keys_def newEmbedder_def newLLM_def init_def split: sum.splits)

text \<open>
  When the programs start: both need a configuration that \<open>Load\<close> accepts, a database that answers a
  ping and storage that the AWS SDK accepts; the server needs the keys of the embedder and of the
  LLM, the worker also those of the transcriber and of the parser. So where the worker starts, the
  server starts.
\<close>

lemma process_starts:
  assumes "Load env = Inr cfg" "NewPool P (DatabaseURL cfg) n = (Inr (), n1)"
  shows "(\<exists>x n'. server_process rnd P S env n = (Inr x, n')) \<longleftrightarrow> (\<exists>st. newStorage S cfg = Inr st) \<and> server_keys cfg"
    "(\<exists>x n'. worker_process P S E env n = (Inr x, n')) \<longleftrightarrow> (\<exists>st. newStorage S cfg = Inr st) \<and> server_keys cfg \<and>
      GroqAPIKey cfg \<noteq> [] \<and> LlamaParseAPIKey cfg \<noteq> []"
  unfolding server_process_runs [OF assms] worker_process_runs [OF assms] case_starts server_main_starts worker_main_starts by blast+

text \<open>A pool that does not answer is closed.\<close>

lemma failed_ping_closes:
  "pool_new P url n = (Inr (), n1) \<Longrightarrow> pool_ping P n1 = (Inl e, n2) \<Longrightarrow>
   NewPool P url n = (Inl (wrapf ''database: ping pool'' e), pool_close P n2)"
  by (simp add: NewPool_def andthen_def map_err_def)

end
