(* ===== verification/Wire.thy ===== *)
theory Wire
  imports ClientErrors "HOL-Library.Monad_Syntax"
begin

text \<open>
  What a reply looks like on the wire: the structs of \<open>httpapi/dto/dto.go\<close> with their field tags, the
  conversions of \<open>handlers/models.go\<close>, and the error object of \<open>httpapi/response.go\<close>, as JSON values.
  The text of a value (escapes, order of the bytes) is \<open>encoding/json\<close>'s, the text of a time is
  \<open>time.Time\<close>'s: the parameter \<open>ts\<close>. A client that knows the API contract (\<open>read_reply\<close>) reads back
  what the handler replied.
\<close>

section \<open>JSON values\<close>

datatype json = JNull | JNum int | JStr string | JList "json list" | JObj "(string \<times> json) list"

text \<open>A pointer, one with \<open>omitempty\<close>, and a slice of strings: one without elements is a nil slice here.\<close>

definition nullable :: "('a \<Rightarrow> json) \<Rightarrow> 'a option \<Rightarrow> json" where
  "nullable enc x = (case x of None \<Rightarrow> JNull | Some a \<Rightarrow> enc a)"

definition omitempty :: "string \<Rightarrow> ('a \<Rightarrow> json) \<Rightarrow> 'a option \<Rightarrow> (string \<times> json) list" where
  "omitempty k enc x = (case x of None \<Rightarrow> [] | Some a \<Rightarrow> [(k, enc a)])"

definition nil_slice :: "string list \<Rightarrow> json" where
  "nil_slice xs = (if xs = [] then JNull else JList (map JStr xs))"

section \<open>The structs\<close>

record video_response =
  vr_id :: string
  vr_tenant :: string
  vr_job :: string
  vr_title :: string
  vr_kind :: string
  vr_file_key :: string
  vr_status :: string
  vr_duration :: "int option"
  vr_segments :: "string list"
  vr_created :: time
  vr_updated :: time

record summary_response =
  sm_id :: string
  sm_status :: string
  sm_content :: "string option"
  sm_language :: "string option"
  sm_model :: "string option"
  sm_created :: time
  sm_updated :: time

definition toVideoResponse :: "material \<Rightarrow> video_response" where
  "toVideoResponse m = (let v = mat_video m in
     \<lparr>vr_id = v_id v, vr_tenant = v_tenant v, vr_job = v_job v, vr_title = v_title v, vr_kind = v_kind v,
      vr_file_key = v_file_key v, vr_status = v_status v, vr_duration = v_duration v,
      vr_segments = mat_segments m, vr_created = v_created v, vr_updated = v_updated v\<rparr>)"

definition toSummaryResponse :: "summary \<Rightarrow> summary_response" where
  "toSummaryResponse s = \<lparr>sm_id = m_id s, sm_status = m_status s, sm_content = m_content s,
     sm_language = m_language s, sm_model = m_model s, sm_created = m_created s, sm_updated = m_updated s\<rparr>"

text \<open>The bodies the handlers hand to \<open>c.JSON\<close>.\<close>

datatype dto =
    DError string string
  | DJob job_response
  | DJobs "job_response list" page_meta
  | DUpload upload_response
  | DVideos "video_response list" page_meta
  | DVideo video_response "summary_response option"
  | DDeleted string time
  | DQuery query_result
  | DHealth string string string string

fun dto_of :: "reply_body \<Rightarrow> dto" where
  "dto_of (ErrorBody c m) = DError c m"
| "dto_of (JobBody r) = DJob r"
| "dto_of (JobsBody rs m) = DJobs rs m"
| "dto_of (UploadBody u) = DUpload u"
| "dto_of (VideosBody ms m) = DVideos (map toVideoResponse ms) m"
| "dto_of (VideoBody v s) = DVideo (toVideoResponse v) (map_option toSummaryResponse s)"
| "dto_of (DeletedBody i t) = DDeleted i t"
| "dto_of (QueryBody q) = DQuery q"
| "dto_of (HealthBody s sv t d) = DHealth s sv t d"

section \<open>Encoding\<close>

definition JobResponse_json :: "(time \<Rightarrow> string) \<Rightarrow> job_response \<Rightarrow> json" where
  "JobResponse_json ts r = (let j = jr_job r; tm = (\<lambda>t. JStr (ts t)) in JObj (
     [(''id'', JStr (j_id j)), (''tenant_id'', JStr (j_tenant j)), (''upload_intent_id'', nullable JStr (j_intent j)),
      (''file_key'', JStr (j_file_key j)), (''title'', JStr (j_title j)), (''kind'', JStr (j_kind j)),
      (''status'', JStr (j_status j)), (''stage'', JStr (j_stage j)), (''error_message'', nullable JStr (j_error j)),
      (''retry_count'', JNum (j_retry j)), (''segments'', nil_slice (jr_segments r))]
     @ omitempty ''started_at'' tm (j_started j) @ omitempty ''finished_at'' tm (j_finished j)
     @ [(''created_at'', tm (j_created j)), (''updated_at'', tm (j_updated j))]))"

definition Meta_json :: "page_meta \<Rightarrow> json" where
  "Meta_json m = JObj [(''page'', JNum (pm_page m)), (''limit'', JNum (pm_limit m)), (''total'', JNum (pm_total m))]"

definition ListJobsResponse_json :: "(time \<Rightarrow> string) \<Rightarrow> job_response list \<Rightarrow> page_meta \<Rightarrow> json" where
  "ListJobsResponse_json ts rs m = JObj [(''data'', JList (map (JobResponse_json ts) rs)), (''meta'', Meta_json m)]"

definition UploadIntentResponse_json :: "(time \<Rightarrow> string) \<Rightarrow> upload_response \<Rightarrow> json" where
  "UploadIntentResponse_json ts u = JObj
     [(''id'', JStr (ur_id u)), (''tenant_id'', JStr (ur_tenant u)), (''file_key'', JStr (ur_file_key u)),
      (''content_type'', JStr (ur_content_type u)), (''status'', JStr (ur_status u)),
      (''presigned_url'', JStr (ur_url u)), (''expires_at'', JStr (ts (ur_expires u)))]"

definition video_fields :: "(time \<Rightarrow> string) \<Rightarrow> video_response \<Rightarrow> (string \<times> json) list" where
  "video_fields ts v =
     [(''id'', JStr (vr_id v)), (''tenant_id'', JStr (vr_tenant v)), (''job_id'', JStr (vr_job v)),
      (''title'', JStr (vr_title v)), (''kind'', JStr (vr_kind v)), (''file_key'', JStr (vr_file_key v)),
      (''status'', JStr (vr_status v)), (''duration_seconds'', nullable JNum (vr_duration v)),
      (''segments'', nil_slice (vr_segments v)), (''created_at'', JStr (ts (vr_created v))),
      (''updated_at'', JStr (ts (vr_updated v)))]"

definition ListVideosResponse_json :: "(time \<Rightarrow> string) \<Rightarrow> video_response list \<Rightarrow> page_meta \<Rightarrow> json" where
  "ListVideosResponse_json ts vs m =
     JObj [(''data'', JList (map (\<lambda>v. JObj (video_fields ts v)) vs)), (''meta'', Meta_json m)]"

definition SummaryResponse_json :: "(time \<Rightarrow> string) \<Rightarrow> summary_response \<Rightarrow> json" where
  "SummaryResponse_json ts s = JObj
     ([(''id'', JStr (sm_id s)), (''status'', JStr (sm_status s))]
      @ omitempty ''content'' JStr (sm_content s) @ omitempty ''language'' JStr (sm_language s)
      @ omitempty ''model'' JStr (sm_model s)
      @ [(''created_at'', JStr (ts (sm_created s))), (''updated_at'', JStr (ts (sm_updated s)))])"

text \<open>The embedded \<open>VideoResponse\<close> contributes its fields to the object.\<close>

definition VideoDetailResponse_json :: "(time \<Rightarrow> string) \<Rightarrow> video_response \<Rightarrow> summary_response option \<Rightarrow> json" where
  "VideoDetailResponse_json ts v s =
     JObj (video_fields ts v @ [(''summary'', nullable (SummaryResponse_json ts) s)])"

definition DeleteVideoResponse_json :: "(time \<Rightarrow> string) \<Rightarrow> string \<Rightarrow> time \<Rightarrow> json" where
  "DeleteVideoResponse_json ts i t = JObj [(''id'', JStr i), (''deleted_at'', JStr (ts t))]"

definition Reference_json :: "query_reference \<Rightarrow> json" where
  "Reference_json r = JObj
     [(''video_id'', JStr (qr_video r)), (''video_title'', JStr (qr_title r)), (''chunk_index'', JNum (qr_index r)),
      (''snippet'', JStr (qr_snippet r)), (''segments'', nil_slice (qr_segments r))]"

definition QueryResponse_json :: "query_result \<Rightarrow> json" where
  "QueryResponse_json q = JObj
     [(''answer'', nullable JStr (res_answer q)), (''references'', JList (map Reference_json (res_references q)))]"

definition HealthResponse_json :: "string \<Rightarrow> string \<Rightarrow> string \<Rightarrow> string \<Rightarrow> json" where
  "HealthResponse_json s sv t d =
     JObj [(''status'', JStr s), (''service'', JStr sv), (''time'', JStr t), (''db'', JStr d)]"

text \<open>The shared error format.\<close>

definition Error_json :: "string \<Rightarrow> string \<Rightarrow> json" where
  "Error_json c m = JObj [(''error'', JObj [(''code'', JStr c), (''message'', JStr m)])]"

fun dto_json :: "(time \<Rightarrow> string) \<Rightarrow> dto \<Rightarrow> json" where
  "dto_json ts (DError c m) = Error_json c m"
| "dto_json ts (DJob r) = JobResponse_json ts r"
| "dto_json ts (DJobs rs m) = ListJobsResponse_json ts rs m"
| "dto_json ts (DUpload u) = UploadIntentResponse_json ts u"
| "dto_json ts (DVideos vs m) = ListVideosResponse_json ts vs m"
| "dto_json ts (DVideo v s) = VideoDetailResponse_json ts v s"
| "dto_json ts (DDeleted i t) = DeleteVideoResponse_json ts i t"
| "dto_json ts (DQuery q) = QueryResponse_json q"
| "dto_json ts (DHealth s sv t d) = HealthResponse_json s sv t d"

definition reply_json :: "(time \<Rightarrow> string) \<Rightarrow> reply \<Rightarrow> json" where
  "reply_json ts r = dto_json ts (dto_of (rp_body r))"

text \<open>The value of a key, if it is present.\<close>

fun member :: "string \<Rightarrow> json \<Rightarrow> json option" where
  "member k (JObj kvs) = map_of kvs k"
| "member k _ = None"

text \<open>
  The queries behind the segment names return a nil slice when there are none, so an untagged job has
  \<open>null\<close> where the API contract shows an array.
\<close>

lemma no_segments_is_null:
  "member ''segments'' (JobResponse_json ts \<lparr>jr_job = j, jr_segments = []\<rparr>) = Some JNull"
  by (simp add: JobResponse_json_def nil_slice_def Let_def)

section \<open>A client\<close>

text \<open>
  A reader of the contract in \<open>docs/04_api_contracts.md\<close>: it knows the request it made and the
  status, parses times with \<open>pt\<close>, takes a missing or null field for an absent value and a null list
  for an empty one.
\<close>

fun a_string :: "json \<Rightarrow> string option" where
  "a_string (JStr s) = Some s" | "a_string _ = None"
fun a_number :: "json \<Rightarrow> int option" where
  "a_number (JNum n) = Some n" | "a_number _ = None"
definition a_time :: "(string \<Rightarrow> time option) \<Rightarrow> json \<Rightarrow> time option" where
  "a_time pt j = Option.bind (a_string j) pt"

fun elements :: "(json \<Rightarrow> 'a option) \<Rightarrow> json list \<Rightarrow> 'a list option" where
  "elements rd [] = Some []"
| "elements rd (x # xs) = do { y \<leftarrow> rd x; ys \<leftarrow> elements rd xs; Some (y # ys) }"

fun a_list :: "(json \<Rightarrow> 'a option) \<Rightarrow> json \<Rightarrow> 'a list option" where
  "a_list rd JNull = Some []"
| "a_list rd (JList xs) = elements rd xs"
| "a_list rd _ = None"

definition need :: "string \<Rightarrow> (json \<Rightarrow> 'a option) \<Rightarrow> json \<Rightarrow> 'a option" where
  "need k rd j = Option.bind (member k j) rd"

definition may :: "string \<Rightarrow> (json \<Rightarrow> 'a option) \<Rightarrow> json \<Rightarrow> 'a option option" where
  "may k rd j = (case member k j of None \<Rightarrow> Some None | Some JNull \<Rightarrow> Some None
     | Some x \<Rightarrow> map_option Some (rd x))"

definition read_job :: "(string \<Rightarrow> time option) \<Rightarrow> json \<Rightarrow> job_response option" where
  "read_job pt j = do {
     i \<leftarrow> need ''id'' a_string j; t \<leftarrow> need ''tenant_id'' a_string j; ui \<leftarrow> may ''upload_intent_id'' a_string j;
     fk \<leftarrow> need ''file_key'' a_string j; ti \<leftarrow> need ''title'' a_string j; kd \<leftarrow> need ''kind'' a_string j;
     st \<leftarrow> need ''status'' a_string j; sg \<leftarrow> need ''stage'' a_string j; e \<leftarrow> may ''error_message'' a_string j;
     rc \<leftarrow> need ''retry_count'' a_number j; ss \<leftarrow> need ''segments'' (a_list a_string) j;
     sa \<leftarrow> may ''started_at'' (a_time pt) j; fa \<leftarrow> may ''finished_at'' (a_time pt) j;
     ca \<leftarrow> need ''created_at'' (a_time pt) j; ua \<leftarrow> need ''updated_at'' (a_time pt) j;
     Some \<lparr>jr_job = \<lparr>j_id = i, j_tenant = t, j_intent = ui, j_file_key = fk, j_title = ti, j_kind = kd,
       j_status = st, j_stage = sg, j_error = e, j_retry = rc, j_started = sa, j_finished = fa,
       j_created = ca, j_updated = ua\<rparr>, jr_segments = ss\<rparr> }"

definition read_meta :: "json \<Rightarrow> page_meta option" where
  "read_meta j = do { p \<leftarrow> need ''page'' a_number j; l \<leftarrow> need ''limit'' a_number j; t \<leftarrow> need ''total'' a_number j;
     Some \<lparr>pm_page = p, pm_limit = l, pm_total = t\<rparr> }"

definition read_video :: "(string \<Rightarrow> time option) \<Rightarrow> json \<Rightarrow> video_response option" where
  "read_video pt j = do {
     i \<leftarrow> need ''id'' a_string j; t \<leftarrow> need ''tenant_id'' a_string j; jb \<leftarrow> need ''job_id'' a_string j;
     ti \<leftarrow> need ''title'' a_string j; kd \<leftarrow> need ''kind'' a_string j; fk \<leftarrow> need ''file_key'' a_string j;
     st \<leftarrow> need ''status'' a_string j; du \<leftarrow> may ''duration_seconds'' a_number j;
     ss \<leftarrow> need ''segments'' (a_list a_string) j;
     ca \<leftarrow> need ''created_at'' (a_time pt) j; ua \<leftarrow> need ''updated_at'' (a_time pt) j;
     Some \<lparr>vr_id = i, vr_tenant = t, vr_job = jb, vr_title = ti, vr_kind = kd, vr_file_key = fk, vr_status = st,
       vr_duration = du, vr_segments = ss, vr_created = ca, vr_updated = ua\<rparr> }"

definition read_summary :: "(string \<Rightarrow> time option) \<Rightarrow> json \<Rightarrow> summary_response option" where
  "read_summary pt j = do {
     i \<leftarrow> need ''id'' a_string j; st \<leftarrow> need ''status'' a_string j; c \<leftarrow> may ''content'' a_string j;
     l \<leftarrow> may ''language'' a_string j; m \<leftarrow> may ''model'' a_string j;
     ca \<leftarrow> need ''created_at'' (a_time pt) j; ua \<leftarrow> need ''updated_at'' (a_time pt) j;
     Some \<lparr>sm_id = i, sm_status = st, sm_content = c, sm_language = l, sm_model = m, sm_created = ca, sm_updated = ua\<rparr> }"

definition read_reference :: "json \<Rightarrow> query_reference option" where
  "read_reference j = do {
     v \<leftarrow> need ''video_id'' a_string j; t \<leftarrow> need ''video_title'' a_string j; n \<leftarrow> need ''chunk_index'' a_number j;
     s \<leftarrow> need ''snippet'' a_string j; ss \<leftarrow> need ''segments'' (a_list a_string) j;
     Some \<lparr>qr_video = v, qr_title = t, qr_index = n, qr_snippet = s, qr_segments = ss\<rparr> }"

fun read_success :: "(string \<Rightarrow> time option) \<Rightarrow> route \<Rightarrow> json \<Rightarrow> dto option" where
  "read_success pt RHealth j = do {
     s \<leftarrow> need ''status'' a_string j; sv \<leftarrow> need ''service'' a_string j; t \<leftarrow> need ''time'' a_string j;
     d \<leftarrow> need ''db'' a_string j; Some (DHealth s sv t d) }"
| "read_success pt (RCreateUploadIntent b) j = do {
     i \<leftarrow> need ''id'' a_string j; t \<leftarrow> need ''tenant_id'' a_string j; fk \<leftarrow> need ''file_key'' a_string j;
     ct \<leftarrow> need ''content_type'' a_string j; st \<leftarrow> need ''status'' a_string j; u \<leftarrow> need ''presigned_url'' a_string j;
     x \<leftarrow> need ''expires_at'' (a_time pt) j;
     Some (DUpload \<lparr>ur_id = i, ur_tenant = t, ur_file_key = fk, ur_content_type = ct, ur_status = st, ur_url = u,
       ur_expires = x\<rparr>) }"
| "read_success pt (RCreateJob b) j = map_option DJob (read_job pt j)"
| "read_success pt (RGetJob i) j = map_option DJob (read_job pt j)"
| "read_success pt (RRetryJob i) j = map_option DJob (read_job pt j)"
| "read_success pt RListJobs j = do {
     ds \<leftarrow> need ''data'' (a_list (read_job pt)) j; m \<leftarrow> need ''meta'' read_meta j; Some (DJobs ds m) }"
| "read_success pt RListVideos j = do {
     ds \<leftarrow> need ''data'' (a_list (read_video pt)) j; m \<leftarrow> need ''meta'' read_meta j; Some (DVideos ds m) }"
| "read_success pt (RGetVideo i) j = do {
     v \<leftarrow> read_video pt j; s \<leftarrow> may ''summary'' (read_summary pt) j; Some (DVideo v s) }"
| "read_success pt (RDeleteVideo i) j = do {
     v \<leftarrow> need ''id'' a_string j; t \<leftarrow> need ''deleted_at'' (a_time pt) j; Some (DDeleted v t) }"
| "read_success pt (RQuery b) j = do {
     a \<leftarrow> may ''answer'' a_string j; rs \<leftarrow> need ''references'' (a_list read_reference) j;
     Some (DQuery \<lparr>res_answer = a, res_references = rs\<rparr>) }"

definition read_error :: "json \<Rightarrow> dto option" where
  "read_error j = do { e \<leftarrow> member ''error'' j; c \<leftarrow> need ''code'' a_string e; m \<leftarrow> need ''message'' a_string e;
     Some (DError c m) }"

definition read_reply :: "(string \<Rightarrow> time option) \<Rightarrow> route \<Rightarrow> int \<Rightarrow> json \<Rightarrow> dto option" where
  "read_reply pt rt st j = (if st < 400 then read_success pt rt j else read_error j)"

section \<open>Reading what was written\<close>

fun job_times :: "job_response \<Rightarrow> time list" where
  "job_times r = (case j_started (jr_job r) of None \<Rightarrow> [] | Some t \<Rightarrow> [t]) @
     (case j_finished (jr_job r) of None \<Rightarrow> [] | Some t \<Rightarrow> [t]) @ [j_created (jr_job r), j_updated (jr_job r)]"

fun dto_times :: "dto \<Rightarrow> time list" where
  "dto_times (DJob r) = job_times r"
| "dto_times (DJobs rs m) = concat (map job_times rs)"
| "dto_times (DUpload u) = [ur_expires u]"
| "dto_times (DVideos vs m) = concat (map (\<lambda>v. [vr_created v, vr_updated v]) vs)"
| "dto_times (DVideo v s) = [vr_created v, vr_updated v] @
     (case s of None \<Rightarrow> [] | Some x \<Rightarrow> [sm_created x, sm_updated x])"
| "dto_times (DDeleted i t) = [t]"
| "dto_times _ = []"

lemma elements_map: "(\<And>x. x \<in> set xs \<Longrightarrow> rd (enc x) = Some x) \<Longrightarrow> elements rd (map enc xs) = Some xs"
  by (induction xs) simp_all

lemma a_list_nil_slice [simp]: "a_list a_string (nil_slice xs) = Some xs"
  by (simp add: nil_slice_def elements_map)

lemma map_of_omitempty:
  "map_of (omitempty k enc x @ kvs) q = (if q = k \<and> x \<noteq> None then map_option enc x else map_of kvs q)"
  by (cases x) (auto simp: omitempty_def)

lemma may_nullable:
  "member k j = Some (nullable enc x) \<Longrightarrow> (\<And>a. x = Some a \<Longrightarrow> enc a \<noteq> JNull \<and> rd (enc a) = Some a) \<Longrightarrow> may k rd j = Some x"
  by (cases x) (auto simp: may_def nullable_def split: json.split)

lemma may_omitempty:
  "member k j = map_option enc x \<Longrightarrow> (\<And>a. x = Some a \<Longrightarrow> enc a \<noteq> JNull \<and> rd (enc a) = Some a) \<Longrightarrow> may k rd j = Some x"
  by (cases x) (auto simp: may_def split: json.split)

lemma a_time_str [simp]: "a_time pt (JStr s) = pt s"
  by (simp add: a_time_def)

lemma read_job_json:
  assumes "\<And>t. t \<in> set (job_times r) \<Longrightarrow> pt (ts t) = Some t"
  shows "read_job pt (JobResponse_json ts r) = Some r"
proof -
  let ?j = "JobResponse_json ts r"
  have m: "may ''upload_intent_id'' a_string ?j = Some (j_intent (jr_job r))" "may ''error_message'' a_string ?j = Some (j_error (jr_job r))"
    by (rule may_nullable [where enc = JStr]; simp add: JobResponse_json_def Let_def)+
  have o: "may ''started_at'' (a_time pt) ?j = Some (j_started (jr_job r))" "may ''finished_at'' (a_time pt) ?j = Some (j_finished (jr_job r))"
    by (rule may_omitempty [where enc = "\<lambda>t. JStr (ts t)"]; simp add: JobResponse_json_def Let_def map_of_omitempty assms del: map_of_append)+
  let ?J = "jr_job r"
  have n: "need ''id'' a_string ?j = Some (j_id ?J)" "need ''tenant_id'' a_string ?j = Some (j_tenant ?J)"
    "need ''file_key'' a_string ?j = Some (j_file_key ?J)" "need ''title'' a_string ?j = Some (j_title ?J)"
    "need ''kind'' a_string ?j = Some (j_kind ?J)" "need ''status'' a_string ?j = Some (j_status ?J)"
    "need ''stage'' a_string ?j = Some (j_stage ?J)" "need ''retry_count'' a_number ?j = Some (j_retry ?J)"
    "need ''segments'' (a_list a_string) ?j = Some (jr_segments r)"
    "need ''created_at'' (a_time pt) ?j = Some (j_created ?J)" "need ''updated_at'' (a_time pt) ?j = Some (j_updated ?J)"
    by (simp_all add: need_def JobResponse_json_def Let_def map_of_omitempty assms del: map_of_append)
  show ?thesis unfolding read_job_def m o n by simp
qed

lemma read_meta_json [simp]: "read_meta (Meta_json m) = Some m"
  by (simp add: read_meta_def Meta_json_def need_def)

lemma read_video_json:
  assumes "pt (ts (vr_created v)) = Some (vr_created v)" "pt (ts (vr_updated v)) = Some (vr_updated v)"
  shows "read_video pt (JObj (video_fields ts v @ rest)) = Some v"
proof -
  have m: "may ''duration_seconds'' a_number (JObj (video_fields ts v @ rest)) = Some (vr_duration v)"
    by (rule may_nullable [where enc = JNum]; simp add: video_fields_def)
  show ?thesis unfolding read_video_def m using assms by (simp add: need_def video_fields_def)
qed

lemma read_summary_json:
  assumes "pt (ts (sm_created s)) = Some (sm_created s)" "pt (ts (sm_updated s)) = Some (sm_updated s)"
  shows "read_summary pt (SummaryResponse_json ts s) = Some s"
proof -
  let ?j = "SummaryResponse_json ts s"
  have o: "may ''content'' a_string ?j = Some (sm_content s)" "may ''language'' a_string ?j = Some (sm_language s)"
    "may ''model'' a_string ?j = Some (sm_model s)"
    by (rule may_omitempty [where enc = JStr]; simp add: SummaryResponse_json_def map_of_omitempty del: map_of_append)+
  show ?thesis unfolding read_summary_def o using assms by (simp add: need_def SummaryResponse_json_def map_of_omitempty del: map_of_append)
qed

lemma read_reference_json [simp]: "read_reference (Reference_json r) = Some r"
  by (simp add: read_reference_def Reference_json_def need_def)

text \<open>The bodies that a route answers with, by success and failure.\<close>

definition fits :: "route \<Rightarrow> reply_body \<Rightarrow> bool" where
  "fits rt b = (case rt of
     RHealth \<Rightarrow> (case b of HealthBody _ _ _ _ \<Rightarrow> True | _ \<Rightarrow> False)
   | RCreateUploadIntent _ \<Rightarrow> (case b of UploadBody _ \<Rightarrow> True | _ \<Rightarrow> False)
   | RListJobs \<Rightarrow> (case b of JobsBody _ _ \<Rightarrow> True | _ \<Rightarrow> False)
   | RListVideos \<Rightarrow> (case b of VideosBody _ _ \<Rightarrow> True | _ \<Rightarrow> False)
   | RGetVideo _ \<Rightarrow> (case b of VideoBody _ _ \<Rightarrow> True | _ \<Rightarrow> False)
   | RDeleteVideo _ \<Rightarrow> (case b of DeletedBody _ _ \<Rightarrow> True | _ \<Rightarrow> False)
   | RQuery _ \<Rightarrow> (case b of QueryBody _ \<Rightarrow> True | _ \<Rightarrow> False)
   | _ \<Rightarrow> (case b of JobBody _ \<Rightarrow> True | _ \<Rightarrow> False))"

definition in_contract :: "route \<Rightarrow> reply \<Rightarrow> bool" where
  "in_contract rt r \<longleftrightarrow> (if rp_status r < 400 then fits rt (rp_body r) else (\<exists>c m. rp_body r = ErrorBody c m))"

lemma read_success_json:
  assumes "fits rt b" "\<And>t. t \<in> set (dto_times (dto_of b)) \<Longrightarrow> pt (ts t) = Some t"
  shows "read_success pt rt (dto_json ts (dto_of b)) = Some (dto_of b)"
proof -
  have jb: "read_job pt (JobResponse_json ts r) = Some r" if "b = JobBody r" for r
    by (rule read_job_json) (use that assms(2) in auto)
  have js: "elements (read_job pt) (map (JobResponse_json ts) rs) = Some rs" if "b = JobsBody rs m" for rs m
    by (intro elements_map read_job_json) (use that assms(2) in auto)
  have vs: "elements (read_video pt) (map (\<lambda>v. JObj (video_fields ts v)) (map toVideoResponse ms)) = Some (map toVideoResponse ms)"
    if "b = VideosBody ms m" for ms m
    by (intro elements_map read_video_json [where rest = "[]", simplified]) (use that assms(2) in auto)
  have v: "read_video pt (JObj (video_fields ts (toVideoResponse x) @ [(''summary'', nullable (SummaryResponse_json ts) (map_option toSummaryResponse s))])) =
      Some (toVideoResponse x)" if "b = VideoBody x s" for x s
    by (rule read_video_json) (use that assms(2) in auto)
  have s: "may ''summary'' (read_summary pt) (JObj (video_fields ts (toVideoResponse x) @ [(''summary'', nullable (SummaryResponse_json ts) (map_option toSummaryResponse s))])) =
      Some (map_option toSummaryResponse s)" if "b = VideoBody x s" for x s
  proof (rule may_nullable [where enc = "SummaryResponse_json ts"])
    fix a
    assume "map_option toSummaryResponse s = Some a"
    with that assms(2) have "pt (ts (sm_created a)) = Some (sm_created a)" "pt (ts (sm_updated a)) = Some (sm_updated a)" by auto
    then show "SummaryResponse_json ts a \<noteq> JNull \<and> read_summary pt (SummaryResponse_json ts a) = Some a"
      by (simp add: read_summary_json) (simp add: SummaryResponse_json_def)
  qed (simp add: video_fields_def)
  have a: "may ''answer'' a_string (QueryResponse_json q) = Some (res_answer q)" for q
    by (rule may_nullable [where enc = JStr]; simp add: QueryResponse_json_def)
  note jsons = need_def ListJobsResponse_json_def ListVideosResponse_json_def VideoDetailResponse_json_def
    DeleteVideoResponse_json_def QueryResponse_json_def HealthResponse_json_def UploadIntentResponse_json_def
  show ?thesis
    using assms by (cases rt; cases b) (simp_all add: fits_def js vs v s jb a [unfolded QueryResponse_json_def] elements_map jsons del: map_map)
qed

lemma read_reply_json:
  assumes "in_contract rt r" "\<And>t. t \<in> set (dto_times (dto_of (rp_body r))) \<Longrightarrow> pt (ts t) = Some t"
  shows "read_reply pt rt (rp_status r) (reply_json ts r) = Some (dto_of (rp_body r))"
proof (cases "rp_status r < 400")
  case True
  with assms show ?thesis by (simp add: read_reply_def reply_json_def in_contract_def read_success_json)
next
  case False
  with assms(1) obtain c m where "rp_body r = ErrorBody c m" by (auto simp: in_contract_def)
  with False show ?thesis by (simp add: read_reply_def reply_json_def read_error_def Error_json_def need_def)
qed

section \<open>The replies of the server\<close>

text \<open>\<open>returns R m\<close>: what \<open>m\<close> returns, if it does, satisfies \<open>R\<close>.\<close>

definition returns :: "('a \<Rightarrow> bool) \<Rightarrow> ('e, 'w, 'a) io \<Rightarrow> bool" where
  "returns R m \<longleftrightarrow> (\<forall>w a w'. m w = (Inr a, w') \<longrightarrow> R a)"

lemma returns_andthen: "(\<And>a. returns R (f a)) \<Longrightarrow> returns R (andthen m f)"
  by (auto simp: returns_def io_ok)

lemma returns_intros:
  "R a \<Longrightarrow> returns R (ret a)" "returns R (fail e)" "returns R m \<Longrightarrow> returns R n \<Longrightarrow> returns R (if c then m else n)"
  "(\<And>a. returns R (g a)) \<Longrightarrow> (\<And>b. returns R (h b)) \<Longrightarrow> returns R (case x of Inl a \<Rightarrow> g a | Inr b \<Rightarrow> h b)"
  "returns R m \<Longrightarrow> (\<And>b. returns R (l b)) \<Longrightarrow> returns R (case y of None \<Rightarrow> m | Some b \<Rightarrow> l b)"
  "(\<And>a b. returns R (q a b)) \<Longrightarrow> returns R (case p of (a, b) \<Rightarrow> q a b)" "returns R (v z) \<Longrightarrow> returns R (Let z v)"
  by (auto simp: returns_def io_ok split: sum.splits option.splits prod.splits)

lemma dispatch_fits: "returns (\<lambda>r. fits (ar_route req) (rp_body r) \<and> rp_status r < 400) (dispatch E H i req)"
  unfolding dispatch_def Health_def CreateUploadIntent_h_def CreateJob_def ListJobs_def
    GetJob_def RetryJob_def ListVideos_def GetVideo_def DeleteVideo_def Query_def
  by (cases "ar_route req"; simp only: route.case; intro returns_intros returns_andthen; simp add: fits_def ok_reply_def)

lemma guarded_route_fits:
  "guarded_route rnd E H req w = (Inr r, w') \<Longrightarrow> fits (ar_route req) (rp_body r) \<and> rp_status r < 400"
  using dispatch_fits [of req E H] by (auto simp: guarded_route_def io_ok returns_def split: option.splits)

lemma serve_in_contract:
  assumes "honest_env E" "honest_ports H"
  shows "in_contract (ar_route req) (fst (serve rnd E H req w))"
proof -
  obtain x w' where x: "guarded_route rnd E H req w = (x, w')" by fastforce
  show ?thesis
  proof (cases x)
    case (Inr r)
    with guarded_route_fits [of rnd E H req w r w'] x show ?thesis
      by (simp add: serve_def respond_def in_contract_def)
  next
    case (Inl e)
    with honestD [OF honest_guarded_route [OF assms]] x have "from_sentinels e" by blast
    then obtain a where "a \<in> set sentinels" "api_http_status (Some e) = ae_http_status a"
      using client_view_sentinel [of "Some e"] by auto
    with sentinel_status have "400 \<le> api_http_status (Some e)" by auto
    with x Inl show ?thesis by (simp add: serve_def respond_def in_contract_def writeError_def)
  qed
qed

lemma demo_video_reply:
  "fst (serve exact demo_env demo_handler (demo_request (RGetVideo ''v'') ''ka'') (new_api_world exact demo_db)) =
   \<lparr>rp_status = 200, rp_body = VideoBody \<lparr>mat_video = demo_video, mat_segments = []\<rparr> None\<rparr>"
proof -
  let ?w = "new_api_world exact demo_db"
  have g: "fst (dispatch demo_env demo_handler demo_admin (demo_request (RGetVideo ''v'') ''ka'') w) =
      Inr (ok_reply 200 (VideoBody \<lparr>mat_video = demo_video, mat_segments = []\<rparr> None))"
    if "d_videos (w_db w) = [demo_video]" "d_summaries (w_db w) = []" "d_video_segments (w_db w) = []" "d_segments (w_db w) = []"
    for w :: "'z world_scheme"
    using that by (simp add: dispatch_def demo_defs GetVideo_def Videos_GetByID_def WithTenantTx_def stmt_def
      GetVideoByID_q_def one_row_def uuid_arg_def andthen_def map_err_def ret_def withSegments_def
      ListSegmentNamesByVideoID_def optional_summary_def Summaries_GetByVideoID_def GetSummaryByVideoID_q_def
      fail_def not_found_def Let_def linked_names_def mapVideo_def toIntPtr_def toTimePtr_def toTime_def)
  obtain w1 where a: "authenticate demo_env demo_handler ''ka'' ?w = (Inr demo_admin, w1)"
    "d_videos (w_db w1) = [demo_video]" "d_summaries (w_db w1) = []" "d_video_segments (w_db w1) = []" "d_segments (w_db w1) = []"
    "aw_admin w1 = NewTokenBucket adminQuotaPerMinute (exact (adminQuotaPerMinute / 60))"
    using demo_auth [of ?w] by (simp add: new_api_world_def demo_db_def)
  obtain w2 where w2: "limit_admin exact demo_env demo_admin ''ip'' w1 = (Inr (), w2)" "w_db w2 = w_db w1"
    using demo_limit [OF a(6)] by blast
  obtain r w3 where d: "dispatch demo_env demo_handler demo_admin (demo_request (RGetVideo ''v'') ''ka'') w2 = (r, w3)" by fastforce
  with g [of w2] w2(2) a have "r = Inr (ok_reply 200 (VideoBody \<lparr>mat_video = demo_video, mat_segments = []\<rparr> None))" by simp
  moreover have "serve exact demo_env demo_handler (demo_request (RGetVideo ''v'') ''ka'') ?w = respond (\<lambda>w. (r, w3)) ?w"
    using a(1) w2(1) d by (simp add: serve_def respond_def guarded_route_def demo_request_def andthen_def RequireScope_def demo_admin_def ret_def)
  ultimately show ?thesis by (simp add: respond_def ok_reply_def)
qed



end
