(* ===== verification/WakeLoop.thy ===== *)
theory WakeLoop
  imports Worker
begin

text \<open>
  The goroutines that \<open>Worker.Run\<close> of \<open>worker/worker.go\<close> starts, and the wake channel between them:
  the listener and the ticker send, the worker loops receive. \<open>wstep\<close> is one step of one of them or
  of their surroundings; the pipeline of a job is one step here (\<open>Worker\<close> has its inside).
  Proved: no job waits unnoticed once the ticker has ticked, and shutdown stops the loops.
\<close>

section \<open>State\<close>

text \<open>
  A loop waits in its \<open>select\<close>, drains (is about to claim), processes a claimed job, or has
  returned.
\<close>

datatype wloop = Waiting | Draining | Processing | Finished

text \<open>
  \<open>wk_buffer\<close>: the signals in the channel \<open>wake\<close>; \<open>wk_pending\<close>: the pending jobs of the database;
  \<open>wk_notes\<close>: the notifications queued on the LISTEN connection, which exists while
  \<open>wk_listening\<close>; \<open>wk_shutdown\<close>: \<open>ctx\<close> is done.
\<close>

record wake_state =
  wk_buffer :: nat
  wk_loops :: "wloop list"
  wk_pending :: nat
  wk_notes :: nat
  wk_listening :: bool
  wk_shutdown :: bool

definition wakeBufferSize :: nat where "wakeBufferSize = 32"

datatype wevent =
    Inserted | Retried | Shutdown
  | SessionUp | SessionDown | Notified bool
  | Tick bool
  | Wake nat | Claim nat | ClaimNone nat | ClaimFails nat | Processed nat | Leave nat

section \<open>Steps\<close>

text \<open>
  \<open>sendWake\<close>: a send that drops the signal when the buffer is full. Once \<open>ctx\<close> is done the
  \<open>select\<close> may take that case instead (\<open>quit\<close>).
\<close>

definition sendWake :: "bool \<Rightarrow> wake_state \<Rightarrow> wake_state" where
  "sendWake quit s =
     (if wk_shutdown s \<and> quit then s
      else if wk_buffer s < wakeBufferSize then s\<lparr>wk_buffer := wk_buffer s + 1\<rparr> else s)"

text \<open>
  What clients and the operator do. The trigger \<open>trg_jobs_notify\<close> fires on the insertion of a job;
  a retry updates its row and notifies nobody.
\<close>

fun outside_step :: "wevent \<Rightarrow> wake_state \<Rightarrow> wake_state option" where
  "outside_step Inserted s = Some (s\<lparr>wk_pending := wk_pending s + 1,
     wk_notes := (if wk_listening s then wk_notes s + 1 else wk_notes s)\<rparr>)"
| "outside_step Retried s = Some (s\<lparr>wk_pending := wk_pending s + 1\<rparr>)"
| "outside_step Shutdown s = Some (s\<lparr>wk_shutdown := True\<rparr>)"
| "outside_step _ s = None"

text \<open>\<open>listenOnce\<close>: a session begins, loses its connection, or receives a notification.\<close>

fun listenOnce :: "wevent \<Rightarrow> wake_state \<Rightarrow> wake_state option" where
  "listenOnce SessionUp s =
     (if wk_listening s \<or> wk_shutdown s then None else Some (s\<lparr>wk_listening := True, wk_notes := 0\<rparr>))"
| "listenOnce SessionDown s =
     (if wk_listening s then Some (s\<lparr>wk_listening := False, wk_notes := 0\<rparr>) else None)"
| "listenOnce (Notified quit) s =
     (if wk_listening s \<and> 0 < wk_notes s then Some (sendWake quit (s\<lparr>wk_notes := wk_notes s - 1\<rparr>)) else None)"
| "listenOnce _ s = None"

text \<open>\<open>tickerLoop\<close>: the initial wake and one per tick.\<close>

fun tickerLoop :: "wevent \<Rightarrow> wake_state \<Rightarrow> wake_state option" where
  "tickerLoop (Tick quit) s = Some (sendWake quit s)"
| "tickerLoop _ s = None"

text \<open>\<open>workerLoop\<close> of goroutine \<open>i\<close>. A claim with a done \<open>ctx\<close> is an error.\<close>

definition in_loop :: "nat \<Rightarrow> wloop \<Rightarrow> wake_state \<Rightarrow> bool" where
  "in_loop i l s \<longleftrightarrow> i < length (wk_loops s) \<and> wk_loops s ! i = l"

definition set_loop :: "nat \<Rightarrow> wloop \<Rightarrow> wake_state \<Rightarrow> wake_state" where
  "set_loop i l s = s\<lparr>wk_loops := (wk_loops s)[i := l]\<rparr>"

definition goes_on :: "wake_state \<Rightarrow> wloop" where
  "goes_on s = (if wk_shutdown s then Finished else Draining)"

fun workerLoop :: "wevent \<Rightarrow> wake_state \<Rightarrow> wake_state option" where
  "workerLoop (Wake i) s =
     (if in_loop i Waiting s \<and> 0 < wk_buffer s then Some (set_loop i Draining (s\<lparr>wk_buffer := wk_buffer s - 1\<rparr>)) else None)"
| "workerLoop (Leave i) s =
     (if in_loop i Waiting s \<and> wk_shutdown s then Some (set_loop i Finished s) else None)"
| "workerLoop (Claim i) s =
     (if in_loop i Draining s \<and> 0 < wk_pending s \<and> \<not> wk_shutdown s
      then Some (set_loop i Processing (s\<lparr>wk_pending := wk_pending s - 1\<rparr>)) else None)"
| "workerLoop (ClaimNone i) s =
     (if in_loop i Draining s \<and> wk_pending s = 0 \<and> \<not> wk_shutdown s then Some (set_loop i Waiting s) else None)"
| "workerLoop (ClaimFails i) s = (if in_loop i Draining s then Some (set_loop i (goes_on s) s) else None)"
| "workerLoop (Processed i) s = (if in_loop i Processing s then Some (set_loop i (goes_on s) s) else None)"
| "workerLoop _ s = None"

definition wstep :: "wevent \<Rightarrow> wake_state \<Rightarrow> wake_state option" where
  "wstep e s =
     (case outside_step e s of Some s' \<Rightarrow> Some s'
      | None \<Rightarrow> (case listenOnce e s of Some s' \<Rightarrow> Some s'
      | None \<Rightarrow> (case tickerLoop e s of Some s' \<Rightarrow> Some s' | None \<Rightarrow> workerLoop e s)))"

text \<open>\<open>Run\<close>: the goroutines it starts, over a backlog of pending jobs.\<close>

definition run_start :: "int \<Rightarrow> nat \<Rightarrow> wake_state" where
  "run_start concurrency backlog = \<lparr>wk_buffer = 0,
     wk_loops = replicate (nat (worker_concurrency concurrency)) Waiting,
     wk_pending = backlog, wk_notes = 0, wk_listening = False, wk_shutdown = False\<rparr>"

inductive wruns :: "wake_state \<Rightarrow> wevent list \<Rightarrow> wake_state \<Rightarrow> bool" where
  wruns_Nil: "wruns s [] s"
| wruns_Cons: "wstep e s = Some s1 \<Longrightarrow> wruns s1 es s2 \<Longrightarrow> wruns s (e # es) s2"

inductive_simps wruns_Nil_iff [simp]: "wruns s [] s'"
inductive_simps wruns_Cons_iff [simp]: "wruns s (e # es) s'"

lemma wruns_append: "wruns s (es @ es') s' \<longleftrightarrow> (\<exists>s1. wruns s es s1 \<and> wruns s1 es' s')"
  by (induction es arbitrary: s) auto

section \<open>No job waits unnoticed\<close>

text \<open>Some signal is on its way: a notification, a signal in the buffer, or a loop at work.\<close>

definition noticed :: "wake_state \<Rightarrow> bool" where
  "noticed s \<longleftrightarrow> 0 < wk_notes s \<or> 0 < wk_buffer s \<or> Draining \<in> set (wk_loops s) \<or> Processing \<in> set (wk_loops s)"

definition wake_inv :: "wake_state \<Rightarrow> bool" where
  "wake_inv s \<longleftrightarrow> wk_listening s \<and> (wk_shutdown s \<or> wk_pending s = 0 \<or> noticed s)"

definition loops_inv :: "wake_state \<Rightarrow> bool" where
  "loops_inv s \<longleftrightarrow> wk_loops s \<noteq> [] \<and> (wk_shutdown s \<or> Finished \<notin> set (wk_loops s)) \<and>
     wk_buffer s \<le> wakeBufferSize \<and> (0 < wk_notes s \<longrightarrow> wk_listening s)"

text \<open>Events that may leave a pending job without a signal until the next tick.\<close>

definition silent :: "wevent \<Rightarrow> bool" where
  "silent e \<longleftrightarrow> e = Retried \<or> e = SessionDown"

lemmas step_defs = wstep_def sendWake_def set_loop_def in_loop_def goes_on_def

lemma in_update: "i < length xs \<Longrightarrow> x \<in> set (xs[i := x])"
  by (simp add: set_update_memI)

lemma loops_inv_step: "wstep e s = Some s' \<Longrightarrow> loops_inv s \<Longrightarrow> loops_inv s'"
  by (cases e) (auto simp: step_defs loops_inv_def wakeBufferSize_def split: if_splits
      dest: subsetD [OF set_update_subset_insert])

lemma wake_inv_step:
  assumes "wstep e s = Some s'" "wake_inv s" "\<not> silent e"
  shows "wake_inv s'"
  using assms
  by (cases e) (auto simp: step_defs wake_inv_def noticed_def silent_def wakeBufferSize_def in_update split: if_splits)

lemma loops_inv_start: "loops_inv (run_start c n)"
  by (simp add: loops_inv_def run_start_def worker_concurrency_def Let_def)

lemma loops_inv_runs: "wruns s es s' \<Longrightarrow> loops_inv s \<Longrightarrow> loops_inv s'"
  by (induction rule: wruns.induct) (auto intro: loops_inv_step)

lemma wake_inv_runs: "wruns s es s' \<Longrightarrow> wake_inv s \<Longrightarrow> \<forall>e \<in> set es. \<not> silent e \<Longrightarrow> wake_inv s'"
  by (induction rule: wruns.induct) (auto intro: wake_inv_step)

lemma tick_noticed:
  "wstep (Tick q) s = Some s' \<Longrightarrow> \<not> wk_shutdown s \<Longrightarrow> noticed s'"
  by (auto simp: step_defs noticed_def wakeBufferSize_def split: if_splits)

lemma tick_keeps: "wstep (Tick q) s = Some s' \<Longrightarrow> wk_listening s' = wk_listening s"
  by (auto simp: step_defs split: if_splits)

text \<open>The steps by which a signal becomes a claim.\<close>

definition inner :: "wevent \<Rightarrow> bool" where
  "inner e \<longleftrightarrow> (case e of Notified q \<Rightarrow> True | Wake i \<Rightarrow> True | Processed i \<Rightarrow> True | _ \<Rightarrow> False)"

lemma inner_iff: "inner e \<longleftrightarrow> (\<exists>q. e = Notified q) \<or> (\<exists>j. e = Wake j) \<or> (\<exists>j. e = Processed j)"
  by (cases e) (simp_all add: inner_def)

lemma claim_from_draining:
  assumes "Draining \<in> set (wk_loops s)" "0 < wk_pending s" "\<not> wk_shutdown s"
  shows "\<exists>i s'. wstep (Claim i) s = Some s'"
proof -
  obtain i where "i < length (wk_loops s)" "wk_loops s ! i = Draining" using assms(1) by (auto simp: in_set_conv_nth)
  then show ?thesis using assms(2,3) by (auto simp: step_defs)
qed

lemma wake_then_claim:
  assumes "set (wk_loops s) \<subseteq> {Waiting}" "wk_loops s \<noteq> []" "0 < wk_buffer s" "0 < wk_pending s" "\<not> wk_shutdown s"
  shows "\<exists>j s1 i s'. wstep (Wake j) s = Some s1 \<and> wstep (Claim i) s1 = Some s'"
proof -
  have l: "in_loop 0 Waiting s" using assms(1,2) by (cases "wk_loops s") (auto simp: in_loop_def)
  let ?s1 = "set_loop 0 Draining (s\<lparr>wk_buffer := wk_buffer s - 1\<rparr>)"
  have w: "wstep (Wake 0) s = Some ?s1" using l assms(3) by (simp add: wstep_def)
  have "Draining \<in> set (wk_loops ?s1)" using assms(2) by (simp add: set_loop_def in_update)
  with claim_from_draining [of ?s1] assms(4,5) w show ?thesis by (auto simp: set_loop_def)
qed

lemma noticed_claims:
  assumes "loops_inv s" "noticed s" "0 < wk_pending s" "\<not> wk_shutdown s"
  shows "\<exists>es i s'. wruns s (es @ [Claim i]) s' \<and> length es \<le> 2 \<and> (\<forall>e \<in> set es. inner e)"
proof -
  consider (draining) "Draining \<in> set (wk_loops s)"
    | (processing) i where "i < length (wk_loops s)" "wk_loops s ! i = Processing"
    | (waiting) "set (wk_loops s) \<subseteq> {Waiting}"
  proof (cases "Draining \<in> set (wk_loops s) \<or> Processing \<in> set (wk_loops s)")
    case True
    with draining processing show thesis by (auto simp: in_set_conv_nth)
  next
    case False
    then have "l = Waiting" if "l \<in> set (wk_loops s)" for l using that assms(1,4) by (cases l) (auto simp: loops_inv_def)
    with waiting show thesis by blast
  qed
  then show ?thesis
  proof cases
    case draining
    from claim_from_draining [OF this assms(3,4)] obtain i s' where "wstep (Claim i) s = Some s'" by blast
    then have "wruns s ([] @ [Claim i]) s'" by simp
    then show ?thesis by (intro exI conjI) (assumption, simp_all)
  next
    case (processing i)
    let ?s1 = "set_loop i Draining s"
    have p: "wstep (Processed i) s = Some ?s1" using processing assms(4) by (simp add: wstep_def in_loop_def goes_on_def)
    have "Draining \<in> set (wk_loops ?s1)" using processing by (simp add: set_loop_def in_update)
    with claim_from_draining [of ?s1] assms(3,4) obtain k s' where "wstep (Claim k) ?s1 = Some s'"
      by (auto simp: set_loop_def)
    with p have "wruns s ([Processed i] @ [Claim k]) s'" by simp
    then show ?thesis by (intro exI conjI) (assumption, simp_all add: inner_def)
  next
    case waiting
    have ne: "wk_loops s \<noteq> []" using assms(1) by (simp add: loops_inv_def)
    show ?thesis
    proof (cases "0 < wk_buffer s")
      case True
      from wake_then_claim [OF waiting ne True assms(3,4)] obtain j s1 i s' where
        "wstep (Wake j) s = Some s1" "wstep (Claim i) s1 = Some s'" by blast
      then have "wruns s ([Wake j] @ [Claim i]) s'" by simp
      then show ?thesis by (intro exI conjI) (assumption, simp_all add: inner_def)
    next
      case False
      with assms(2) waiting have n: "0 < wk_notes s" by (auto simp: noticed_def)
      let ?s0 = "s\<lparr>wk_notes := wk_notes s - 1, wk_buffer := 1\<rparr>"
      have "wstep (Notified False) s = Some ?s0"
        using n False assms(1) by (simp add: step_defs loops_inv_def wakeBufferSize_def)
      moreover from wake_then_claim [of ?s0] waiting ne assms(3,4) obtain j s1 i s' where
        "wstep (Wake j) ?s0 = Some s1" "wstep (Claim i) s1 = Some s'" by auto
      ultimately have "wruns s ([Notified False, Wake j] @ [Claim i]) s'" by simp
      then show ?thesis by (intro exI conjI) (assumption, simp_all add: inner_def)
    qed
  qed
qed

text \<open>
  C18. No wake-up is lost: after any tick that comes while the listener has a session, and as long
  as that session lives and no job is retried, whatever jobs are inserted and however senders,
  full buffer and loops interleave: when a job is pending, a signal is on its way, and at most two
  steps (a notification, a wake, the end of a job) lead to a claim.
\<close>

theorem no_lost_wakeup:
  assumes "wruns (run_start concurrency backlog) (es1 @ [Tick q]) s1" "wk_listening s1" "\<not> wk_shutdown s1"
    and "wruns s1 es2 s" "Retried \<notin> set es2" "SessionDown \<notin> set es2" "0 < wk_pending s" "\<not> wk_shutdown s"
  shows "\<exists>es i s'. wruns s (es @ [Claim i]) s' \<and> length es \<le> 2 \<and>
    (\<forall>e \<in> set es. (\<exists>q. e = Notified q) \<or> (\<exists>j. e = Wake j) \<or> (\<exists>j. e = Processed j))"
proof -
  obtain s0 where s0: "wruns (run_start concurrency backlog) es1 s0" "wstep (Tick q) s0 = Some s1"
    using assms(1) by (auto simp: wruns_append)
  have "\<not> wk_shutdown s0" using s0(2) assms(3) by (auto simp: step_defs split: if_splits)
  with tick_noticed [OF s0(2)] assms(2) have "wake_inv s1" by (simp add: wake_inv_def)
  moreover have "\<forall>e \<in> set es2. \<not> silent e" using assms(5,6) by (auto simp: silent_def)
  ultimately have "wake_inv s" by (rule wake_inv_runs [OF assms(4)])
  with assms(7,8) have n: "noticed s" by (simp add: wake_inv_def)
  have "loops_inv s" by (rule loops_inv_runs [OF assms(4)]) (rule loops_inv_runs [OF assms(1) loops_inv_start])
  from noticed_claims [OF this n assms(7,8)] show ?thesis unfolding inner_iff .
qed

theorem no_lost_wakeup_witness:
  "\<exists>s es i s'. wruns (run_start 2 0) [SessionUp, Tick False, Wake 0, ClaimNone 0, Inserted, Inserted, Notified False] s \<and>
     wruns s (es @ [Claim i]) s' \<and> length es \<le> 2"
proof -
  let ?s1 = "\<lparr>wk_buffer = 1, wk_loops = [Waiting, Waiting], wk_pending = 0, wk_notes = 0, wk_listening = True, wk_shutdown = False\<rparr>"
  let ?s = "\<lparr>wk_buffer = 1, wk_loops = [Waiting, Waiting], wk_pending = 2, wk_notes = 1, wk_listening = True, wk_shutdown = False\<rparr>"
  have r1: "wruns (run_start 2 0) ([SessionUp] @ [Tick False]) ?s1"
    by (simp add: run_start_def worker_concurrency_def step_defs wakeBufferSize_def numeral_2_eq_2)
  have r2: "wruns ?s1 [Wake 0, ClaimNone 0, Inserted, Inserted, Notified False] ?s"
    by (simp add: step_defs wakeBufferSize_def)
  have "wruns (run_start 2 0) [SessionUp, Tick False, Wake 0, ClaimNone 0, Inserted, Inserted, Notified False] ?s"
    using r1 r2 wruns_append [of "run_start 2 0" "[SessionUp] @ [Tick False]"] by fastforce
  moreover have "\<exists>es i s'. wruns ?s (es @ [Claim i]) s' \<and> length es \<le> 2"
    using no_lost_wakeup [OF r1 _ _ r2] by simp blast
  ultimately show ?thesis by blast
qed

section \<open>Shutdown\<close>

definition loop_work :: "wloop \<Rightarrow> nat" where
  "loop_work l = (case l of Waiting \<Rightarrow> 2 | Draining \<Rightarrow> 1 | Processing \<Rightarrow> 1 | Finished \<Rightarrow> 0)"

text \<open>The events of the worker loops.\<close>

definition of_loop :: "wevent \<Rightarrow> bool" where
  "of_loop e \<longleftrightarrow> (case e of Wake i \<Rightarrow> True | Claim i \<Rightarrow> True | ClaimNone i \<Rightarrow> True | ClaimFails i \<Rightarrow> True
     | Processed i \<Rightarrow> True | Leave i \<Rightarrow> True | _ \<Rightarrow> False)"

definition work_left :: "wake_state \<Rightarrow> nat" where
  "work_left s = sum_list (map loop_work (wk_loops s))"

lemma sum_update:
  "i < length xs \<Longrightarrow> sum_list (map f (xs[i := x])) + f (xs ! i) = sum_list (map f xs) + (f x :: nat)"
proof (induction xs arbitrary: i)
  case (Cons a xs)
  then show ?case by (cases i) (auto simp: algebra_simps)
qed simp

lemma shutdown_step:
  assumes "wstep e s = Some s'" "wk_shutdown s"
  shows "wk_shutdown s' \<and> length (wk_loops s') = length (wk_loops s) \<and> (\<forall>i. e \<noteq> Claim i) \<and>
    (if of_loop e then work_left s' < work_left s else work_left s' = work_left s)"
proof -
  have u: "work_left (set_loop i l s) + loop_work (wk_loops s ! i) = work_left s + loop_work l"
    if "i < length (wk_loops s)" for i l and s :: wake_state
    using sum_update [OF that, of loop_work l] by (simp add: work_left_def set_loop_def)
  have b: "work_left (s\<lparr>wk_buffer := n\<rparr>) = work_left s" for n and s :: wake_state by (simp add: work_left_def)
  show ?thesis
  proof (cases "of_loop e")
    case True
    then obtain i l where il: "i < length (wk_loops s)" "loop_work l < loop_work (wk_loops s ! i)"
      "s' = set_loop i l s \<or> (\<exists>n. s' = set_loop i l (s\<lparr>wk_buffer := n\<rparr>))" "\<forall>i. e \<noteq> Claim i"
      using assms by (cases e) (force simp: of_loop_def wstep_def in_loop_def goes_on_def loop_work_def split: if_splits)+
    have "work_left s' + loop_work (wk_loops s ! i) = work_left s + loop_work l"
      using il(3) u [OF il(1)] u [of i "s\<lparr>wk_buffer := n\<rparr>" l for n] il(1) by (auto simp: b)
    with il assms(2) True show ?thesis by (auto simp: set_loop_def)
  next
    case False
    with assms show ?thesis
      by (cases e) (auto simp: of_loop_def step_defs work_left_def split: if_splits)
  qed
qed

lemma shutdown_runs:
  "wruns s es s' \<Longrightarrow> wk_shutdown s \<Longrightarrow> wk_shutdown s' \<and> (\<forall>i. Claim i \<notin> set es) \<and>
     length (filter of_loop es) + work_left s' \<le> work_left s"
proof (induction rule: wruns.induct)
  case (wruns_Cons e s s1 es s2)
  with shutdown_step [OF wruns_Cons.hyps(1)] show ?case by (auto split: if_splits)
qed simp

lemma work_bound: "work_left s \<le> 2 * length (wk_loops s)"
proof -
  have "sum_list (map loop_work ls) \<le> 2 * length ls" for ls
    by (induction ls) (auto simp: loop_work_def split: wloop.splits)
  then show ?thesis by (simp add: work_left_def)
qed

lemma work_finished: "work_left s = 0 \<longleftrightarrow> set (wk_loops s) \<subseteq> {Finished}"
proof -
  have "sum_list (map loop_work ls) = 0 \<longleftrightarrow> set ls \<subseteq> {Finished}" for ls
    by (induction ls) (auto simp: loop_work_def split: wloop.splits)
  then show ?thesis by (simp add: work_left_def)
qed

lemma loops_can_step:
  assumes "l \<in> set (wk_loops s)" "l \<noteq> Finished" "wk_shutdown s"
  shows "\<exists>e s'. of_loop e \<and> wstep e s = Some s'"
proof -
  obtain i where i: "in_loop i l s" using assms(1) by (auto simp: in_loop_def in_set_conv_nth)
  let ?e = "case l of Waiting \<Rightarrow> Leave i | Draining \<Rightarrow> ClaimFails i | _ \<Rightarrow> Processed i"
  have "of_loop ?e \<and> (\<exists>s'. wstep ?e s = Some s')"
    using i assms(2,3) by (cases l) (simp_all add: of_loop_def wstep_def)
  then show ?thesis by blast
qed

text \<open>
  Shutdown stops the worker: once \<open>ctx\<close> is done no job is claimed any more, the loops take at
  most two further steps each, whatever arrives meanwhile, and as long as some loop has not
  returned it can take a step; so all loops return when their jobs in flight end.
\<close>

theorem shutdown_stops:
  assumes "wruns s es s'" "wk_shutdown s"
  shows "(\<forall>i. Claim i \<notin> set es) \<and> length (filter of_loop es) \<le> 2 * length (wk_loops s) \<and>
    ((\<forall>l \<in> set (wk_loops s'). l = Finished) \<or> (\<exists>e s''. of_loop e \<and> wstep e s' = Some s''))"
proof -
  note r = shutdown_runs [OF assms]
  then have "\<exists>e s''. of_loop e \<and> wstep e s' = Some s''" if "l \<in> set (wk_loops s')" "l \<noteq> Finished" for l
    using loops_can_step [OF that] by blast
  with r work_bound [of s] show ?thesis by (meson le_trans le_add1)
qed

theorem shutdown_stops_witness:
  "wruns (run_start 2 5) [Tick False, Wake 1, Claim 1, Shutdown] \<lparr>wk_buffer = 0, wk_loops = [Waiting, Processing],
      wk_pending = 4, wk_notes = 0, wk_listening = False, wk_shutdown = True\<rparr> \<and>
   length (filter of_loop [Processed 1, Leave 0]) \<le> 2 * 2"
proof -
  let ?s = "\<lparr>wk_buffer = 0, wk_loops = [Waiting, Processing], wk_pending = 4, wk_notes = 0, wk_listening = False, wk_shutdown = True\<rparr>"
  let ?t = "?s\<lparr>wk_loops := [Finished, Finished]\<rparr>"
  have "wruns (run_start 2 5) [Tick False, Wake 1, Claim 1, Shutdown] ?s"
    by (simp add: run_start_def worker_concurrency_def step_defs wakeBufferSize_def numeral_2_eq_2)
  moreover have "wruns ?s [Processed 1, Leave 0] ?t" by (simp add: step_defs)
  from shutdown_stops [OF this] have "length (filter of_loop [Processed 1, Leave 0]) \<le> 2 * 2" by simp
  ultimately show ?thesis by blast
qed

end
