(* ===== verification/Shutdown.thy ===== *)
theory Shutdown
  imports WakeLoop
begin

text \<open>
  \<open>Worker.Run\<close> of \<open>worker/worker.go\<close> as a whole: the worker loops of \<open>WakeLoop\<close>, the three other
  goroutines (retention, listener, ticker), the wait group, the clock, and the main goroutine that
  blocks until shutdown, gives jobs in flight \<open>shutdownGrace\<close>, then cancels their context and
  waits. What a cancelled context does to a job is in \<open>Worker\<close> and \<open>Orphan\<close>.
\<close>

section \<open>State and steps\<close>

definition shutdownGrace :: duration where "shutdownGrace = 30 * second"

text \<open>
  The main goroutine waits for \<open>ctx.Done()\<close>, for the wait group or the timer started at the given
  time, for the wait group alone, or has returned.
\<close>

datatype main_phase = Serving | Grace time | Forced | Returned

text \<open>\<open>rn_others\<close>: how many of the other goroutines have not returned; \<open>rn_cancelled\<close>: \<open>jobCancel\<close> was called.\<close>

record run_state =
  rn_wake :: wake_state
  rn_others :: nat
  rn_main :: main_phase
  rn_clock :: time
  rn_cancelled :: bool

datatype revent = Loop wevent | OtherEnds | Elapse duration | CtxDone | AllDone | GraceOver

text \<open>\<open>wg.Wait()\<close>\<close>

definition all_done :: "run_state \<Rightarrow> bool" where
  "all_done r \<longleftrightarrow> rn_others r = 0 \<and> list_all (\<lambda>l. l = Finished) (wk_loops (rn_wake r))"

text \<open>The events of the listener and the ticker need their goroutine.\<close>

definition of_others :: "wevent \<Rightarrow> bool" where
  "of_others e \<longleftrightarrow> (case e of SessionUp \<Rightarrow> True | SessionDown \<Rightarrow> True | Notified q \<Rightarrow> True | Tick q \<Rightarrow> True | _ \<Rightarrow> False)"

fun run_step :: "revent \<Rightarrow> run_state \<Rightarrow> run_state option" where
  "run_step (Loop e) r =
     (if of_others e \<and> rn_others r = 0 then None
      else map_option (\<lambda>s. r\<lparr>rn_wake := s\<rparr>) (wstep e (rn_wake r)))"
| "run_step OtherEnds r =
     (if 0 < rn_others r \<and> wk_shutdown (rn_wake r) then Some (r\<lparr>rn_others := rn_others r - 1\<rparr>) else None)"
| "run_step (Elapse d) r = (if 0 \<le> d then Some (r\<lparr>rn_clock := rn_clock r + d\<rparr>) else None)"
| "run_step CtxDone r =
     (if rn_main r = Serving \<and> wk_shutdown (rn_wake r) then Some (r\<lparr>rn_main := Grace (rn_clock r)\<rparr>) else None)"
| "run_step AllDone r =
     (if all_done r \<and> (rn_main r = Forced \<or> (\<exists>t. rn_main r = Grace t)) then Some (r\<lparr>rn_main := Returned\<rparr>) else None)"
| "run_step GraceOver r =
     (case rn_main r of
        Grace t \<Rightarrow> (if t + shutdownGrace \<le> rn_clock r then Some (r\<lparr>rn_main := Forced, rn_cancelled := True\<rparr>) else None)
      | _ \<Rightarrow> None)"

definition Run_start :: "int \<Rightarrow> nat \<Rightarrow> time \<Rightarrow> run_state" where
  "Run_start concurrency backlog now = \<lparr>rn_wake = run_start concurrency backlog, rn_others = 3, rn_main = Serving,
     rn_clock = now, rn_cancelled = False\<rparr>"

inductive run_steps :: "run_state \<Rightarrow> revent list \<Rightarrow> run_state \<Rightarrow> bool" where
  run_Nil: "run_steps r [] r"
| run_Cons: "run_step e r = Some r1 \<Longrightarrow> run_steps r1 es r2 \<Longrightarrow> run_steps r (e # es) r2"

inductive_simps run_steps_simps [simp]: "run_steps r [] r'" "run_steps r (e # es) r'"

section \<open>Invariants\<close>

definition run_inv :: "run_state \<Rightarrow> bool" where
  "run_inv r \<longleftrightarrow> (rn_main r \<noteq> Serving \<longrightarrow> wk_shutdown (rn_wake r)) \<and>
     (rn_main r = Returned \<longrightarrow> all_done r) \<and> ((\<exists>t. rn_main r = Grace t) \<or> rn_main r = Serving \<longrightarrow> \<not> rn_cancelled r)"

lemma others_step: "run_step e r = Some r' \<Longrightarrow> rn_others r' \<le> rn_others r"
  by (cases e) (auto split: if_splits main_phase.splits)

lemma others_bound: "run_steps r es r' \<Longrightarrow> rn_others r' \<le> rn_others r"
  by (induction rule: run_steps.induct) (auto dest: others_step intro: order_trans)

text \<open>The time that the events of a run let pass.\<close>

fun elapsed :: "revent list \<Rightarrow> duration" where
  "elapsed [] = 0"
| "elapsed (Elapse d # es) = d + elapsed es"
| "elapsed (_ # es) = elapsed es"

lemma wstep_shutdown: "wstep e s = Some s' \<Longrightarrow> wk_shutdown s \<Longrightarrow> wk_shutdown s'"
  using shutdown_step by blast

lemma finished_stay:
  assumes "wstep e s = Some s'" "list_all (\<lambda>l. l = Finished) (wk_loops s)"
  shows "list_all (\<lambda>l. l = Finished) (wk_loops s')"
  using assms by (cases e) (auto simp: step_defs list_all_length split: if_splits)

lemma run_inv_step:
  assumes "run_step e r = Some r'" "run_inv r"
  shows "run_inv r'"
proof (cases e)
  case (Loop ev)
  with assms show ?thesis
    by (auto simp: run_inv_def all_done_def dest: wstep_shutdown finished_stay split: if_splits)
next
  case GraceOver
  with assms show ?thesis by (auto simp: run_inv_def split: main_phase.splits if_splits)
qed (use assms in \<open>auto simp: run_inv_def all_done_def split: if_splits\<close>)

lemma run_inv_start: "run_inv (Run_start c n now)"
  by (simp add: run_inv_def Run_start_def)

lemma run_inv_steps: "run_steps r es r' \<Longrightarrow> run_inv r \<Longrightarrow> run_inv r'"
  by (induction rule: run_steps.induct) (auto intro: run_inv_step)

text \<open>The grace period, measured by the clock.\<close>

definition grace_inv :: "time \<Rightarrow> run_state \<Rightarrow> bool" where
  "grace_inv t0 r \<longleftrightarrow> (rn_cancelled r \<longrightarrow> t0 + shutdownGrace \<le> rn_clock r) \<and>
     (\<forall>t. rn_main r = Grace t \<longrightarrow> t0 \<le> t) \<and> t0 \<le> rn_clock r"

lemma grace_inv_step:
  assumes "run_step e r = Some r'" "grace_inv t0 r"
  shows "grace_inv t0 r'"
  using assms by (cases e) (auto simp: grace_inv_def split: if_splits main_phase.splits)

lemma grace_inv_steps: "run_steps r es r' \<Longrightarrow> grace_inv t0 r \<Longrightarrow> grace_inv t0 r'"
  by (induction rule: run_steps.induct) (auto intro: grace_inv_step)

lemma clock_steps: "run_steps r es r' \<Longrightarrow> rn_clock r' = rn_clock r + elapsed es"
proof (induction rule: run_steps.induct)
  case (run_Cons e r r1 es r2)
  have "rn_clock r1 + elapsed es = rn_clock r + elapsed (e # es)"
    using run_Cons(1) by (cases e) (auto split: if_splits main_phase.splits)
  with run_Cons(3) show ?case by simp
qed simp

section \<open>Progress\<close>

definition phase_left :: "main_phase \<Rightarrow> nat" where
  "phase_left p = (case p of Serving \<Rightarrow> 3 | Grace t \<Rightarrow> 2 | Forced \<Rightarrow> 1 | Returned \<Rightarrow> 0)"

definition run_left :: "run_state \<Rightarrow> nat" where
  "run_left r = work_left (rn_wake r) + rn_others r + phase_left (rn_main r)"

text \<open>The steps of the program on its way to the end of \<open>Run\<close>.\<close>

fun ending :: "revent \<Rightarrow> bool" where
  "ending (Loop e) = of_loop e"
| "ending (Elapse d) = False"
| "ending _ = True"

lemma ending_step:
  assumes "run_step e r = Some r'" "wk_shutdown (rn_wake r)"
  shows "wk_shutdown (rn_wake r') \<and> length (wk_loops (rn_wake r')) = length (wk_loops (rn_wake r)) \<and> (\<forall>i. e \<noteq> Loop (Claim i)) \<and>
    (if ending e then run_left r' < run_left r else run_left r' = run_left r)"
proof (cases e)
  case (Loop ev)
  with assms obtain s where s: "wstep ev (rn_wake r) = Some s" "r' = r\<lparr>rn_wake := s\<rparr>" by (auto split: if_splits)
  from shutdown_step [OF s(1) assms(2)] s(2) Loop show ?thesis by (auto simp: run_left_def split: if_splits)
qed (use assms in \<open>auto simp: run_left_def phase_left_def split: if_splits main_phase.splits\<close>)

lemma ending_steps:
  "run_steps r es r' \<Longrightarrow> wk_shutdown (rn_wake r) \<Longrightarrow> wk_shutdown (rn_wake r') \<and> (\<forall>i. Loop (Claim i) \<notin> set es) \<and>
     length (filter ending es) + run_left r' \<le> run_left r"
proof (induction rule: run_steps.induct)
  case (run_Cons e r r1 es r2)
  with ending_step [OF run_Cons.hyps(1)] show ?case by (auto split: if_splits)
qed simp

lemma not_returned_steps:
  assumes "run_inv r" "wk_shutdown (rn_wake r)" "rn_main r \<noteq> Returned"
  shows "\<exists>e r'. ending e \<and> run_step e r = Some r'"
proof (cases "all_done r")
  case True
  then show ?thesis using assms(2,3)
    by (cases "rn_main r") (auto intro: exI [of _ CtxDone] exI [of _ AllDone])
next
  case False
  show ?thesis
  proof (cases "rn_others r = 0")
    case True
    with False obtain l where "l \<in> set (wk_loops (rn_wake r))" "l \<noteq> Finished" by (auto simp: all_done_def list_all_iff)
    then obtain e s where e: "of_loop e" "wstep e (rn_wake r) = Some s"
      using loops_can_step [OF _ _ assms(2)] by blast
    moreover have "\<not> of_others e" using e(1) by (cases e) (simp_all add: of_loop_def of_others_def)
    ultimately show ?thesis by (intro exI [of _ "Loop e"]) auto
  next
    case False
    then show ?thesis using assms(2) by (intro exI [of _ OtherEnds]) simp
  qed
qed

text \<open>
  C21. \<open>Run\<close> shuts down gracefully. Whatever the goroutines, the clients and the clock do before and
  after shutdown: \<open>Run\<close> returns only when every goroutine has returned; the context of the jobs is
  cancelled only after shutdown and thirty seconds of grace; from shutdown on nothing is claimed, the
  program takes at most two steps per loop and six more, and until \<open>Run\<close> has returned it always has
  a step to take.
\<close>

theorem run_shuts_down:
  assumes "run_steps (Run_start concurrency backlog now) es1 r1" "run_steps r1 (Loop Shutdown # es2) r"
    "\<not> wk_shutdown (rn_wake r1)"
  shows "(rn_main r = Returned \<longrightarrow> all_done r) \<and> (rn_cancelled r \<longrightarrow> shutdownGrace \<le> elapsed es2) \<and>
    (\<forall>i. Loop (Claim i) \<notin> set es2) \<and> length (filter ending es2) \<le> 2 * length (wk_loops (rn_wake r1)) + 6 \<and>
    (rn_main r \<noteq> Returned \<longrightarrow> (\<exists>e r'. ending e \<and> run_step e r = Some r'))"
proof -
  obtain r2 where r2: "run_step (Loop Shutdown) r1 = Some r2" "run_steps r2 es2 r" using assms(2) by auto
  have i1: "run_inv r1" by (rule run_inv_steps [OF assms(1) run_inv_start])
  then have i2: "run_inv r2" by (rule run_inv_step [OF r2(1)])
  then have i: "run_inv r" by (rule run_inv_steps [OF r2(2)])
  have m: "rn_main r1 = Serving" using i1 assms(3) by (auto simp: run_inv_def)
  have s2: "r2 = r1\<lparr>rn_wake := (rn_wake r1)\<lparr>wk_shutdown := True\<rparr>\<rparr>" using r2(1) by (auto simp: of_others_def wstep_def split: if_splits)
  then have sh: "wk_shutdown (rn_wake r2)" by simp
  have "grace_inv (rn_clock r2) r2" using i1 m s2 by (simp add: grace_inv_def run_inv_def)
  then have "grace_inv (rn_clock r2) r" by (rule grace_inv_steps [OF r2(2)])
  with clock_steps [OF r2(2)] have g: "rn_cancelled r \<longrightarrow> shutdownGrace \<le> elapsed es2" by (simp add: grace_inv_def)
  have "rn_others r1 \<le> 3" using others_bound [OF assms(1)] by (simp add: Run_start_def)
  then have "run_left r2 \<le> 2 * length (wk_loops (rn_wake r1)) + 6"
    using work_bound [of "rn_wake r2"] s2 m by (simp add: run_left_def phase_left_def)
  with ending_steps [OF r2(2) sh] not_returned_steps [OF i] i g show ?thesis by (auto simp: run_inv_def)
qed

text \<open>A job in flight outlives the grace period.\<close>

theorem run_shuts_down_witness:
  "\<exists>r1 r. run_steps (Run_start 2 5 0) [Loop (Tick False), Loop (Wake 1), Loop (Claim 1)] r1 \<and>
    run_steps r1 (Loop Shutdown # [CtxDone, OtherEnds, OtherEnds, OtherEnds, Loop (Leave 0), Elapse (31 * second), GraceOver,
      Loop (Processed 1), AllDone]) r \<and>
    rn_main r = Returned \<and> rn_cancelled r \<and> all_done r"
proof -
  let ?w = "\<lparr>wk_buffer = 0, wk_loops = [Waiting, Processing], wk_pending = 4, wk_notes = 0, wk_listening = False, wk_shutdown = False\<rparr>"
  let ?r1 = "\<lparr>rn_wake = ?w, rn_others = 3, rn_main = Serving, rn_clock = 0, rn_cancelled = False\<rparr>"
  let ?es = "[CtxDone, OtherEnds, OtherEnds, OtherEnds, Loop (Leave 0), Elapse (31 * second), GraceOver, Loop (Processed 1), AllDone]"
  let ?r = "\<lparr>rn_wake = ?w\<lparr>wk_loops := [Finished, Finished], wk_shutdown := True\<rparr>, rn_others = 0, rn_main = Returned,
    rn_clock = 31 * second, rn_cancelled = True\<rparr>"
  have a: "run_steps (Run_start 2 5 0) [Loop (Tick False), Loop (Wake 1), Loop (Claim 1)] ?r1"
    by (simp add: Run_start_def run_start_def worker_concurrency_def step_defs of_others_def wakeBufferSize_def numeral_2_eq_2)
  have b: "run_steps ?r1 (Loop Shutdown # ?es) ?r"
    by (simp add: step_defs of_others_def second_def shutdownGrace_def all_done_def)
  from run_shuts_down [OF a b] have "all_done ?r" by simp
  with a b show ?thesis by (intro exI [of _ ?r1] exI [of _ ?r]) simp
qed

end
