(* ===== verification/Middleware.thy ===== *)
theory Middleware
  imports ApiFrame
begin

text \<open>
  The middleware chain of \<open>httpapi/router.go\<close> as the program runs it: functions of the request
  context and of the pending handlers (\<open>c.Next\<close>), with panics, the request log and the headers of
  the reply. \<open>Http.serve\<close> is the same composition without those; here it is shown that the chain
  refines it. Of gin the model uses that handlers run in the order they are registered, that \<open>Next\<close>
  runs the pending ones inside the calling one, and that the first response written counts. The
  CORS package is a parameter: a function of its configuration and of the request that either
  answers or lets pass, adding headers.
\<close>

section \<open>Request context\<close>

datatype go_panic = Panic (panic_value: string) (panic_stack: string)

record gin_context =
  gc_method :: string
  gc_path :: string
  gc_key_header :: string
  gc_ip :: string
  gc_keys :: "string \<rightharpoonup> string"
  gc_headers :: "(string \<times> string) list"
  gc_writes :: "reply list"
  gc_aborted :: bool

datatype log_line =
    HttpRequest (lg_method: string) (lg_path: string) (lg_status: int) (lg_millis: int) (lg_id: string)
  | PanicRecovered (lg_value: string) (lg_stack: string) (lg_id: string)

record app_world = api_world +
  gw_log :: "log_line list"

type_synonym 'z gin = "gin_context \<Rightarrow> 'z app_world_scheme \<Rightarrow> go_panic option \<times> gin_context \<times> 'z app_world_scheme"

definition ctxTenantID :: string where "ctxTenantID = ''req_tenant_id''"
definition ctxAPIKeyID :: string where "ctxAPIKeyID = ''req_api_key_id''"
definition ctxScope :: string where "ctxScope = ''req_scope''"
definition ctxRequestID :: string where "ctxRequestID = ''req_request_id''"

lemmas ctx_keys = ctxTenantID_def ctxAPIKeyID_def ctxScope_def ctxRequestID_def

text \<open>\<open>c.Set\<close>, and \<open>c.Get\<close> with the empty string for a missing value.\<close>

definition ctx_set :: "string \<Rightarrow> string \<Rightarrow> gin_context \<Rightarrow> gin_context" where
  "ctx_set k v c = c\<lparr>gc_keys := (gc_keys c)(k \<mapsto> v)\<rparr>"

definition ctx_get :: "string \<Rightarrow> gin_context \<Rightarrow> string" where
  "ctx_get k c = (case gc_keys c k of Some v \<Rightarrow> v | None \<Rightarrow> [])"

definition TenantID :: "gin_context \<Rightarrow> string" where "TenantID = ctx_get ctxTenantID"
definition APIKeyID :: "gin_context \<Rightarrow> string" where "APIKeyID = ctx_get ctxAPIKeyID"
definition Scope :: "gin_context \<Rightarrow> string" where "Scope = ctx_get ctxScope"
definition RequestID :: "gin_context \<Rightarrow> string" where "RequestID = ctx_get ctxRequestID"

definition setTenantID :: "string \<Rightarrow> gin_context \<Rightarrow> gin_context" where "setTenantID = ctx_set ctxTenantID"
definition setAPIKeyID :: "string \<Rightarrow> gin_context \<Rightarrow> gin_context" where "setAPIKeyID = ctx_set ctxAPIKeyID"
definition setScope :: "string \<Rightarrow> gin_context \<Rightarrow> gin_context" where "setScope = ctx_set ctxScope"
definition setRequestID :: "string \<Rightarrow> gin_context \<Rightarrow> gin_context" where "setRequestID = ctx_set ctxRequestID"

text \<open>What the handlers read: the identity the authenticator stored.\<close>

definition identity_of :: "gin_context \<Rightarrow> identity" where
  "identity_of c = \<lparr>id_tenant = TenantID c, id_key = APIKeyID c, id_scope = Scope c\<rparr>"

definition Abort :: "gin_context \<Rightarrow> gin_context" where "Abort c = c\<lparr>gc_aborted := True\<rparr>"

text \<open>\<open>AbortWithStatusJSON\<close> and \<open>c.JSON\<close>: the writes in order, the first of which sets the status.\<close>

definition write_json :: "reply \<Rightarrow> gin_context \<Rightarrow> gin_context" where
  "write_json r c = c\<lparr>gc_writes := gc_writes c @ [r]\<rparr>"

definition write_error :: "go_error \<Rightarrow> gin_context \<Rightarrow> gin_context" where
  "write_error e c = Abort (write_json (writeError e) c)"

definition status_of :: "gin_context \<Rightarrow> int" where
  "status_of c = (case gc_writes c of [] \<Rightarrow> 200 | r # _ \<Rightarrow> rp_status r)"

section \<open>Middlewares\<close>

text \<open>\<open>authenticate\<close>: the context with the identity, or the context with the error written.\<close>

definition authenticate_ctx :: "environ \<Rightarrow> 'z app_world_ext api_world_ext handler \<Rightarrow> gin_context
    \<Rightarrow> 'z app_world_scheme \<Rightarrow> bool \<times> gin_context \<times> 'z app_world_scheme" where
  "authenticate_ctx E H c w =
     (let plain = gc_key_header c
      in if plain = [] then (False, write_error (Api ErrUnauthorized) c, w)
         else (case GetByHash E (h_sha256_hex H plain) w of
             (Inl e, w1) \<Rightarrow> (False, write_error (Api ErrUnauthorized) c, w1)
           | (Inr key, w1) \<Rightarrow>
               (if k_revoked key \<noteq> None then (False, write_error (Api ErrUnauthorized) c, w1)
                else (True, setScope (k_scope key) (setAPIKeyID (k_id key) (setTenantID (k_tenant key) c)),
                  snd (TouchLastUsed E (k_id key) w1)))))"

definition RequireKey :: "environ \<Rightarrow> 'z app_world_ext api_world_ext handler \<Rightarrow> 'z gin \<Rightarrow> 'z gin" where
  "RequireKey E H next1 c w =
     (case authenticate_ctx E H c w of
        (ok, c1, w1) \<Rightarrow> if ok then next1 c1 w1 else (None, Abort c1, w1))"

definition RequireScope_mw :: "string \<Rightarrow> 'z gin \<Rightarrow> 'z gin" where
  "RequireScope_mw scope next1 c w =
     (if Scope c \<noteq> scope then (None, Abort (write_error (Api ErrForbidden) c), w) else next1 c w)"

text \<open>\<open>Limit\<close>, over the verdict of the group's bucket for the key the key function gives.\<close>

definition Limit :: "(identity \<Rightarrow> string \<Rightarrow> (go_error, 'z app_world_scheme, unit) io) \<Rightarrow> 'z gin \<Rightarrow> 'z gin" where
  "Limit bucket next1 c w =
     (case bucket (identity_of c) (gc_ip c) w of
        (Inl _, w1) \<Rightarrow> (None, Abort (write_error (Api ErrRateLimited) c), w1)
      | (Inr _, w1) \<Rightarrow> next1 c w1)"

text \<open>\<open>Log\<close>: a panic of the pending handlers passes through, and nothing is logged then.\<close>

definition Log :: "environ \<Rightarrow> 'z gin \<Rightarrow> 'z gin" where
  "Log E next1 c w =
     (let start = e_time E (w_tick w); w0 = w\<lparr>w_tick := w_tick w + 1\<rparr>;
          (c1, w1) = (if RequestID c = [] then (setRequestID (e_uuid E (w_tick w0)) c, w0\<lparr>w_tick := w_tick w0 + 1\<rparr>)
                      else (c, w0));
          requestID = RequestID c1
      in case next1 (c1\<lparr>gc_headers := gc_headers c1 @ [(''X-Request-ID'', requestID)]\<rparr>) w1 of
           (Some p, c2, w2) \<Rightarrow> (Some p, c2, w2)
         | (None, c2, w2) \<Rightarrow>
             (None, c2, w2\<lparr>w_tick := w_tick w2 + 1, gw_log := gw_log w2 @ [HttpRequest (gc_method c2) (gc_path c2)
                (status_of c2) (quot_go (e_time E (w_tick w2) - start) 1000000) requestID]\<rparr>))"

definition Recover :: "'z gin \<Rightarrow> 'z gin" where
  "Recover next1 c w =
     (case next1 c w of
        (None, c1, w1) \<Rightarrow> (None, c1, w1)
      | (Some p, c1, w1) \<Rightarrow> (None, Abort (write_error (Api ErrInternal) c1),
          w1\<lparr>gw_log := gw_log w1 @ [PanicRecovered (panic_value p) (panic_stack p) (RequestID c1)]\<rparr>))"

record cors_config =
  AllowOrigins :: "string list"
  AllowMethods :: "string list"
  AllowHeaders :: "string list"
  ExposeHeaders :: "string list"
  MaxAge :: duration

definition newCORS :: cors_config where
  "newCORS = \<lparr>AllowOrigins = [''https://binery.my.id'', ''http://localhost:5173''],
     AllowMethods = [''GET'', ''POST'', ''DELETE'', ''PUT'', ''OPTIONS''],
     AllowHeaders = [''Origin'', ''Content-Type'', ''Accept'', ''X-API-Key''],
     ExposeHeaders = [''Content-Length''], MaxAge = 12 * hour\<rparr>"

type_synonym cors_package = "cors_config \<Rightarrow> gin_context \<Rightarrow> reply + (string \<times> string) list"

definition cors_mw :: "cors_package \<Rightarrow> 'z gin \<Rightarrow> 'z gin" where
  "cors_mw cors next1 c w =
     (case cors newCORS c of
        Inl r \<Rightarrow> (None, Abort (write_json r c), w)
      | Inr hs \<Rightarrow> next1 (c\<lparr>gc_headers := gc_headers c @ hs\<rparr>) w)"

section \<open>Router\<close>

text \<open>The handler functions of a route: an error is written, a reply is sent.\<close>

definition endpoint :: "environ \<Rightarrow> 'z app_world_ext api_world_ext handler \<Rightarrow> api_request \<Rightarrow> 'z gin" where
  "endpoint E H req c w =
     (case dispatch E H (identity_of c) req w of
        (Inl e, w1) \<Rightarrow> (None, write_error e c, w1)
      | (Inr r, w1) \<Rightarrow> (None, write_json r c, w1))"

definition group_chain :: "rounding \<Rightarrow> environ \<Rightarrow> 'z app_world_ext api_world_ext handler \<Rightarrow> api_request
    \<Rightarrow> 'z gin \<Rightarrow> 'z gin" where
  "group_chain rnd E H req h =
     (case route_scope (ar_route req) of
        None \<Rightarrow> h
      | Some scope \<Rightarrow> RequireKey E H (RequireScope_mw scope
          (Limit (if scope = ''admin'' then limit_admin rnd E else limit_query rnd E) h)))"

text \<open>\<open>NewRouter\<close> on a request, for any handler function \<open>h\<close> of its route.\<close>

definition NewRouter :: "cors_package \<Rightarrow> rounding \<Rightarrow> environ \<Rightarrow> 'z app_world_ext api_world_ext handler
    \<Rightarrow> api_request \<Rightarrow> 'z gin \<Rightarrow> 'z gin" where
  "NewRouter cors rnd E H req h = cors_mw cors (Recover (Log E (group_chain rnd E H req h)))"

definition new_context :: "string \<Rightarrow> string \<Rightarrow> api_request \<Rightarrow> gin_context" where
  "new_context m path req = \<lparr>gc_method = m, gc_path = path, gc_key_header = ar_key req, gc_ip = ar_ip req,
     gc_keys = Map.empty, gc_headers = [], gc_writes = [], gc_aborted = False\<rparr>"

section \<open>The chain refines the composition of \<open>Http\<close>\<close>

lemma ctx_simps [simp]:
  "ctx_get k (ctx_set k' v c) = (if k = k' then v else ctx_get k c)"
  "ctx_get k (c\<lparr>gc_headers := hs\<rparr>) = ctx_get k c" "ctx_get k (write_json r c) = ctx_get k c"
  "ctx_get k (Abort c) = ctx_get k c"
  "gc_writes (ctx_set k v c) = gc_writes c" "gc_headers (ctx_set k v c) = gc_headers c"
  "gc_method (ctx_set k v c) = gc_method c" "gc_path (ctx_set k v c) = gc_path c"
  "gc_key_header (ctx_set k v c) = gc_key_header c" "gc_ip (ctx_set k v c) = gc_ip c"
  "gc_writes (Abort c) = gc_writes c" "gc_headers (Abort c) = gc_headers c"
  "gc_method (Abort c) = gc_method c" "gc_path (Abort c) = gc_path c"
  "gc_writes (write_json r c) = gc_writes c @ [r]" "gc_headers (write_json r c) = gc_headers c"
  "gc_method (write_json r c) = gc_method c" "gc_path (write_json r c) = gc_path c"
  by (simp_all add: ctx_get_def ctx_set_def write_json_def Abort_def)

lemma identity_set [simp]:
  "identity_of (setScope s (setAPIKeyID k (setTenantID t c))) = \<lparr>id_tenant = t, id_key = k, id_scope = s\<rparr>"
  "Scope (setScope s c) = s" "RequestID (setScope s c) = RequestID c"
  "RequestID (setAPIKeyID k c) = RequestID c" "RequestID (setTenantID t c) = RequestID c"
  "identity_of (c\<lparr>gc_headers := hs\<rparr>) = identity_of c" "identity_of (setRequestID r c) = identity_of c"
  "gc_ip (setScope s c) = gc_ip c" "gc_ip (setAPIKeyID s c) = gc_ip c" "gc_ip (setTenantID s c) = gc_ip c"
  "RequestID (setRequestID r c) = r" "RequestID (c\<lparr>gc_headers := hs\<rparr>) = RequestID c"
  by (simp_all add: identity_of_def TenantID_def APIKeyID_def Scope_def RequestID_def setScope_def
      setAPIKeyID_def setTenantID_def setRequestID_def ctx_keys)

text \<open>\<open>answers c r x w'\<close>: without panic the chain wrote the single reply \<open>r\<close>, beside the context \<open>c\<close>.\<close>

definition answers :: "gin_context \<Rightarrow> reply \<Rightarrow> 'w \<Rightarrow> go_panic option \<times> gin_context \<times> 'w \<Rightarrow> bool" where
  "answers c r w' x \<longleftrightarrow> (\<exists>c'. x = (None, c', w') \<and> gc_writes c' = gc_writes c @ [r] \<and> gc_headers c' = gc_headers c \<and>
     gc_method c' = gc_method c \<and> gc_path c' = gc_path c)"

lemma answers_abort [simp]:
  "answers c r w' (None, Abort (write_json r c), w')" "answers c (writeError e) w' (None, write_error e c, w')"
  "answers c (writeError e) w' (None, Abort (write_error e c), w')" "answers c r w' (None, write_json r c, w')"
  by (simp_all add: answers_def write_error_def)

lemma endpoint_answers:
  "answers c (fst (respond (dispatch E H (identity_of c) req) w)) (snd (respond (dispatch E H (identity_of c) req) w))
     (endpoint E H req c w)"
  by (auto simp: endpoint_def respond_def split: prod.split sum.split)

lemma answers_set: "answers (setScope s (setAPIKeyID k (setTenantID t c))) r w' x = answers c r w' x"
  by (simp add: answers_def setScope_def setAPIKeyID_def setTenantID_def)

lemma limit_error:
  "limit_admin rnd E i ip w = (Inl e, w1) \<Longrightarrow> e = Api ErrRateLimited"
  "limit_query rnd E i ip w = (Inl e, w1) \<Longrightarrow> e = Api ErrRateLimited"
  by (auto simp: limit_admin_def limit_query_def split: prod.splits if_splits)

lemma group_serves:
  fixes w :: "'z app_world_scheme"
  assumes "identity_of c = \<lparr>id_tenant = [], id_key = [], id_scope = []\<rparr>" "gc_key_header c = ar_key req" "gc_ip c = ar_ip req"
  shows "answers c (fst (serve rnd E H req w)) (snd (serve rnd E H req w)) (group_chain rnd E H req (endpoint E H req) c w)"
proof (cases "route_scope (ar_route req)")
  case None
  with endpoint_answers [of c E H req w] assms(1) show ?thesis
    by (simp add: group_chain_def serve_def guarded_route_def)
next
  case (Some scope)
  note s = serve_def guarded_route_def group_chain_def respond_def Some RequireKey_def authenticate_ctx_def assms(2)
  show ?thesis
  proof (cases "ar_key req = []")
    case True
    then show ?thesis by (simp add: s authenticate_def fail_def andthen_def)
  next
    case False
    obtain x w1 where g: "GetByHash E (h_sha256_hex H (ar_key req)) w = (x, w1)" by fastforce
    show ?thesis
    proof (cases "\<exists>key. x = Inr key \<and> k_revoked key = None")
      case False
      with g \<open>ar_key req \<noteq> []\<close> show ?thesis
        by (cases x) (auto simp: s authenticate_def fail_def andthen_def map_err_def)
    next
      case True
      then obtain key where key: "x = Inr key" "k_revoked key = None" by blast
      let ?c = "setScope (k_scope key) (setAPIKeyID (k_id key) (setTenantID (k_tenant key) c))"
      let ?i = "\<lparr>id_tenant = k_tenant key, id_key = k_id key, id_scope = k_scope key\<rparr>"
      let ?lim = "if scope = ''admin'' then limit_admin rnd E else limit_query rnd E"
      define w2 where "w2 = snd (TouchLastUsed E (k_id key) w1)"
      have a: "authenticate E H (ar_key req) w = (Inr ?i, w2)"
        using g key False by (simp add: authenticate_def andthen_def map_err_def best_effort_def ret_def w2_def)
      have ip: "gc_ip c = ar_ip req" by (rule assms(3))
      have chain: "group_chain rnd E H req (endpoint E H req) c w =
          RequireScope_mw scope (Limit ?lim (endpoint E H req)) ?c w2"
        using g key False by (simp add: s w2_def)
      obtain y w3 where l: "?lim ?i (ar_ip req) w2 = (y, w3)" by fastforce
      have serve: "serve rnd E H req w = (if k_scope key \<noteq> scope then (writeError (Api ErrForbidden), w2)
          else case y of Inl e \<Rightarrow> (writeError e, w3) | Inr _ \<Rightarrow> respond (dispatch E H ?i req) w3)"
        using a l by (auto simp: s andthen_def RequireScope_def fail_def ret_def split: sum.split)
      have t: "answers c r v p = answers ?c r v p" for r and v :: "'z app_world_scheme" and p by (simp add: answers_set)
      show ?thesis unfolding serve chain t
        using l limit_error [of rnd E ?i "ar_ip req" w2] endpoint_answers [of ?c E H req w3]
        by (cases y) (auto simp: RequireScope_mw_def Limit_def ip split: if_splits)
    qed
  qed
qed

lemma fresh_context:
  fixes m path :: string and req :: api_request
  defines "c \<equiv> new_context m path req"
  shows "identity_of c = \<lparr>id_tenant = [], id_key = [], id_scope = []\<rparr>" "RequestID c = []"
    "gc_key_header c = ar_key req" "gc_ip c = ar_ip req" "gc_writes c = []" "gc_headers c = []"
    "gc_method c = m" "gc_path c = path"
  by (simp_all add: c_def new_context_def identity_of_def TenantID_def APIKeyID_def Scope_def RequestID_def ctx_get_def)

text \<open>The context the group's chain gets, once CORS has let the request pass.\<close>

definition logged_context :: "string \<Rightarrow> string \<Rightarrow> api_request \<Rightarrow> (string \<times> string) list \<Rightarrow> string \<Rightarrow> gin_context" where
  "logged_context m path req hs u =
     (setRequestID u ((new_context m path req)\<lparr>gc_headers := hs\<rparr>))\<lparr>gc_headers := hs @ [(''X-Request-ID'', u)]\<rparr>"

lemma router_runs_group:
  assumes "cors newCORS (new_context m path req) = Inr hs"
    "group_chain rnd E H req h (logged_context m path req hs (e_uuid E (w_tick w + 1))) (w\<lparr>w_tick := w_tick w + 2\<rparr>) = (p, c2, w2)"
  shows "NewRouter cors rnd E H req h (new_context m path req) w =
    (None, case p of
       None \<Rightarrow> (c2, w2\<lparr>w_tick := w_tick w2 + 1, gw_log := gw_log w2 @ [HttpRequest (gc_method c2) (gc_path c2)
                (status_of c2) (quot_go (e_time E (w_tick w2) - e_time E (w_tick w)) 1000000) (e_uuid E (w_tick w + 1))]\<rparr>)
     | Some v \<Rightarrow> (Abort (write_error (Api ErrInternal) c2),
          w2\<lparr>gw_log := gw_log w2 @ [PanicRecovered (panic_value v) (panic_stack v) (RequestID c2)]\<rparr>))"
proof -
  have h: "gc_headers (setRequestID u c) = gc_headers c" for u c by (simp add: setRequestID_def)
  show ?thesis
    using assms by (cases p) (simp_all add: NewRouter_def cors_mw_def Recover_def Log_def Let_def fresh_context logged_context_def h)
qed

text \<open>
  C27. The middleware chain computes what \<open>serve\<close> computes: when CORS lets a request pass, exactly
  one reply is written, the one of \<open>serve\<close>, the rest of the world is as \<open>serve\<close> leaves it, the
  drawn request id is in the reply's headers, and one line is logged: method, path, status, time
  and request id, and nothing else of the request.
\<close>

theorem router_serves:
  assumes "cors newCORS (new_context m path req) = Inr hs"
    "serve rnd E H req (w\<lparr>w_tick := w_tick w + 2\<rparr>) = (r, w2)"
  shows "\<exists>c'. NewRouter cors rnd E H req (endpoint E H req) (new_context m path req) w =
      (None, c', w2\<lparr>w_tick := w_tick w2 + 1, gw_log := gw_log w2 @ [HttpRequest m path (rp_status r)
         (quot_go (e_time E (w_tick w2) - e_time E (w_tick w)) 1000000) (e_uuid E (w_tick w + 1))]\<rparr>) \<and>
    gc_writes c' = [r] \<and> gc_headers c' = hs @ [(''X-Request-ID'', e_uuid E (w_tick w + 1))]"
proof -
  define u where "u = e_uuid E (w_tick w + 1)"
  define w1 where "w1 = w\<lparr>w_tick := w_tick w + 2\<rparr>"
  let ?c = "logged_context m path req hs u"
  have c: "identity_of ?c = \<lparr>id_tenant = [], id_key = [], id_scope = []\<rparr>" "gc_key_header ?c = ar_key req"
    "gc_ip ?c = ar_ip req" "gc_writes ?c = []" "gc_headers ?c = hs @ [(''X-Request-ID'', u)]"
    "gc_method ?c = m" "gc_path ?c = path"
    by (simp_all add: logged_context_def fresh_context) (simp_all add: setRequestID_def fresh_context)
  from group_serves [OF c(1-3), of rnd E H w1] assms(2) [folded w1_def]
  obtain c' where g: "group_chain rnd E H req (endpoint E H req) ?c w1 = (None, c', w2)"
    "gc_writes c' = [r]" "gc_headers c' = gc_headers ?c" "gc_method c' = m" "gc_path c' = path"
    by (auto simp: answers_def c)
  from router_runs_group [where w = w and cors = cors, OF assms(1) g(1) [unfolded u_def w1_def]] g(2-5) c(5) show ?thesis
    unfolding u_def [symmetric] by (simp add: status_of_def)
qed

section \<open>Panics\<close>

interpretation logs: rest_of_world gw_log
  by unfold_locales simp_all

lemma limit_log:
  "limit_admin rnd E i ip w = (x, w') \<Longrightarrow> gw_log w' = gw_log w"
  "limit_query rnd E i ip w = (x, w') \<Longrightarrow> gw_log w' = gw_log w"
  by (auto simp: limit_admin_def limit_query_def split: prod.splits)

text \<open>Either a middleware of the group refuses, or the handler runs; the log is untouched so far.\<close>

lemma group_cases:
  fixes w :: "'z app_world_scheme"
  obtains (refused) e c' w' where "group_chain rnd E H req h c w = (None, c', w')"
      "e \<in> {ErrUnauthorized, ErrForbidden, ErrRateLimited}" "gc_writes c' = gc_writes c @ [writeError (Api e)]"
      "gc_method c' = gc_method c" "gc_path c' = gc_path c" "gw_log w' = gw_log w"
  | (handled) c' w1 where "group_chain rnd E H req h c w = h c' w1" "gc_writes c' = gc_writes c"
      "RequestID c' = RequestID c" "gw_log w1 = gw_log w"
proof (cases "route_scope (ar_route req)")
  case None
  then show ?thesis using handled [of c w] by (simp add: group_chain_def)
next
  case (Some scope)
  let ?lim = "if scope = ''admin'' then limit_admin rnd E else limit_query rnd E"
  have chain: "group_chain rnd E H req h c w = RequireKey E H (RequireScope_mw scope (Limit ?lim h)) c w"
    by (simp add: group_chain_def Some)
  obtain ok c1 w1 where a: "authenticate_ctx E H c w = (ok, c1, w1)" by (metis prod_cases3)
  show ?thesis
  proof (cases ok)
    case False
    have "c1 = write_error (Api ErrUnauthorized) c \<and> gw_log w1 = gw_log w"
    proof (cases "GetByHash E (h_sha256_hex H (gc_key_header c)) w")
      case (Pair x w2)
      with logs.reservedD [OF logs.reserved_repositories(1) Pair] a False show ?thesis
        by (auto simp: authenticate_ctx_def Let_def split: if_splits sum.splits)
    qed
    with a False show ?thesis
      using refused [of "Abort c1" w1 ErrUnauthorized] chain by (simp add: RequireKey_def write_error_def)
  next
    case True
    obtain x w2 where g: "GetByHash E (h_sha256_hex H (gc_key_header c)) w = (x, w2)" by fastforce
    from a True g obtain key where key: "x = Inr key"
      "c1 = setScope (k_scope key) (setAPIKeyID (k_id key) (setTenantID (k_tenant key) c))"
      "w1 = snd (TouchLastUsed E (k_id key) w2)"
      by (auto simp: authenticate_ctx_def Let_def split: if_splits sum.splits)
    have l1: "gw_log w1 = gw_log w"
      using logs.reservedD [OF logs.reserved_repositories(1) g]
        logs.reservedD [OF logs.reserved_repositories(2) prod.collapse [symmetric], of E "k_id key" w2] key(3)
      by simp
    have c1: "gc_writes c1 = gc_writes c" "gc_method c1 = gc_method c" "gc_path c1 = gc_path c" "RequestID c1 = RequestID c"
      using key(2) by (simp_all add: setScope_def setAPIKeyID_def setTenantID_def RequestID_def ctx_keys)
    have chain': "group_chain rnd E H req h c w = RequireScope_mw scope (Limit ?lim h) c1 w1"
      using chain a True by (simp add: RequireKey_def)
    show ?thesis
    proof (cases "Scope c1 = scope")
      case False
      then have "group_chain rnd E H req h c w = (None, Abort (write_error (Api ErrForbidden) c1), w1)"
        using chain' by (simp add: RequireScope_mw_def)
      from refused [OF this, of ErrForbidden] c1 l1 show ?thesis by (simp add: write_error_def)
    next
      case True
      obtain y w3 where l: "?lim (identity_of c1) (gc_ip c1) w1 = (y, w3)" by fastforce
      have l3: "gw_log w3 = gw_log w" using l limit_log [of rnd E "identity_of c1" "gc_ip c1" w1 y w3] l1 by (auto split: if_splits)
      have limited: "group_chain rnd E H req h c w =
          (case y of Inl _ \<Rightarrow> (None, Abort (write_error (Api ErrRateLimited) c1), w3) | Inr _ \<Rightarrow> h c1 w3)"
        using chain' True l by (simp add: RequireScope_mw_def Limit_def)
      show ?thesis
      proof (cases y)
        case (Inl e)
        with limited have "group_chain rnd E H req h c w = (None, Abort (write_error (Api ErrRateLimited) c1), w3)" by simp
        from refused [OF this, of ErrRateLimited] c1 l3 show ?thesis by (simp add: write_error_def)
      next
        case (Inr u)
        with limited have "group_chain rnd E H req h c w = h c1 w3" by simp
        from handled [OF this] c1 l3 show ?thesis by simp
      qed
    qed
  qed
qed

text \<open>
  C28. A panic of a handler never gets past the router: the client receives one reply, the generic
  internal error whatever the panic carries (or the refusal of a middleware, when the handler is
  not reached), and exactly one line is logged, with the request id.
\<close>

theorem panic_contained:
  fixes w :: "'z app_world_scheme"
  assumes "cors newCORS (new_context m path req) = Inr hs"
    "\<And>c v. \<exists>v'. h c v = (Some (Panic val stk), c, v') \<and> gw_log v' = gw_log v"
  shows "\<exists>c' w' e ms. NewRouter cors rnd E H req h (new_context m path req) w = (None, c', w') \<and>
    gc_writes c' = [writeError (Api e)] \<and>
    (e = ErrInternal \<and> gw_log w' = gw_log w @ [PanicRecovered val stk (e_uuid E (w_tick w + 1))] \<or>
     e \<in> {ErrUnauthorized, ErrForbidden, ErrRateLimited} \<and>
       gw_log w' = gw_log w @ [HttpRequest m path (rp_status (writeError (Api e))) ms (e_uuid E (w_tick w + 1))])"
proof -
  define u where "u = e_uuid E (w_tick w + 1)"
  let ?c = "logged_context m path req hs u" and ?w = "w\<lparr>w_tick := w_tick w + 2\<rparr>"
  have c: "gc_writes ?c = []" "gc_method ?c = m" "gc_path ?c = path" "RequestID ?c = u"
    by (simp_all add: logged_context_def) (simp_all add: setRequestID_def fresh_context)
  note run = router_runs_group [where w = w and cors = cors and E = E, OF assms(1), folded u_def]
  show ?thesis
  proof (cases rule: group_cases [of rnd E H req h ?c ?w])
    case (refused e c' w')
    let ?ms = "quot_go (e_time E (w_tick w') - e_time E (w_tick w)) 1000000"
    let ?w' = "w'\<lparr>w_tick := w_tick w' + 1, gw_log := gw_log w' @ [HttpRequest m path (status_of c') ?ms u]\<rparr>"
    have "NewRouter cors rnd E H req h (new_context m path req) w = (None, c', ?w')"
      using run [OF refused(1)] refused(4,5) c by simp
    moreover have "gc_writes c' = [writeError (Api e)]"
      "gw_log ?w' = gw_log w @ [HttpRequest m path (rp_status (writeError (Api e))) ?ms u]"
      using refused(3,6) c by (simp_all add: status_of_def)
    ultimately show ?thesis unfolding u_def [symmetric] using refused(2) by blast
  next
    case (handled c' w1)
    from assms(2) obtain v where v: "h c' w1 = (Some (Panic val stk), c', v)" "gw_log v = gw_log w1" by blast
    from run [OF handled(1) [unfolded v(1)]] handled(2-4) v(2) c show ?thesis unfolding u_def [symmetric]
      by (simp add: write_error_def)
  qed
qed

text \<open>A request without a key, behind a CORS package that lets everything pass; a handler that panics.\<close>

definition demo_app :: app_world where
  "demo_app = \<lparr>w_db = demo_db, w_tick = 0,
     aw_admin = NewTokenBucket adminQuotaPerMinute (exact (adminQuotaPerMinute / 60)),
     aw_query = NewTokenBucket queryQuotaPerMinute (exact (queryQuotaPerMinute / 60)), gw_log = []\<rparr>"

theorem router_serves_witness:
  "\<exists>c' w'. NewRouter (\<lambda>_ _. Inr []) exact demo_env demo_handler (demo_request RListJobs [])
      (endpoint demo_env demo_handler (demo_request RListJobs []))
      (new_context ''GET'' ''/api/v1/jobs'' (demo_request RListJobs [])) demo_app = (None, c', w') \<and>
    gw_log w' = [HttpRequest ''GET'' ''/api/v1/jobs'' 401 0 ''u'']"
proof -
  let ?w = "demo_app\<lparr>w_tick := w_tick demo_app + 2\<rparr>"
  have s: "serve exact demo_env demo_handler (demo_request RListJobs []) ?w = (writeError (Api ErrUnauthorized), ?w)"
    by (simp add: serve_def guarded_route_def demo_request_def authenticate_def fail_def andthen_def respond_def)
  have st: "rp_status (writeError (Api ErrUnauthorized)) = 401"
    by (simp add: writeError_def api_http_status_def ErrUnauthorized_def newAPIError_def)
  show ?thesis
    using router_serves [where cors = "\<lambda>_ _. Inr []" and hs = "[]" and m = "''GET''" and path = "''/api/v1/jobs''", OF refl s]
    by (auto simp: st demo_app_def demo_env_def quot_go_def)
qed

theorem panic_contained_witness:
  "\<exists>c' w' e. NewRouter (\<lambda>_ _. Inr []) exact demo_env demo_handler (demo_request RListJobs ''ka'')
      (\<lambda>c v. (Some (Panic ''secret'' ''stack''), c, v))
      (new_context ''GET'' ''/api/v1/jobs'' (demo_request RListJobs ''ka'')) demo_app = (None, c', w') \<and>
    gc_writes c' = [writeError (Api e)] \<and> e \<in> {ErrInternal, ErrUnauthorized, ErrForbidden, ErrRateLimited} \<and>
    length (gw_log w') = 1"
proof -
  have p: "\<exists>v'. (Some (Panic ''secret'' ''stack''), c, v) = (Some (Panic ''secret'' ''stack''), c, v') \<and> gw_log v' = gw_log v"
    for c :: gin_context and v :: app_world by blast
  show ?thesis
    using panic_contained [where cors = "\<lambda>_ _. Inr []" and hs = "[]" and m = "''GET''" and path = "''/api/v1/jobs''"
        and h = "\<lambda>c v. (Some (Panic ''secret'' ''stack''), c, v)" and w = demo_app and rnd = exact and E = demo_env
        and H = demo_handler and req = "demo_request RListJobs ''ka''", OF refl p]
    by (fastforce simp: demo_app_def)
qed

end
