(* ===== verification/Spec2Isabelle.thy ===== *)
theory Spec2Isabelle
  imports Rows Lifecycle History Orphan Exclusive Publish Journey Ports Startup Wire Shutdown Middleware
begin

text \<open>
  A model of learn-rag, a multi-tenant service that turns uploaded videos, audio files and PDFs
  into searchable text and answers questions about it. Two processes share one Postgres database:
  the API server (\<open>cmd/server\<close>) hands out upload URLs, creates and lists jobs, lists materials and
  answers questions; the worker (\<open>cmd/worker\<close>) claims pending jobs, downloads the file, transcribes
  or parses it, splits and embeds the text and stores the result.

  Theories, and the code under \<open>src/internal\<close> each one models:

  \<^item> \<open>Prelude\<close>: Go's strings, integers and durations as the code uses them; the computations of the
    model, \<open>('e, 'w, 'a) io\<close>, functions from a world to a result (\<open>Inl\<close> an error) and a world; the
    rules that take such computations apart.
  \<^item> \<open>ApiErrors\<close>: \<open>core/errors\<close>; an error is a chain of wraps, so that \<open>errors.Is\<close> and \<open>errors.As\<close>
    are functions of it.
  \<^item> \<open>Breaker\<close>: \<open>circuitbreaker\<close>. Each critical section is a function of the breaker; the step
    relation \<open>bstep\<close> interleaves them for any number of goroutines. It refines an abstract
    specification with a state per phase.
  \<^item> \<open>TokenBucket\<close>: \<open>ratelimit\<close>, with the float arithmetic as a parameter (\<open>exact\<close> instantiates it).
  \<^item> \<open>Chunker\<close>, \<open>Summarizer\<close>, \<open>Rager\<close>: \<open>core/chunker\<close>, \<open>core/summarizer\<close>, \<open>core/rager\<close>.
  \<^item> \<open>HttpClient\<close>: \<open>providers/httpclient\<close>; a transport is a function of the requests sent so far.
  \<^item> \<open>Providers\<close>: \<open>cloudflareai\<close>, \<open>deepseek\<close>, \<open>groq\<close>, \<open>llamaparse\<close>, \<open>r2\<close>, over the client and the
    breaker.
  \<^item> \<open>Database\<close>: the tables and every statement of \<open>database/queries\<close>. \<open>Repo\<close>: \<open>database/tx.go\<close> and
    \<open>database/repo\<close>. \<open>Rows\<close>: the row structs of \<open>database/queries\<close> and the conversions between their
    pgtype columns and the domain types of \<open>core/model\<close>, which \<open>Database\<close> and \<open>Repo\<close> use throughout;
    the two views agree. \<open>Tenancy\<close>: which rows an operation may change.
  \<^item> \<open>Config\<close>: \<open>config\<close> and the retention interval of \<open>worker/retention.go\<close>.
  \<^item> \<open>Http\<close>: \<open>httpapi\<close>: DTO validation, handlers, authentication, scopes, rate limits and the route
    table. \<open>HttpFacts\<close>, \<open>Demo\<close>, \<open>HttpProps\<close>, \<open>ClientErrors\<close>: its lemmas, a concrete deployment on
    which the properties are exercised, and its properties. \<open>ApiFrame\<close>: what handlers cannot touch,
    as the locale \<open>rest_of_world\<close>, and the accounting of the requests that the limiters let through.
  \<^item> \<open>Middleware\<close>: \<open>httpapi/middleware\<close> and \<open>NewRouter\<close> as functions of the request context and of
    the pending handlers, with panics and the request log; the chain refines \<open>Http.serve\<close>.
  \<^item> \<open>Worker\<close>: \<open>worker\<close>: the pipeline of a job, the claim loop, the back-off of the listener and the
    retention pass. \<open>WorkerFrame\<close>, \<open>WorkerJobs\<close>, \<open>WorkerData\<close>: which jobs the pipeline touches, how
    jobs end and queues drain, and what is stored and deleted. \<open>WorkerTenancy\<close>: the worker, which
    may write every tenant's rows, stays within the tenant of its job, deletions that cascade
    included. \<open>DemoData\<close>: a small database.
  \<^item> \<open>WakeLoop\<close>: the goroutines of \<open>Worker.Run\<close> and the wake channel, as a transition system.
    \<open>Shutdown\<close>: \<open>Worker.Run\<close> around it, with its main goroutine, the wait group, the clock, the
    grace period of the jobs in flight and the cancellation of their context.
  \<^item> \<open>Wiring\<close>: \<open>cmd/worker/main.go\<close> and \<open>cmd/server/main.go\<close>: the providers behind the ports of the
    pipeline and of the handlers, and the properties of the shipped programs.
  \<^item> \<open>SystemRuns\<close>: requests, claims, jobs and retention passes on one database, as a step relation;
    tenants are isolated in every run.
  \<^item> \<open>DbInvariant\<close>: the interface between the statements of \<open>Database\<close> and the invariants of a run, as
    two locales: \<open>kept_by_statements\<close> asks of a predicate that each statement the code issues keeps it,
    and gives that every handler, repository method, job and retention pass keeps it; \<open>db_invariant\<close>
    adds that other sessions do. The relation \<open>live\<close> lists the steps of a session of the server or the
    worker, the commits of the other sessions included.
  \<^item> Its interpretations. \<open>Schema\<close>: the constraints of \<open>migrations/001_init.sql\<close>, table by table, hold in
    every run. \<open>Lifecycle\<close>: what the status of a job, an intent or a summary says of its other
    columns. \<open>Exclusive\<close>: any number of workers that claim, work, fail and die (the relation \<open>crew\<close>,
    whose map says which worker has which job), and that no job is ever with two of them.
    \<open>History\<close>: identities never change and consumed intents stay consumed, between any two
    states of a run. \<open>Orphan\<close>: a job whose status could not be written stays in processing for ever.
  \<^item> \<open>Publish\<close>: what a completed job has stored, by one triple per step of the pipeline: one video with
    its transcript and the chunks of its text, found by search. (The shipped transcriber gives
    transcripts no id, so with it no job completes: \<open>Wiring\<close>.)
  \<^item> \<open>Journey\<close>: a job from the request that creates it, through the queue and the pipeline, to the
    request that shows its outcome.
  \<^item> \<open>Ports\<close>: the repository interfaces of \<open>core/ports\<close> as records and the adapters of \<open>database/repo\<close>
    behind them; the promises of the interfaces' comments on materials as the locales
    \<open>video_contract\<close> and \<open>search_contract\<close>, and their client \<open>material_contract\<close>: a deleted material is gone.
  \<^item> \<open>Startup\<close>: \<open>database/db.go\<close>, the service interfaces of \<open>core/ports\<close>, the configuration and
    constructor of the worker, and both \<open>main\<close> functions from the environment variables on; what
    they need to start, and that they start with what \<open>Wiring\<close> builds.
  \<^item> \<open>Wire\<close>: \<open>httpapi/dto\<close>, \<open>handlers/models.go\<close> and the error format of \<open>httpapi/response.go\<close>: the JSON
    value of every reply, and a reader by the API contract that gives the reply back.

  State. A database is the record \<open>db\<close> of the tables' rows in insertion order. The world of a
  handler adds a logical clock \<open>w_tick\<close>; the environment \<open>environ\<close> gives, per tick, the time, the
  next random uuid, whether a statement meets a fault, whether a commit is lost and what other
  sessions have committed (\<open>e_other\<close>). Concurrency of the database is thus arbitrary interference
  at the transaction boundaries; properties say which environments they hold in: any, those whose
  other sessions keep to one tenant (\<open>calm\<close>) or those without other sessions (\<open>quiet\<close>).

  Integers. Go's \<open>int\<close>, \<open>int64\<close> and \<open>time.Duration\<close> are HOL integers with the wrap-around written
  out (\<open>wrap64\<close>, \<open>wrap32\<close>) where the code can reach it. Strings are lists of bytes.

  Bounds and fuel. \<open>retry_loop\<close> and \<open>poll_loop\<close> recurse on the attempts the code allows. The claim
  loop \<open>drain_loop\<close> takes fuel, since it runs as long as claims keep failing.

  Not modelled: signals and sockets (\<open>cmd\<close>), the driver of the connection pool (a parameter), the log lines
  of the worker, the CORS package and gin itself (parameters), JSON decoding of requests and the
  text of JSON values (a decoded request is an argument, a reply is a JSON value), the generated
  query plumbing (\<open>queries/db.go\<close>), and \<open>Success\<close> and \<open>NoContent\<close> of
  \<open>httpapi/response.go\<close>, which nothing calls. A cancelled job context shows as faults of the
  environment: what was to be done with it fails.
\<close>

end
